theory Spec2Isabelle
  imports Complex_Main "HOL-Library.Word" "HOL-Library.Log_Nat" "HOL-Library.Sublist"
begin

section \<open>Data model\<close>

text \<open>
  The provisioning code of the repository (\<^verbatim>\<open>create_markets.ts\<close> and the
  \<^verbatim>\<open>OpenbookConfigurator\<close> class) talks to a remote ledger through library calls.
  The embedding keeps the code's own control flow and makes its surroundings explicit:

  \<^item> \<open>'pk\<close> is the type of \<^verbatim>\<open>PublicKey\<close> objects. Equality on \<open>'pk\<close> is the
    source's \<^verbatim>\<open>===\<close>; the bytes of a key are read with \<open>toBytes\<close>, which need not
    be injective.
  \<^item> \<open>'l\<close> is the state of the remote ledger. The library calls whose code is not part
    of the repository (address derivation, the RPC client, account allocation, the
    schema sizes) are the fields of an environment record \<open>env\<close>.
  \<^item> Every \<^verbatim>\<open>await\<close>ed call is recorded, in order, in the \<open>events\<close> of the
    \<open>world\<close> (a query together with its answer); a rejected submission is recorded
    too and then raises.
  \<^item> \<^verbatim>\<open>Keypair.generate()\<close> and \<^verbatim>\<open>Math.random()\<close> are inputs of the modelled
    functions.
  \<^item> A JavaScript \<^verbatim>\<open>number\<close> that holds an index or a count is an \<open>int\<close>; one that
    holds a price is a \<open>real\<close>.
\<close>

type_synonym byte = "8 word"

record 'pk Keypair =
  publicKey :: 'pk
  secretKey :: "byte list"

text \<open>\<^verbatim>\<open>interface Market\<close> of \<^verbatim>\<open>create_markets.ts\<close>.\<close>

record 'pk Market =
  name :: string
  admin :: "byte list"
  market_pk :: 'pk
  oracle_a :: 'pk
  oracle_b :: 'pk
  asks :: 'pk
  bids :: 'pk
  event_heap :: 'pk
  base_vault :: 'pk
  quote_vault :: 'pk
  base_mint :: 'pk
  quote_mint :: 'pk
  market_index :: int
  price :: real

text \<open>\<^verbatim>\<open>interface OpenOrders\<close> of the configurator.\<close>

record 'pk OpenOrders =
  market :: 'pk
  open_orders :: 'pk

text \<open>
  \<^verbatim>\<open>User\<close> is imported from \<^verbatim>\<open>../general/create_users\<close>; the configurator reads its
  fields \<^verbatim>\<open>open_orders\<close> (here \<open>user_open_orders\<close>, the name \<open>open_orders\<close> being
  taken by the handle's field) and \<^verbatim>\<open>token_data\<close>, whose entries have a \<^verbatim>\<open>mint\<close>
  and a \<^verbatim>\<open>token_account\<close>.
\<close>

record 'pk TokenAccountData =
  mint :: 'pk
  token_account :: 'pk

record 'pk User =
  user_open_orders :: "'pk OpenOrders list"
  token_data :: "'pk TokenAccountData list"

text \<open>\<^verbatim>\<open>TestProvider\<close>: its connection is the ledger of the \<open>world\<close>, its keypair is kept.\<close>

record 'pk TestProvider =
  keypair :: "'pk Keypair"

text \<open>The fields of \<^verbatim>\<open>OpenbookConfigurator\<close> the methods read.\<close>

record 'pk OpenbookConfigurator =
  anchorProvider :: "'pk TestProvider"
  openbookProgramId :: 'pk

subsection \<open>Instructions\<close>

datatype Side = Bid | Ask
datatype PlaceOrderType = Limit
datatype SelfTradeBehavior = DecrementTake

record PlaceOrderArgs =
  side :: Side
  priceLots :: int
  maxBaseLots :: int
  maxQuoteLotsIncludingFees :: int
  clientOrderId :: int
  orderType :: PlaceOrderType
  expiryTimestamp :: int
  selfTradeBehavior :: SelfTradeBehavior
  limit :: int

record 'pk PlaceOrderAccounts =
  po_asks :: 'pk
  po_marketVault :: 'pk
  po_bids :: 'pk
  po_eventHeap :: 'pk
  po_market :: 'pk
  po_openOrdersAccount :: 'pk
  po_oracleA :: 'pk
  po_oracleB :: 'pk
  po_signer :: 'pk
  po_userTokenAccount :: "'pk option"
  po_tokenProgram :: 'pk
  po_openOrdersAdmin :: "'pk option"

record 'pk StubOracleCreateAccounts =
  soc_payer :: 'pk
  soc_oracle :: 'pk
  soc_mint :: 'pk
  soc_systemProgram :: 'pk

record 'pk StubOracleSetAccounts =
  sos_owner :: 'pk
  sos_oracle :: 'pk

record OracleConfigParams =
  confFilter :: real
  maxStalenessSlots :: int

record 'pk CreateMarketAccounts =
  cm_market :: 'pk
  cm_marketAuthority :: 'pk
  cm_bids :: 'pk
  cm_asks :: 'pk
  cm_eventHeap :: 'pk
  cm_payer :: 'pk
  cm_marketBaseVault :: 'pk
  cm_marketQuoteVault :: 'pk
  cm_baseMint :: 'pk
  cm_quoteMint :: 'pk
  cm_systemProgram :: 'pk
  cm_tokenProgram :: 'pk
  cm_associatedTokenProgram :: 'pk
  cm_oracleA :: 'pk
  cm_oracleB :: 'pk
  cm_collectFeeAdmin :: 'pk
  cm_openOrdersAdmin :: "'pk option"
  cm_closeMarketAdmin :: "'pk option"
  cm_consumeEventsAdmin :: "'pk option"
  cm_eventAuthority :: 'pk
  cm_program :: 'pk

record 'pk CreateOpenOrdersIndexerAccounts =
  coi_openOrdersIndexer :: 'pk
  coi_owner :: 'pk
  coi_payer :: 'pk
  coi_systemProgram :: 'pk

record 'pk CreateOpenOrdersAccountAccounts =
  coa_openOrdersIndexer :: 'pk
  coa_openOrdersAccount :: 'pk
  coa_market :: 'pk
  coa_owner :: 'pk
  coa_delegateAccount :: "'pk option"
  coa_payer :: 'pk
  coa_systemProgram :: 'pk

text \<open>One constructor for each \<^verbatim>\<open>program.methods\<close> builder the code calls.\<close>

datatype 'pk instruction =
    StubOracleCreate real "'pk StubOracleCreateAccounts"
  | StubOracleSet real "'pk StubOracleSetAccounts"
  | CreateMarket string OracleConfigParams int int int int int "'pk CreateMarketAccounts"
  | CreateOpenOrdersIndexer "'pk CreateOpenOrdersIndexerAccounts"
  | CreateOpenOrdersAccount string "'pk CreateOpenOrdersAccountAccounts"
  | PlaceOrder PlaceOrderArgs "'pk PlaceOrderAccounts"

datatype preInstruction = SetComputeUnitLimit nat

text \<open>What \<^verbatim>\<open>.preInstructions(..).signers(..).rpc()\<close> sends.\<close>

record 'pk transaction =
  preInstructions :: "preInstruction list"
  instruction :: "'pk instruction"
  signers :: "'pk Keypair list"

subsection \<open>The environment, the world and errors\<close>

type_synonym AccountInfo = "byte list"

record ('pk, 'l) env =
  toBytes :: "'pk \<Rightarrow> byte list"
  findProgramAddressSync :: "byte list list \<Rightarrow> 'pk \<Rightarrow> ('pk \<times> nat) option"
  getAssociatedTokenAddressSync :: "'pk \<Rightarrow> 'pk \<Rightarrow> bool \<Rightarrow> 'pk option"
  getAccountInfo :: "'l \<Rightarrow> 'pk \<Rightarrow> AccountInfo option"
  rpc :: "'l \<Rightarrow> 'pk transaction \<Rightarrow> 'l option"
  createAccount :: "'l \<Rightarrow> 'pk Keypair \<Rightarrow> nat \<Rightarrow> 'pk \<Rightarrow> ('pk \<times> 'l) option"
  IDL_accounts :: "string list"
  coder_size :: "string \<Rightarrow> nat"
  SystemProgram_programId :: 'pk
  TOKEN_PROGRAM_ID :: 'pk
  ASSOCIATED_TOKEN_PROGRAM_ID :: 'pk

datatype 'pk event =
    GetAccountInfo 'pk "AccountInfo option"
  | Rpc "'pk transaction"
  | CreateAccount "'pk Keypair" nat 'pk

record ('pk, 'l) world =
  ledger :: 'l
  events :: "'pk event list"

datatype error =
    TypeError
  | ProgramAddressError
  | TokenOwnerOffCurveError
  | BufferLengthError
  | OutsideModel
  | TransactionRejected
  | AccountCreationFailed

type_synonym ('a, 'pk, 'l) action = "('pk, 'l) world \<Rightarrow> (error + 'a) \<times> ('pk, 'l) world"

definition succeed :: "'a \<Rightarrow> ('a, 'pk, 'l) action" where
  "succeed x w = (Inr x, w)"

definition throw :: "error \<Rightarrow> ('a, 'pk, 'l) action" where
  "throw e w = (Inl e, w)"

definition andThen :: "('a, 'pk, 'l) action \<Rightarrow> ('a \<Rightarrow> ('b, 'pk, 'l) action) \<Rightarrow> ('b, 'pk, 'l) action" where
  "andThen m f w = (case m w of (Inl e, w') \<Rightarrow> (Inl e, w') | (Inr x, w') \<Rightarrow> f x w')"

definition orThrow :: "error \<Rightarrow> 'a option \<Rightarrow> ('a, 'pk, 'l) action" where
  "orThrow e r = (case r of None \<Rightarrow> throw e | Some x \<Rightarrow> succeed x)"

text \<open>\<^verbatim>\<open>await connection.getAccountInfo(address)\<close>\<close>

definition connection_getAccountInfo ::
  "('pk, 'l) env \<Rightarrow> 'pk \<Rightarrow> (AccountInfo option, 'pk, 'l) action" where
  "connection_getAccountInfo e a w =
     (let r = getAccountInfo e (ledger w) a
      in (Inr r, w\<lparr>events := events w @ [GetAccountInfo a r]\<rparr>))"

text \<open>\<^verbatim>\<open>await program.methods...rpc()\<close>: the submission is recorded, then accepted or rejected.\<close>

definition send_rpc :: "('pk, 'l) env \<Rightarrow> 'pk transaction \<Rightarrow> (unit, 'pk, 'l) action" where
  "send_rpc e tx w =
     (let w1 = w\<lparr>events := events w @ [Rpc tx]\<rparr>
      in case rpc e (ledger w) tx of
           None \<Rightarrow> (Inl TransactionRejected, w1)
         | Some l' \<Rightarrow> (Inr (), w1\<lparr>ledger := l'\<rparr>))"

text \<open>\<^verbatim>\<open>await createAccount(connection, payer, size, owner)\<close> of \<^verbatim>\<open>solana_utils\<close>.\<close>

definition await_createAccount ::
  "('pk, 'l) env \<Rightarrow> 'pk Keypair \<Rightarrow> nat \<Rightarrow> 'pk \<Rightarrow> ('pk, 'pk, 'l) action" where
  "await_createAccount e payer sz owner w =
     (let w1 = w\<lparr>events := events w @ [CreateAccount payer sz owner]\<rparr>
      in case createAccount e (ledger w) payer sz owner of
           None \<Rightarrow> (Inl AccountCreationFailed, w1)
         | Some (a, l') \<Rightarrow> (Inr a, w1\<lparr>ledger := l'\<rparr>))"

text \<open>\<^verbatim>\<open>xs[n]\<close> for a number \<open>n\<close>: \<^verbatim>\<open>undefined\<close> outside the array.\<close>

definition at_index :: "'a list \<Rightarrow> int \<Rightarrow> 'a option" where
  "at_index xs n = (if 0 \<le> n \<and> n < int (length xs) then Some (xs ! nat n) else None)"

section \<open>The order-book filler\<close>

definition U64_MAX_BN :: int where
  "U64_MAX_BN = 18446744073709551615"

text \<open>
  \<^verbatim>\<open>user.open_orders[marketData.market_index].open_orders\<close>: reading a field of
  \<^verbatim>\<open>undefined\<close> raises a TypeError.
\<close>

definition openOrdersAccount_of ::
  "'pk User \<Rightarrow> 'pk Market \<Rightarrow> ('pk, 'pk, 'l) action" where
  "openOrdersAccount_of user marketData =
     (case at_index (user_open_orders user) (market_index marketData) of
        None \<Rightarrow> throw TypeError
      | Some h \<Rightarrow> succeed (open_orders h))"

text \<open>Body of the first loop of \<^verbatim>\<open>fillOrderBook\<close>, for one \<open>i\<close>.\<close>

definition placeBid ::
  "('pk, 'l) env \<Rightarrow> 'pk User \<Rightarrow> 'pk Keypair \<Rightarrow> 'pk Market \<Rightarrow> int \<Rightarrow> (unit, 'pk, 'l) action" where
  "placeBid e user userKp marketData i =
     (let args = \<lparr> side = Bid,
                   priceLots = 1000 - 1 - i,
                   maxBaseLots = 10,
                   maxQuoteLotsIncludingFees = 1000000,
                   clientOrderId = i,
                   orderType = Limit,
                   expiryTimestamp = U64_MAX_BN,
                   selfTradeBehavior = DecrementTake,
                   limit = 255 \<rparr>
      in andThen (openOrdersAccount_of user marketData) (\<lambda>ooa.
         andThen (case at_index (token_data user) 0 of
                    None \<Rightarrow> throw TypeError
                  | Some t \<Rightarrow> succeed (token_account t)) (\<lambda>uta.
         send_rpc e \<lparr> preInstructions = [],
                      instruction = PlaceOrder args
                        \<lparr> po_asks = asks marketData,
                          po_marketVault = quote_vault marketData,
                          po_bids = bids marketData,
                          po_eventHeap = event_heap marketData,
                          po_market = market_pk marketData,
                          po_openOrdersAccount = ooa,
                          po_oracleA = oracle_a marketData,
                          po_oracleB = oracle_b marketData,
                          po_signer = publicKey userKp,
                          po_userTokenAccount = Some uta,
                          po_tokenProgram = TOKEN_PROGRAM_ID e,
                          po_openOrdersAdmin = None \<rparr>,
                      signers = [userKp] \<rparr>)))"

text \<open>
  \<^verbatim>\<open>user.token_data.filter((x) => x.mint === marketData.base_mint).at(0)?.token_account\<close>:
  the first matching entry's account, \<^verbatim>\<open>undefined\<close> when none matches.
\<close>

definition baseTokenAccount :: "'pk User \<Rightarrow> 'pk Market \<Rightarrow> 'pk option" where
  "baseTokenAccount user marketData =
     (case filter (\<lambda>x. mint x = base_mint marketData) (token_data user) of
        [] \<Rightarrow> None
      | x # _ \<Rightarrow> Some (token_account x))"

text \<open>Body of the second loop of \<^verbatim>\<open>fillOrderBook\<close>, for one \<open>i\<close>.\<close>

definition placeAsk ::
  "('pk, 'l) env \<Rightarrow> 'pk User \<Rightarrow> 'pk Keypair \<Rightarrow> 'pk Market \<Rightarrow> int \<Rightarrow> int \<Rightarrow> (unit, 'pk, 'l) action" where
  "placeAsk e user userKp marketData nbOrders i =
     (let args = \<lparr> side = Ask,
                   priceLots = 1000 + 1 + i,
                   maxBaseLots = 10000,
                   maxQuoteLotsIncludingFees = 1000000,
                   clientOrderId = i + nbOrders + 1,
                   orderType = Limit,
                   expiryTimestamp = U64_MAX_BN,
                   selfTradeBehavior = DecrementTake,
                   limit = 255 \<rparr>
      in andThen (openOrdersAccount_of user marketData) (\<lambda>ooa.
         send_rpc e \<lparr> preInstructions = [],
                      instruction = PlaceOrder args
                        \<lparr> po_asks = asks marketData,
                          po_marketVault = base_vault marketData,
                          po_bids = bids marketData,
                          po_eventHeap = event_heap marketData,
                          po_market = market_pk marketData,
                          po_openOrdersAccount = ooa,
                          po_oracleA = oracle_a marketData,
                          po_oracleB = oracle_b marketData,
                          po_signer = publicKey userKp,
                          po_userTokenAccount = baseTokenAccount user marketData,
                          po_tokenProgram = TOKEN_PROGRAM_ID e,
                          po_openOrdersAdmin = None \<rparr>,
                      signers = [userKp] \<rparr>))"

text \<open>\<^verbatim>\<open>for (let i = 0; i < nbOrders; ++i) { await ... }\<close>, from the current \<open>i\<close>.\<close>

function bidLoop ::
  "('pk, 'l) env \<Rightarrow> 'pk User \<Rightarrow> 'pk Keypair \<Rightarrow> 'pk Market \<Rightarrow> int \<Rightarrow> int \<Rightarrow> (unit, 'pk, 'l) action" where
  "bidLoop e user userKp marketData nbOrders i w =
     (if i < nbOrders
      then (case placeBid e user userKp marketData i w of
              (Inl err, w') \<Rightarrow> (Inl err, w')
            | (Inr _, w') \<Rightarrow> bidLoop e user userKp marketData nbOrders (i + 1) w')
      else (Inr (), w))"
  by pat_completeness auto
termination
  by (relation "measure (\<lambda>(e, user, userKp, marketData, nbOrders, i, w). nat (nbOrders - i))") auto

declare bidLoop.simps [simp del]

function askLoop ::
  "('pk, 'l) env \<Rightarrow> 'pk User \<Rightarrow> 'pk Keypair \<Rightarrow> 'pk Market \<Rightarrow> int \<Rightarrow> int \<Rightarrow> (unit, 'pk, 'l) action" where
  "askLoop e user userKp marketData nbOrders i w =
     (if i < nbOrders
      then (case placeAsk e user userKp marketData nbOrders i w of
              (Inl err, w') \<Rightarrow> (Inl err, w')
            | (Inr _, w') \<Rightarrow> askLoop e user userKp marketData nbOrders (i + 1) w')
      else (Inr (), w))"
  by pat_completeness auto
termination
  by (relation "measure (\<lambda>(e, user, userKp, marketData, nbOrders, i, w). nat (nbOrders - i))") auto

declare askLoop.simps [simp del]

definition fillOrderBook ::
  "('pk, 'l) env \<Rightarrow> 'pk User \<Rightarrow> 'pk Keypair \<Rightarrow> 'pk Market \<Rightarrow> int \<Rightarrow> (unit, 'pk, 'l) action" where
  "fillOrderBook e user userKp marketData nbOrders =
     andThen (bidLoop e user userKp marketData nbOrders 0) (\<lambda>_.
       askLoop e user userKp marketData nbOrders 0)"


section \<open>The per-user registrar\<close>

text \<open>\<^verbatim>\<open>Buffer.from(str)\<close> for the ASCII seeds the code uses.\<close>

definition Buffer_from :: "string \<Rightarrow> byte list" where
  "Buffer_from s = map (\<lambda>c. of_nat (of_char c)) s"

text \<open>
  \<^verbatim>\<open>bn.toBuffer("le", 4)\<close>: the magnitude in four little-endian bytes; the library
  raises when it does not fit.
\<close>

definition BN_toBuffer_le4 :: "int \<Rightarrow> byte list option" where
  "BN_toBuffer_le4 n =
     (let a = nat \<bar>n\<bar>
      in if a < 256 ^ 4 then Some (map (\<lambda>k. of_nat (a div 256 ^ k)) [0..<4]) else None)"

text \<open>Body of the loop of \<^verbatim>\<open>configureMarketForUser\<close>, for one \<open>i\<close>.\<close>

definition createOpenOrders ::
  "('pk, 'l) env \<Rightarrow> 'pk OpenbookConfigurator \<Rightarrow> 'pk Keypair \<Rightarrow> 'pk Market list \<Rightarrow> 'pk \<Rightarrow> nat
     \<Rightarrow> ('pk OpenOrders, 'pk, 'l) action" where
  "createOpenOrders e this user markets openOrdersIndexer i =
     (let market = markets ! i;
          accountIndex = int i + 1
      in andThen (orThrow BufferLengthError (BN_toBuffer_le4 accountIndex)) (\<lambda>indexBytes.
         andThen (orThrow ProgramAddressError
                    (findProgramAddressSync e
                       [Buffer_from ''OpenOrders'', toBytes e (publicKey user), indexBytes]
                       (openbookProgramId this))) (\<lambda>(openOrders, tmp).
         andThen (send_rpc e
                    \<lparr> preInstructions = [],
                      instruction = CreateOpenOrdersAccount ''test simulator''
                        \<lparr> coa_openOrdersIndexer = openOrdersIndexer,
                          coa_openOrdersAccount = openOrders,
                          coa_market = market_pk market,
                          coa_owner = publicKey user,
                          coa_delegateAccount = None,
                          coa_payer = publicKey (keypair (anchorProvider this)),
                          coa_systemProgram = SystemProgram_programId e \<rparr>,
                      signers = [user] \<rparr>) (\<lambda>_.
         succeed \<lparr> market = market_pk market, open_orders = openOrders \<rparr>))))"

text \<open>
  \<^verbatim>\<open>for (let i = 0; i < markets.length; ++i) { ...; openOrdersAccs.push(..) }\<close>, from the
  current \<open>i\<close> and the handles pushed so far.
\<close>

function openOrdersLoop ::
  "('pk, 'l) env \<Rightarrow> 'pk OpenbookConfigurator \<Rightarrow> 'pk Keypair \<Rightarrow> 'pk Market list \<Rightarrow> 'pk \<Rightarrow> nat
     \<Rightarrow> 'pk OpenOrders list \<Rightarrow> ('pk OpenOrders list, 'pk, 'l) action" where
  "openOrdersLoop e this user markets openOrdersIndexer i openOrdersAccs w =
     (if i < length markets
      then (case createOpenOrders e this user markets openOrdersIndexer i w of
              (Inl err, w') \<Rightarrow> (Inl err, w')
            | (Inr oo, w') \<Rightarrow>
                openOrdersLoop e this user markets openOrdersIndexer (i + 1)
                  (openOrdersAccs @ [oo]) w')
      else (Inr openOrdersAccs, w))"
  by pat_completeness auto
termination
  by (relation "measure (\<lambda>(e, this, user, markets, ix, i, accs, w). length markets - i)") auto

declare openOrdersLoop.simps [simp del]

definition configureMarketForUser ::
  "('pk, 'l) env \<Rightarrow> 'pk OpenbookConfigurator \<Rightarrow> 'pk Keypair \<Rightarrow> 'pk Market list
     \<Rightarrow> ('pk OpenOrders list, 'pk, 'l) action" where
  "configureMarketForUser e this user markets =
     andThen (orThrow ProgramAddressError
                (findProgramAddressSync e
                   [Buffer_from ''OpenOrdersIndexer'', toBytes e (publicKey user)]
                   (openbookProgramId this))) (\<lambda>(openOrdersIndexer, tmp1).
     andThen (send_rpc e
                \<lparr> preInstructions = [],
                  instruction = CreateOpenOrdersIndexer
                    \<lparr> coi_openOrdersIndexer = openOrdersIndexer,
                      coi_owner = publicKey user,
                      coi_payer = publicKey (keypair (anchorProvider this)),
                      coi_systemProgram = SystemProgram_programId e \<rparr>,
                  signers = [user] \<rparr>) (\<lambda>_.
     openOrdersLoop e this user markets openOrdersIndexer 0 []))"

section \<open>Numbers\<close>

text \<open>
  The price is computed with JavaScript numbers, which are IEEE 754 binary64 values.
  A finite number is the \<open>real\<close> it denotes. \<open>fl\<close> rounds an exact result to the
  nearest binary64 value, ties to the even significand, as every arithmetic operation of
  the language does; \<open>None\<close> stands for a result beyond the finite range.
\<close>

text \<open>For \<open>0 < x\<close>: the exponent \<open>e\<close> with \<open>2 powi e \<le> x < 2 powi (e + 1)\<close>.\<close>

definition expo :: "real \<Rightarrow> int" where
  "expo x =
     (if 1 \<le> x then int (floorlog 2 (nat \<lfloor>x\<rfloor>)) - 1
      else - int (floorlog 2 (nat (\<lceil>1 / x\<rceil> - 1))))"

text \<open>The distance between neighbouring binary64 values around \<open>x\<close> (subnormals included).\<close>

definition ulp :: "real \<Rightarrow> real" where
  "ulp x = 2 powi (max (expo x) (- 1022) - 52)"

definition round_half_even :: "real \<Rightarrow> int" where
  "round_half_even y =
     (let n = \<lfloor>y\<rfloor>
      in if y - of_int n < 1 / 2 then n
         else if 1 / 2 < y - of_int n then n + 1
         else if even n then n else n + 1)"

definition round_to_double :: "real \<Rightarrow> real" where
  "round_to_double x =
     (if x = 0 then 0
      else sgn x * (of_int (round_half_even (\<bar>x\<bar> / ulp \<bar>x\<bar>)) * ulp \<bar>x\<bar>))"

definition fl :: "real \<Rightarrow> real option" where
  "fl x = (let y = round_to_double x in if \<bar>y\<bar> < 2 ^ 1024 then Some y else None)"

text \<open>The values a JavaScript number can hold.\<close>

definition is_double :: "real \<Rightarrow> bool" where
  "is_double x \<longleftrightarrow> fl x = Some x"

text \<open>
  \<^verbatim>\<open>function getRandomInt(max) { return Math.floor(Math.random() * max) + 100; }\<close>
  with the value \<open>random\<close> that \<^verbatim>\<open>Math.random()\<close> returned.
\<close>

definition getRandomInt :: "real \<Rightarrow> real \<Rightarrow> real option" where
  "getRandomInt random mx =
     Option.bind (fl (random * mx)) (\<lambda>p. fl (of_int \<lfloor>p\<rfloor> + 100))"

subsection \<open>Decimal strings\<close>

definition digit_char :: "nat \<Rightarrow> char" where
  "digit_char d = ''0123456789'' ! d"

fun digits :: "nat \<Rightarrow> string" where
  "digits n = (if n < 10 then [digit_char n] else digits (n div 10) @ [digit_char (n mod 10)])"

declare digits.simps [simp del]

definition digit_of :: "char \<Rightarrow> nat option" where
  "digit_of c =
     map_of [(CHR ''0'', 0), (CHR ''1'', 1), (CHR ''2'', 2), (CHR ''3'', 3), (CHR ''4'', 4),
             (CHR ''5'', 5), (CHR ''6'', 6), (CHR ''7'', 7), (CHR ''8'', 8), (CHR ''9'', 9)] c"

definition isDigit :: "char \<Rightarrow> bool" where
  "isDigit c \<longleftrightarrow> digit_of c \<noteq> None"

definition digits_value :: "string \<Rightarrow> nat" where
  "digits_value s = foldl (\<lambda>acc c. 10 * acc + (case digit_of c of Some d \<Rightarrow> d | None \<Rightarrow> 0)) 0 s"

text \<open>
  \<^verbatim>\<open>x.toFixed(2)\<close> for \<open>\<bar>x\<bar> < 10^21\<close>: the integer \<open>n\<close> nearest to \<open>100 * \<bar>x\<bar>\<close> (the
  larger one on a tie), written in decimal, padded to three digits, with the point before
  the last two. Larger values (printed in exponent notation) are outside the model.
\<close>

definition toFixed2 :: "real \<Rightarrow> string option" where
  "toFixed2 x =
     (if \<bar>x\<bar> < 10 ^ 21
      then (let n = nat \<lfloor>\<bar>x\<bar> * 100 + 1 / 2\<rfloor>;
                m = digits n;
                m' = replicate (3 - length m) CHR ''0'' @ m
            in Some ((if x < 0 then ''-'' else []) @
                     take (length m' - 2) m' @ ''.'' @ drop (length m' - 2) m'))
      else None)"

text \<open>
  \<^verbatim>\<open>parseFloat(s)\<close> for a string that starts with an optional minus sign, digits, and
  an optional point with digits: the number nearest to the decimal value of that prefix.
  \<open>None\<close> stands for \<^verbatim>\<open>NaN\<close> and for the inputs outside the model (leading blanks, a
  plus sign, a leading point, an exponent, \<^verbatim>\<open>Infinity\<close>).
\<close>

definition parseFloat :: "string \<Rightarrow> real option" where
  "parseFloat s =
     (let neg = (case s of c # _ \<Rightarrow> c = CHR ''-'' | [] \<Rightarrow> False);
          s1 = (if neg then tl s else s);
          ip = takeWhile isDigit s1;
          r1 = dropWhile isDigit s1;
          fp = (case r1 of c # t \<Rightarrow> if c = CHR ''.'' then takeWhile isDigit t else [] | [] \<Rightarrow> []);
          r2 = (case r1 of c # t \<Rightarrow> if c = CHR ''.'' then dropWhile isDigit t else r1 | [] \<Rightarrow> [])
      in if ip = [] \<or> (case r2 of c # _ \<Rightarrow> c = CHR ''e'' \<or> c = CHR ''E'' | [] \<Rightarrow> False)
         then None
         else map_option (\<lambda>v. if neg then - v else v)
                (fl (real (digits_value ip) + real (digits_value fp) / 10 ^ length fp)))"

text \<open>
  \<^verbatim>\<open>index.toString()\<close> for a number that holds an integer: its decimal digits, with a minus
  sign when negative. From \<open>10^21\<close> on the language prints exponent notation, which is
  outside the model (\<open>None\<close>).
\<close>

definition number_toString :: "int \<Rightarrow> string option" where
  "number_toString n =
     (if \<bar>n\<bar> < 10 ^ 21
      then Some (if n < 0 then ''-'' @ digits (nat (- n)) else digits (nat n))
      else None)"

section \<open>Asynchronous functions\<close>

text \<open>
  The body of an \<^verbatim>\<open>async\<close> function as a process: it returns, it throws, or it stands at
  an \<^verbatim>\<open>await\<close> of one request to the ledger and goes on with the answer. What runs
  between two \<^verbatim>\<open>await\<close>s runs without interruption; at an \<^verbatim>\<open>await\<close> other calls may run.
\<close>

datatype ('pk, 'a) process =
    Return 'a
  | Throw error
  | Await_getAccountInfo 'pk "AccountInfo option \<Rightarrow> ('pk, 'a) process"
  | Await_rpc "'pk transaction" "('pk, 'a) process"
  | Await_createAccount "'pk Keypair" nat 'pk "'pk \<Rightarrow> ('pk, 'a) process"

text \<open>Sequencing: the statements after a statement.\<close>

primrec thenDo :: "('pk, 'a) process \<Rightarrow> ('a \<Rightarrow> ('pk, 'b) process) \<Rightarrow> ('pk, 'b) process" where
  "thenDo (Return x) f = f x"
| "thenDo (Throw err) f = Throw err"
| "thenDo (Await_getAccountInfo a k) f = Await_getAccountInfo a (\<lambda>r. thenDo (k r) f)"
| "thenDo (Await_rpc tx k) f = Await_rpc tx (thenDo k f)"
| "thenDo (Await_createAccount payer sz owner k) f =
     Await_createAccount payer sz owner (\<lambda>a. thenDo (k a) f)"

text \<open>A library call that throws when it has no result.\<close>

definition orRaise :: "error \<Rightarrow> 'a option \<Rightarrow> ('pk, 'a) process" where
  "orRaise err r = (case r of None \<Rightarrow> Throw err | Some x \<Rightarrow> Return x)"

text \<open>
  One request: the process at an \<^verbatim>\<open>await\<close> sends its request, the world records it and
  answers, and the process goes on to its next \<^verbatim>\<open>await\<close>. The requests are those of
  \<open>connection_getAccountInfo\<close>, \<open>send_rpc\<close> and \<open>await_createAccount\<close>. A settled process
  stays as it is.
\<close>

fun step ::
  "('pk, 'l) env \<Rightarrow> ('pk, 'a) process \<Rightarrow> ('pk, 'l) world \<Rightarrow> ('pk, 'a) process \<times> ('pk, 'l) world" where
  "step e (Return x) w = (Return x, w)"
| "step e (Throw err) w = (Throw err, w)"
| "step e (Await_getAccountInfo a k) w =
     (case connection_getAccountInfo e a w of
        (Inl err, w') \<Rightarrow> (Throw err, w')
      | (Inr r, w') \<Rightarrow> (k r, w'))"
| "step e (Await_rpc tx k) w =
     (case send_rpc e tx w of
        (Inl err, w') \<Rightarrow> (Throw err, w')
      | (Inr _, w') \<Rightarrow> (k, w'))"
| "step e (Await_createAccount payer sz owner k) w =
     (case await_createAccount e payer sz owner w of
        (Inl err, w') \<Rightarrow> (Throw err, w')
      | (Inr a, w') \<Rightarrow> (k a, w'))"

text \<open>A call that is awaited while nothing else runs: its requests follow one another.\<close>

primrec perform :: "('pk, 'l) env \<Rightarrow> ('pk, 'a) process \<Rightarrow> ('a, 'pk, 'l) action" where
  "perform e (Return x) = succeed x"
| "perform e (Throw err) = throw err"
| "perform e (Await_getAccountInfo a k) =
     andThen (connection_getAccountInfo e a) (\<lambda>r. perform e (k r))"
| "perform e (Await_rpc tx k) = andThen (send_rpc e tx) (\<lambda>_. perform e k)"
| "perform e (Await_createAccount payer sz owner k) =
     andThen (await_createAccount e payer sz owner) (\<lambda>a. perform e (k a))"

text \<open>What a settled process settled with.\<close>

fun rejection :: "('pk, 'a) process \<Rightarrow> error option" where
  "rejection (Throw err) = Some err"
| "rejection _ = None"

fun fulfilled :: "('pk, 'a) process \<Rightarrow> 'a option" where
  "fulfilled (Return x) = Some x"
| "fulfilled _ = None"

text \<open>
  \<^verbatim>\<open>await Promise.all(calls)\<close> for calls that have been started. The calls run
  interleaved: \<open>sched\<close> names, request by request, the call whose request the ledger serves
  next (a number that names no call, or a settled one, changes nothing). The result is the
  first rejection, if a call has thrown, and the list of the values in the order of the
  calls once all have returned; the world is the world at that moment. \<open>None\<close> says that
  the calls have not settled within the schedule.
\<close>

fun Promise_all ::
  "('pk, 'l) env \<Rightarrow> ('pk, 'a) process list \<Rightarrow> nat list \<Rightarrow> ('pk, 'l) world
     \<Rightarrow> (error + 'a list) option \<times> ('pk, 'l) world" where
  "Promise_all e calls sched w =
     (case List.map_filter rejection calls of
        err # _ \<Rightarrow> (Some (Inl err), w)
      | [] \<Rightarrow>
          (case those (map fulfilled calls) of
             Some xs \<Rightarrow> (Some (Inr xs), w)
           | None \<Rightarrow>
               (case sched of
                  [] \<Rightarrow> (None, w)
                | i # rest \<Rightarrow>
                    if i < length calls
                    then (case step e (calls ! i) w of
                            (p', w') \<Rightarrow> Promise_all e (calls[i := p']) rest w')
                    else Promise_all e calls rest w)))"

declare Promise_all.simps [simp del]

section \<open>The market factory\<close>

text \<open>
  \<^verbatim>\<open>getAccountSize(name)\<close>: the first account of the IDL with that name, measured by the
  coder; with no such account the coder is handed \<^verbatim>\<open>undefined\<close> and raises.
\<close>

definition getAccountSize :: "('pk, 'l) env \<Rightarrow> string \<Rightarrow> ('pk, nat) process" where
  "getAccountSize e nm =
     (case filter (\<lambda>idlAccount. idlAccount = nm) (IDL_accounts e) of
        [] \<Rightarrow> Throw TypeError
      | idlAccount # _ \<Rightarrow> Return (coder_size e idlAccount))"

text \<open>
  \<^verbatim>\<open>createMarket(program, anchorProvider, mintUtils, adminKp, openbookProgramId, baseMint,
  quoteMint, index)\<close>. \<open>program\<close> is the \<open>rpc\<close> of the environment, \<open>provider\<close> is
  \<^verbatim>\<open>anchorProvider\<close>, \<open>programId\<close> is \<^verbatim>\<open>openbookProgramId\<close>, \<open>mintUtils\<close> is not used by
  the body. \<open>adminKp0\<close> is the argument; the first statement of the body overwrites the
  variable. \<open>random\<close> is what \<^verbatim>\<open>Math.random()\<close> returns and \<open>marketPk\<close> what
  \<^verbatim>\<open>Keypair.generate()\<close> returns in this call. A price or an index outside the model of
  the numbers ends the call with \<open>OutsideModel\<close>.
\<close>

definition createMarket ::
  "('pk, 'l) env \<Rightarrow> 'pk TestProvider \<Rightarrow> 'pk Keypair \<Rightarrow> 'pk \<Rightarrow> 'pk \<Rightarrow> 'pk \<Rightarrow> int \<Rightarrow> real
     \<Rightarrow> 'pk Keypair \<Rightarrow> ('pk, 'pk Market) process" where
  "createMarket e provider adminKp0 programId baseMint quoteMint index random marketPk =
     (let adminKp = keypair provider
      in thenDo (orRaise ProgramAddressError
                   (findProgramAddressSync e
                      [Buffer_from ''StubOracle'', toBytes e (publicKey adminKp), toBytes e baseMint]
                      programId)) (\<lambda>(oracleAId, tmp1).
         thenDo (orRaise ProgramAddressError
                   (findProgramAddressSync e
                      [Buffer_from ''StubOracle'', toBytes e (publicKey adminKp), toBytes e quoteMint]
                      programId)) (\<lambda>(oracleBId, tmp3).
         thenDo (orRaise OutsideModel
                   (Option.bind (getRandomInt random 1000) (\<lambda>g.
                      Option.bind (toFixed2 g) parseFloat))) (\<lambda>price.
         thenDo (Await_getAccountInfo oracleAId Return) (\<lambda>infoA.
         thenDo (if infoA = None
                 then Await_rpc
                        \<lparr> preInstructions = [],
                          instruction = StubOracleCreate 1
                            \<lparr> soc_payer = publicKey adminKp,
                              soc_oracle = oracleAId,
                              soc_mint = baseMint,
                              soc_systemProgram = SystemProgram_programId e \<rparr>,
                          signers = [adminKp] \<rparr> (Return ())
                 else Return ()) (\<lambda>_.
         thenDo (Await_getAccountInfo oracleBId Return) (\<lambda>infoB.
         thenDo (if infoB = None
                 then Await_rpc
                        \<lparr> preInstructions = [],
                          instruction = StubOracleCreate 1
                            \<lparr> soc_payer = publicKey adminKp,
                              soc_oracle = oracleBId,
                              soc_mint = quoteMint,
                              soc_systemProgram = SystemProgram_programId e \<rparr>,
                          signers = [adminKp] \<rparr> (Return ())
                 else Return ()) (\<lambda>_.
         thenDo (Await_rpc
                   \<lparr> preInstructions = [],
                     instruction = StubOracleSet price
                       \<lparr> sos_owner = publicKey adminKp, sos_oracle = oracleAId \<rparr>,
                     signers = [adminKp] \<rparr> (Return ())) (\<lambda>_.
         thenDo (Await_rpc
                   \<lparr> preInstructions = [],
                     instruction = StubOracleSet price
                       \<lparr> sos_owner = publicKey adminKp, sos_oracle = oracleBId \<rparr>,
                     signers = [adminKp] \<rparr> (Return ())) (\<lambda>_.
         thenDo (getAccountSize e ''bookSide'') (\<lambda>asksSize.
         thenDo (Await_createAccount (keypair provider) asksSize programId Return) (\<lambda>asks'.
         thenDo (getAccountSize e ''bookSide'') (\<lambda>bidsSize.
         thenDo (Await_createAccount (keypair provider) bidsSize programId Return) (\<lambda>bids'.
         thenDo (getAccountSize e ''eventHeap'') (\<lambda>eventHeapSize.
         thenDo (Await_createAccount (keypair provider) eventHeapSize programId Return)
                (\<lambda>eventHeap.
         thenDo (orRaise ProgramAddressError
                   (findProgramAddressSync e
                      [Buffer_from ''Market'', toBytes e (publicKey marketPk)]
                      programId)) (\<lambda>(marketAuthority, tmp2).
         thenDo (orRaise TokenOwnerOffCurveError
                   (getAssociatedTokenAddressSync e baseMint marketAuthority True)) (\<lambda>baseVault.
         thenDo (orRaise TokenOwnerOffCurveError
                   (getAssociatedTokenAddressSync e quoteMint marketAuthority True)) (\<lambda>quoteVault.
         thenDo (orRaise OutsideModel (number_toString index)) (\<lambda>indexString.
         let name' = ''index '' @ indexString @ '' wrt 0''
         in
         thenDo (orRaise ProgramAddressError
                   (findProgramAddressSync e [Buffer_from ''__event_authority''] programId))
                (\<lambda>(eventAuthority, tmp4).
         thenDo (Await_rpc
                   \<lparr> preInstructions = [SetComputeUnitLimit 10000000],
                     instruction = CreateMarket name'
                       \<lparr> confFilter = 0, maxStalenessSlots = 100 \<rparr> 1 1 0 0 0
                       \<lparr> cm_market = publicKey marketPk,
                         cm_marketAuthority = marketAuthority,
                         cm_bids = bids',
                         cm_asks = asks',
                         cm_eventHeap = eventHeap,
                         cm_payer = publicKey adminKp,
                         cm_marketBaseVault = baseVault,
                         cm_marketQuoteVault = quoteVault,
                         cm_baseMint = baseMint,
                         cm_quoteMint = quoteMint,
                         cm_systemProgram = SystemProgram_programId e,
                         cm_tokenProgram = TOKEN_PROGRAM_ID e,
                         cm_associatedTokenProgram = ASSOCIATED_TOKEN_PROGRAM_ID e,
                         cm_oracleA = oracleAId,
                         cm_oracleB = oracleBId,
                         cm_collectFeeAdmin = publicKey adminKp,
                         cm_openOrdersAdmin = None,
                         cm_closeMarketAdmin = None,
                         cm_consumeEventsAdmin = None,
                         cm_eventAuthority = eventAuthority,
                         cm_program = programId \<rparr>,
                     signers = [adminKp, marketPk] \<rparr> (Return ())) (\<lambda>_.
         Return
           \<lparr> name = name',
             admin = secretKey adminKp,
             market_pk = publicKey marketPk,
             oracle_a = oracleAId,
             oracle_b = oracleBId,
             asks = asks',
             bids = bids',
             event_heap = eventHeap,
             base_vault = baseVault,
             quote_vault = quoteVault,
             base_mint = baseMint,
             quote_mint = quoteMint,
             market_index = index,
             price = price \<rparr>))))))))))))))))))))))"

section \<open>The configurator\<close>


section \<open>What the specification says, as definitions\<close>

text \<open>
  The ladder of the order-book filler in the words of the specification: buy order \<open>i\<close>
  has price \<open>1000 - 1 - i\<close>, quantity 10 base lots, quote cap 1,000,000 and client id
  \<open>i\<close>; sell order \<open>i\<close> has price \<open>1000 + 1 + i\<close>, quantity 10,000 base lots, quote cap
  1,000,000 and client id \<open>i + N + 1\<close>; all orders are limit orders that never expire,
  with self-trade policy "decrement and take" and match limit 255.
\<close>

definition spec_buy_order :: "int \<Rightarrow> PlaceOrderArgs" where
  "spec_buy_order i =
     \<lparr> side = Bid, priceLots = 1000 - 1 - i, maxBaseLots = 10,
       maxQuoteLotsIncludingFees = 1000000, clientOrderId = i, orderType = Limit,
       expiryTimestamp = U64_MAX_BN, selfTradeBehavior = DecrementTake, limit = 255 \<rparr>"

definition spec_sell_order :: "int \<Rightarrow> int \<Rightarrow> PlaceOrderArgs" where
  "spec_sell_order N i =
     \<lparr> side = Ask, priceLots = 1000 + 1 + i, maxBaseLots = 10000,
       maxQuoteLotsIncludingFees = 1000000, clientOrderId = i + N + 1, orderType = Limit,
       expiryTimestamp = U64_MAX_BN, selfTradeBehavior = DecrementTake, limit = 255 \<rparr>"

text \<open>\<open>N\<close> buy orders followed by \<open>N\<close> sell orders.\<close>

definition spec_ladder :: "int \<Rightarrow> PlaceOrderArgs list" where
  "spec_ladder N = map spec_buy_order [0..N - 1] @ map (spec_sell_order N) [0..N - 1]"

text \<open>The arguments of a recorded order placement; \<open>None\<close> for any other event.\<close>

definition placedArgs :: "'pk event \<Rightarrow> PlaceOrderArgs option" where
  "placedArgs ev =
     (case ev of
        Rpc tx \<Rightarrow> (case instruction tx of PlaceOrder a acc \<Rightarrow> Some a | _ \<Rightarrow> None)
      | _ \<Rightarrow> None)"

text \<open>
  The transactions of the two loops, given the open-orders account \<open>ooa\<close> and the token
  accounts the lookups return.
\<close>

definition bidTx ::
  "('pk, 'l) env \<Rightarrow> 'pk Keypair \<Rightarrow> 'pk Market \<Rightarrow> 'pk \<Rightarrow> 'pk \<Rightarrow> int \<Rightarrow> 'pk transaction" where
  "bidTx e userKp marketData ooa uta i =
     \<lparr> preInstructions = [],
       instruction = PlaceOrder (spec_buy_order i)
         \<lparr> po_asks = asks marketData, po_marketVault = quote_vault marketData,
           po_bids = bids marketData, po_eventHeap = event_heap marketData,
           po_market = market_pk marketData, po_openOrdersAccount = ooa,
           po_oracleA = oracle_a marketData, po_oracleB = oracle_b marketData,
           po_signer = publicKey userKp, po_userTokenAccount = Some uta,
           po_tokenProgram = TOKEN_PROGRAM_ID e, po_openOrdersAdmin = None \<rparr>,
       signers = [userKp] \<rparr>"

definition askTx ::
  "('pk, 'l) env \<Rightarrow> 'pk Keypair \<Rightarrow> 'pk Market \<Rightarrow> 'pk \<Rightarrow> 'pk option \<Rightarrow> int \<Rightarrow> int
     \<Rightarrow> 'pk transaction" where
  "askTx e userKp marketData ooa bta N i =
     \<lparr> preInstructions = [],
       instruction = PlaceOrder (spec_sell_order N i)
         \<lparr> po_asks = asks marketData, po_marketVault = base_vault marketData,
           po_bids = bids marketData, po_eventHeap = event_heap marketData,
           po_market = market_pk marketData, po_openOrdersAccount = ooa,
           po_oracleA = oracle_a marketData, po_oracleB = oracle_b marketData,
           po_signer = publicKey userKp, po_userTokenAccount = bta,
           po_tokenProgram = TOKEN_PROGRAM_ID e, po_openOrdersAdmin = None \<rparr>,
       signers = [userKp] \<rparr>"

definition ladderTx ::
  "('pk, 'l) env \<Rightarrow> 'pk Keypair \<Rightarrow> 'pk Market \<Rightarrow> 'pk \<Rightarrow> 'pk \<Rightarrow> 'pk option \<Rightarrow> int
     \<Rightarrow> 'pk transaction list" where
  "ladderTx e userKp marketData ooa uta bta N =
     map (bidTx e userKp marketData ooa uta) [0..N - 1] @
     map (askTx e userKp marketData ooa bta N) [0..N - 1]"

section \<open>A mock ledger\<close>

text \<open>
  A small ledger for running the model: keys are byte strings, a derived address is the
  concatenation of its seeds and the program id, the ledger is the list of the addresses
  that hold an account, and the program rejects the re-initialisation of an oracle or of
  an open-orders indexer.
\<close>

definition mock_rpc :: "byte list list \<Rightarrow> byte list transaction \<Rightarrow> byte list list option" where
  "mock_rpc l tx =
     (case instruction tx of
        StubOracleCreate p acc \<Rightarrow>
          if soc_oracle acc \<in> set l then None else Some (soc_oracle acc # l)
      | CreateOpenOrdersIndexer acc \<Rightarrow>
          if coi_openOrdersIndexer acc \<in> set l then None
          else Some (coi_openOrdersIndexer acc # l)
      | _ \<Rightarrow> Some l)"

definition mock_env :: "(byte list, byte list list) env" where
  "mock_env =
     \<lparr> toBytes = id,
       findProgramAddressSync = (\<lambda>seeds pid. Some (concat seeds @ pid, 255)),
       getAssociatedTokenAddressSync = (\<lambda>m owner allow. Some (m @ owner)),
       getAccountInfo = (\<lambda>l a. if a \<in> set l then Some [] else None),
       rpc = mock_rpc,
       createAccount =
         (\<lambda>l payer sz owner. Some ([255, of_nat (length l)], [255, of_nat (length l)] # l)),
       IDL_accounts = [''bookSide'', ''eventHeap''],
       coder_size = (\<lambda>n. if n = ''bookSide'' then 90952 else 91280),
       SystemProgram_programId = [0],
       TOKEN_PROGRAM_ID = [6],
       ASSOCIATED_TOKEN_PROGRAM_ID = [7] \<rparr>"

definition mock_provider :: "byte list TestProvider" where
  "mock_provider = \<lparr> keypair = \<lparr> publicKey = [1], secretKey = [11, 1] \<rparr> \<rparr>"

definition mock_this :: "byte list OpenbookConfigurator" where
  "mock_this = \<lparr> anchorProvider = mock_provider, openbookProgramId = [9] \<rparr>"

definition mock_world :: "(byte list, byte list list) world" where
  "mock_world = \<lparr> ledger = [], events = [] \<rparr>"

definition mock_userKp :: "byte list Keypair" where
  "mock_userKp = \<lparr> publicKey = [2], secretKey = [12, 2] \<rparr>"

definition mock_marketKp :: "byte list Keypair" where
  "mock_marketKp = \<lparr> publicKey = [5], secretKey = [15, 5] \<rparr>"

definition mock_market :: "byte list Market" where
  "mock_market =
     \<lparr> name = ''index 0 wrt 0'', admin = [11, 1], market_pk = [5], oracle_a = [20],
       oracle_b = [21], asks = [22], bids = [23], event_heap = [24], base_vault = [25],
       quote_vault = [26], base_mint = [4], quote_mint = [3], market_index = 0,
       price = 600 \<rparr>"

text \<open>A user whose only handle belongs to another market (\<open>[66]\<close>, not \<open>[5]\<close>).\<close>

definition mock_user :: "byte list User" where
  "mock_user =
     \<lparr> user_open_orders = [\<lparr> market = [66], open_orders = [77] \<rparr>],
       token_data = [\<lparr> mint = [3], token_account = [33] \<rparr>,
                     \<lparr> mint = [4], token_account = [44] \<rparr>] \<rparr>"


text \<open>The mock world after one buy and one sell order of the mock user.\<close>

definition mock_filled :: "(byte list, byte list list) world" where
  "mock_filled =
     \<lparr> ledger = [],
       events = [Rpc (bidTx mock_env mock_userKp mock_market [77] [33] 0),
                 Rpc (askTx mock_env mock_userKp mock_market [77] (Some [44]) 1 0)] \<rparr>"

text \<open>The number a byte string denotes when read with the least significant byte first.\<close>

definition le_value :: "byte list \<Rightarrow> nat" where
  "le_value bs = foldr (\<lambda>b acc. unat b + 256 * acc) bs 0"

text \<open>The two transactions of the registrar.\<close>

definition indexerTx ::
  "('pk, 'l) env \<Rightarrow> 'pk OpenbookConfigurator \<Rightarrow> 'pk Keypair \<Rightarrow> 'pk \<Rightarrow> 'pk transaction" where
  "indexerTx e this user openOrdersIndexer =
     \<lparr> preInstructions = [],
       instruction = CreateOpenOrdersIndexer
         \<lparr> coi_openOrdersIndexer = openOrdersIndexer,
           coi_owner = publicKey user,
           coi_payer = publicKey (keypair (anchorProvider this)),
           coi_systemProgram = SystemProgram_programId e \<rparr>,
       signers = [user] \<rparr>"

definition openOrdersTx ::
  "('pk, 'l) env \<Rightarrow> 'pk OpenbookConfigurator \<Rightarrow> 'pk Keypair \<Rightarrow> 'pk \<Rightarrow> 'pk \<Rightarrow> 'pk
     \<Rightarrow> 'pk transaction" where
  "openOrdersTx e this user openOrdersIndexer marketPk openOrders =
     \<lparr> preInstructions = [],
       instruction = CreateOpenOrdersAccount ''test simulator''
         \<lparr> coa_openOrdersIndexer = openOrdersIndexer,
           coa_openOrdersAccount = openOrders,
           coa_market = marketPk,
           coa_owner = publicKey user,
           coa_delegateAccount = None,
           coa_payer = publicKey (keypair (anchorProvider this)),
           coa_systemProgram = SystemProgram_programId e \<rparr>,
       signers = [user] \<rparr>"

text \<open>
  What the specification says about the handle and the creation transaction for the market
  at position \<open>j\<close>: the handle carries that market's address, its account is derived from
  the seeds \<open>"OpenOrders"\<close>, the user's key and \<open>j + 1\<close> in four little-endian bytes, and
  the transaction creates exactly that account.
\<close>

definition registered ::
  "('pk, 'l) env \<Rightarrow> 'pk OpenbookConfigurator \<Rightarrow> 'pk Keypair \<Rightarrow> 'pk \<Rightarrow> 'pk Market list \<Rightarrow> nat
     \<Rightarrow> 'pk OpenOrders \<times> 'pk transaction \<Rightarrow> bool" where
  "registered e this user ix markets j ht \<longleftrightarrow>
     market (fst ht) = market_pk (markets ! j) \<and>
     snd ht = openOrdersTx e this user ix (market_pk (markets ! j)) (open_orders (fst ht)) \<and>
     (\<exists>bs bump. length bs = 4 \<and> le_value bs = j + 1 \<and>
        findProgramAddressSync e [Buffer_from ''OpenOrders'', toBytes e (publicKey user), bs]
          (openbookProgramId this) = Some (open_orders (fst ht), bump))"

text \<open>A second mock market, with index 1.\<close>

definition mock_market2 :: "byte list Market" where
  "mock_market2 =
     \<lparr> name = ''index 1 wrt 0'', admin = [11, 1], market_pk = [8], oracle_a = [30],
       oracle_b = [21], asks = [32], bids = [33], event_heap = [34], base_vault = [35],
       quote_vault = [36], base_mint = [7], quote_mint = [3], market_index = 1,
       price = 700 \<rparr>"

subsection \<open>Keys as objects\<close>

text \<open>
  Keys as objects. A key of the client library is an object that holds an address; the
  source compares keys with \<^verbatim>\<open>===\<close>, which holds only between an object and itself. Here
  a key is the pair of the object's identity and its address, and \<open>toBytes\<close> reads the
  address: two keys with one address and two identities are different keys. The ledger of
  this environment refuses an order that names no user token account.
\<close>

type_synonym key_object = "nat \<times> byte list"

definition object_env :: "(key_object, byte list list) env" where
  "object_env =
     \<lparr> toBytes = snd,
       findProgramAddressSync = (\<lambda>seeds pid. Some ((0, concat seeds @ snd pid), 255)),
       getAssociatedTokenAddressSync = (\<lambda>m owner allow. Some (0, snd m @ snd owner)),
       getAccountInfo = (\<lambda>l a. if snd a \<in> set l then Some [] else None),
       rpc = (\<lambda>l tx. case instruction tx of
                PlaceOrder a acc \<Rightarrow> if po_userTokenAccount acc = None then None else Some l
              | _ \<Rightarrow> Some l),
       createAccount =
         (\<lambda>l payer sz owner. Some ((0, [255, of_nat (length l)]), [255, of_nat (length l)] # l)),
       IDL_accounts = [''bookSide'', ''eventHeap''],
       coder_size = (\<lambda>n. if n = ''bookSide'' then 90952 else 91280),
       SystemProgram_programId = (0, [0]),
       TOKEN_PROGRAM_ID = (0, [6]),
       ASSOCIATED_TOKEN_PROGRAM_ID = (0, [7]) \<rparr>"

definition object_world :: "(key_object, byte list list) world" where
  "object_world = \<lparr> ledger = [], events = [] \<rparr>"

definition object_userKp :: "key_object Keypair" where
  "object_userKp = \<lparr> publicKey = (30, [2]), secretKey = [12, 2] \<rparr>"

text \<open>A market with the base mint at address \<open>[4]\<close> and the quote mint at address \<open>[3]\<close>.\<close>

definition object_market :: "key_object Market" where
  "object_market =
     \<lparr> name = ''index 0 wrt 0'', admin = [11, 1], market_pk = (40, [5]), oracle_a = (41, [20]),
       oracle_b = (42, [21]), asks = (43, [22]), bids = (44, [23]), event_heap = (45, [24]),
       base_vault = (46, [25]), quote_vault = (47, [26]), base_mint = (20, [4]),
       quote_mint = (21, [3]), market_index = 0, price = 600 \<rparr>"

text \<open>
  A user whose token accounts are listed with the base mint first, and whose keys for the
  two mints are other objects than the market's (as after reading them from a file).
\<close>

definition object_user :: "key_object User" where
  "object_user =
     \<lparr> user_open_orders = [\<lparr> market = (10, [5]), open_orders = (11, [77]) \<rparr>],
       token_data = [\<lparr> mint = (1, [4]), token_account = (2, [44]) \<rparr>,
                     \<lparr> mint = (3, [3]), token_account = (4, [33]) \<rparr>] \<rparr>"

section \<open>Transactions, call counts and mock runs of the market factory\<close>

text \<open>The two oracle transactions of the market factory, signed by the keypair \<open>kp\<close>.\<close>

definition oracleCreateTx ::
  "('pk, 'l) env \<Rightarrow> 'pk Keypair \<Rightarrow> 'pk \<Rightarrow> 'pk \<Rightarrow> 'pk transaction" where
  "oracleCreateTx e kp oracle mint' =
     \<lparr> preInstructions = [],
       instruction = StubOracleCreate 1
         \<lparr> soc_payer = publicKey kp, soc_oracle = oracle, soc_mint = mint',
           soc_systemProgram = SystemProgram_programId e \<rparr>,
       signers = [kp] \<rparr>"

definition oracleSetTx ::
  "('pk, 'l) env \<Rightarrow> 'pk Keypair \<Rightarrow> 'pk \<Rightarrow> real \<Rightarrow> 'pk transaction" where
  "oracleSetTx e kp oracle p =
     \<lparr> preInstructions = [],
       instruction = StubOracleSet p \<lparr> sos_owner = publicKey kp, sos_oracle = oracle \<rparr>,
       signers = [kp] \<rparr>"

text \<open>The market creation transaction, as the last statement of the factory builds it.\<close>

definition marketTx ::
  "('pk, 'l) env \<Rightarrow> 'pk Keypair \<Rightarrow> 'pk \<Rightarrow> 'pk Keypair \<Rightarrow> string \<Rightarrow> 'pk \<Rightarrow> 'pk \<Rightarrow> 'pk \<Rightarrow> 'pk
     \<Rightarrow> 'pk \<Rightarrow> 'pk \<Rightarrow> 'pk \<Rightarrow> 'pk \<Rightarrow> 'pk \<Rightarrow> 'pk \<Rightarrow> 'pk \<Rightarrow> 'pk transaction" where
  "marketTx e kp programId marketPk name' marketAuthority bids' asks' eventHeap baseVault
     quoteVault baseMint quoteMint oracleAId oracleBId eventAuthority =
     \<lparr> preInstructions = [SetComputeUnitLimit 10000000],
       instruction = CreateMarket name'
         \<lparr> confFilter = 0, maxStalenessSlots = 100 \<rparr> 1 1 0 0 0
         \<lparr> cm_market = publicKey marketPk,
           cm_marketAuthority = marketAuthority,
           cm_bids = bids',
           cm_asks = asks',
           cm_eventHeap = eventHeap,
           cm_payer = publicKey kp,
           cm_marketBaseVault = baseVault,
           cm_marketQuoteVault = quoteVault,
           cm_baseMint = baseMint,
           cm_quoteMint = quoteMint,
           cm_systemProgram = SystemProgram_programId e,
           cm_tokenProgram = TOKEN_PROGRAM_ID e,
           cm_associatedTokenProgram = ASSOCIATED_TOKEN_PROGRAM_ID e,
           cm_oracleA = oracleAId,
           cm_oracleB = oracleBId,
           cm_collectFeeAdmin = publicKey kp,
           cm_openOrdersAdmin = None,
           cm_closeMarketAdmin = None,
           cm_consumeEventsAdmin = None,
           cm_eventAuthority = eventAuthority,
           cm_program = programId \<rparr>,
       signers = [kp, marketPk] \<rparr>"

text \<open>
  What the specification's oracle setup records for the two oracles of a market, given the
  answers \<open>ra\<close> and \<open>rb\<close> of the ledger to the two existence queries: a creation exactly
  when the answer is "no account", and one price setting for each oracle afterwards.
\<close>

definition oracleEvents ::
  "('pk, 'l) env \<Rightarrow> 'pk Keypair \<Rightarrow> 'pk \<Rightarrow> 'pk \<Rightarrow> 'pk \<Rightarrow> 'pk \<Rightarrow> AccountInfo option
     \<Rightarrow> AccountInfo option \<Rightarrow> real \<Rightarrow> 'pk event list" where
  "oracleEvents e kp oa ob baseMint quoteMint ra rb p =
     [GetAccountInfo oa ra] @
     (if ra = None then [Rpc (oracleCreateTx e kp oa baseMint)] else []) @
     [GetAccountInfo ob rb] @
     (if rb = None then [Rpc (oracleCreateTx e kp ob quoteMint)] else []) @
     [Rpc (oracleSetTx e kp oa p), Rpc (oracleSetTx e kp ob p)]"

text \<open>The instructions that create an oracle or set its price.\<close>

fun oracle_instruction :: "'pk instruction \<Rightarrow> bool" where
  "oracle_instruction (StubOracleCreate p acc) = True"
| "oracle_instruction (StubOracleSet p acc) = True"
| "oracle_instruction _ = False"

text \<open>
  The values a process can return and the transactions it can submit, whatever the ledger
  answers at its \<^verbatim>\<open>await\<close>s (and so whatever other calls do to the ledger in between).
\<close>

primrec returns :: "('pk, 'a) process \<Rightarrow> 'a set" where
  "returns (Return x) = {x}"
| "returns (Throw err) = {}"
| "returns (Await_getAccountInfo a k) = (\<Union>r. returns (k r))"
| "returns (Await_rpc tx k) = returns k"
| "returns (Await_createAccount payer sz owner k) = (\<Union>a. returns (k a))"

primrec submits :: "('pk, 'a) process \<Rightarrow> 'pk transaction set" where
  "submits (Return x) = {}"
| "submits (Throw err) = {}"
| "submits (Await_getAccountInfo a k) = (\<Union>r. submits (k r))"
| "submits (Await_rpc tx k) = insert tx (submits k)"
| "submits (Await_createAccount payer sz owner k) = (\<Union>a. submits (k a))"




text \<open>
  The descriptor and the world after one call of the market factory, awaited on its own on
  the empty mock ledger, for the base mint \<open>[4]\<close>, the quote mint \<open>[3]\<close>, index 0, the draw
  \<open>1/2\<close> and the generated market identity \<open>mock_marketKp\<close>.
\<close>

definition mock_oracle :: "byte list \<Rightarrow> byte list" where
  "mock_oracle mint' = Buffer_from ''StubOracle'' @ [1] @ mint' @ [9]"

definition mock_created :: "byte list Market" where
  "mock_created =
     \<lparr> name = ''index 0 wrt 0'', admin = [11, 1], market_pk = [5],
       oracle_a = mock_oracle [4], oracle_b = mock_oracle [3],
       asks = [255, 2], bids = [255, 3], event_heap = [255, 4],
       base_vault = [4] @ Buffer_from ''Market'' @ [5, 9],
       quote_vault = [3] @ Buffer_from ''Market'' @ [5, 9],
       base_mint = [4], quote_mint = [3], market_index = 0, price = 600 \<rparr>"

definition mock_after :: "(byte list, byte list list) world" where
  "mock_after =
     \<lparr> ledger = [[255, 4], [255, 3], [255, 2], mock_oracle [3], mock_oracle [4]],
       events =
         oracleEvents mock_env (keypair mock_provider) (mock_oracle [4]) (mock_oracle [3])
           [4] [3] None None 600 @
         [CreateAccount (keypair mock_provider) 90952 [9],
          CreateAccount (keypair mock_provider) 90952 [9],
          CreateAccount (keypair mock_provider) 91280 [9],
          Rpc (marketTx mock_env (keypair mock_provider) [9] mock_marketKp ''index 0 wrt 0''
                 (Buffer_from ''Market'' @ [5, 9]) [255, 3] [255, 2] [255, 4]
                 ([4] @ Buffer_from ''Market'' @ [5, 9]) ([3] @ Buffer_from ''Market'' @ [5, 9])
                 [4] [3] (mock_oracle [4]) (mock_oracle [3])
                 (Buffer_from ''__event_authority'' @ [9]))] \<rparr>"








section \<open>Properties of the order-book filler\<close>

lemma send_rpc_result:
  "send_rpc e tx w = (r, w') \<Longrightarrow>
     events w' = events w @ [Rpc tx] \<and>
     ((r = Inr () \<and> rpc e (ledger w) tx = Some (ledger w')) \<or>
      (r = Inl TransactionRejected \<and> rpc e (ledger w) tx = None \<and> ledger w' = ledger w))"
  by (auto simp: send_rpc_def Let_def split: option.splits)

lemma send_rpc_accepted:
  "rpc e (ledger w) tx \<noteq> None \<Longrightarrow> fst (send_rpc e tx w) = Inr ()"
  by (auto simp: send_rpc_def Let_def split: option.splits)

lemma placeBid_found:
  "at_index (user_open_orders user) (market_index m) = Some h \<Longrightarrow>
   at_index (token_data user) 0 = Some t \<Longrightarrow>
   placeBid e user userKp m i = send_rpc e (bidTx e userKp m (open_orders h) (token_account t) i)"
  by (simp add: placeBid_def openOrdersAccount_of_def andThen_def succeed_def bidTx_def
      spec_buy_order_def fun_eq_iff)

lemma placeBid_missing:
  "at_index (user_open_orders user) (market_index m) = None \<or>
   at_index (token_data user) 0 = None \<Longrightarrow>
   placeBid e user userKp m i w = (Inl TypeError, w)"
  by (auto simp: placeBid_def openOrdersAccount_of_def andThen_def succeed_def throw_def
      split: option.splits)

lemma placeAsk_found:
  "at_index (user_open_orders user) (market_index m) = Some h \<Longrightarrow>
   placeAsk e user userKp m N i =
     send_rpc e (askTx e userKp m (open_orders h) (baseTokenAccount user m) N i)"
  by (simp add: placeAsk_def openOrdersAccount_of_def andThen_def succeed_def askTx_def
      spec_sell_order_def fun_eq_iff)

lemma placeAsk_missing:
  "at_index (user_open_orders user) (market_index m) = None \<Longrightarrow>
   placeAsk e user userKp m N i w = (Inl TypeError, w)"
  by (auto simp: placeAsk_def openOrdersAccount_of_def andThen_def succeed_def throw_def
      split: option.splits)

lemma bidLoop_done: "\<not> i < N \<Longrightarrow> bidLoop e user userKp m N i w = (Inr (), w)"
  by (simp add: bidLoop.simps)

lemma askLoop_done: "\<not> i < N \<Longrightarrow> askLoop e user userKp m N i w = (Inr (), w)"
  by (simp add: askLoop.simps)

lemma bidLoop_missing:
  "at_index (user_open_orders user) (market_index m) = None \<or>
   at_index (token_data user) 0 = None \<Longrightarrow> i < N \<Longrightarrow>
   bidLoop e user userKp m N i w = (Inl TypeError, w)"
  by (subst bidLoop.simps) (simp add: placeBid_missing)

lemma askLoop_missing:
  "at_index (user_open_orders user) (market_index m) = None \<Longrightarrow> i < N \<Longrightarrow>
   askLoop e user userKp m N i w = (Inl TypeError, w)"
  by (subst askLoop.simps) (simp add: placeAsk_missing)

lemma bidLoop_found:
  "at_index (user_open_orders user) (market_index m) = Some h \<Longrightarrow>
   at_index (token_data user) 0 = Some t \<Longrightarrow>
   bidLoop e user userKp m N i w = (r, w') \<Longrightarrow>
     \<exists>txs. events w' = events w @ map Rpc txs \<and>
       prefix txs (map (bidTx e userKp m (open_orders h) (token_account t)) [i..N - 1]) \<and>
       (r = Inr () \<longrightarrow> txs = map (bidTx e userKp m (open_orders h) (token_account t)) [i..N - 1])"
proof (induction e user userKp m N i w arbitrary: r w' rule: bidLoop.induct)
  case (1 e user userKp m N i w)
  let ?tx = "bidTx e userKp m (open_orders h) (token_account t)"
  show ?case
  proof (cases "i < N")
    case False
    with "1.prems"(3) have "w' = w" "r = Inr ()" by (simp_all add: bidLoop_done)
    moreover from False have "[i..N - 1] = []" by simp
    ultimately show ?thesis by simp
  next
    case True
    then have up: "[i..N - 1] = i # [i + 1..N - 1]" by (simp add: upto_rec1)
    obtain r1 w1 where s: "send_rpc e (?tx i) w = (r1, w1)" by (cases "send_rpc e (?tx i) w")
    then have pb: "placeBid e user userKp m i w = (r1, w1)"
      using "1.prems"(1,2) by (simp add: placeBid_found)
    from send_rpc_result [OF s] have ev1: "events w1 = events w @ [Rpc (?tx i)]" by simp
    show ?thesis
    proof (cases r1)
      case (Inl err)
      with pb True "1.prems"(3) have "w' = w1" "r = Inl err"
        by (simp_all add: bidLoop.simps)
      with ev1 up have "events w' = events w @ map Rpc [?tx i] \<and> prefix [?tx i] (map ?tx [i..N - 1]) \<and>
        (r = Inr () \<longrightarrow> [?tx i] = map ?tx [i..N - 1])" by simp
      then show ?thesis by (rule exI [where x = "[?tx i]"])
    next
      case (Inr u)
      with pb True "1.prems"(3) have rest: "bidLoop e user userKp m N (i + 1) w1 = (r, w')"
        by (simp add: bidLoop.simps)
      from "1.IH" [OF True pb [symmetric] _ "1.prems"(1,2) rest] Inr
      obtain txs where "events w' = events w1 @ map Rpc txs"
        "prefix txs (map ?tx [i + 1..N - 1])" "r = Inr () \<longrightarrow> txs = map ?tx [i + 1..N - 1]"
        by auto
      with ev1 up have "events w' = events w @ map Rpc (?tx i # txs) \<and>
         prefix (?tx i # txs) (map ?tx [i..N - 1]) \<and>
        (r = Inr () \<longrightarrow> ?tx i # txs = map ?tx [i..N - 1])" by simp
      then show ?thesis by (rule exI [where x = "?tx i # txs"])
    qed
  qed
qed

lemma askLoop_found:
  "at_index (user_open_orders user) (market_index m) = Some h \<Longrightarrow>
   askLoop e user userKp m N i w = (r, w') \<Longrightarrow>
     \<exists>txs. events w' = events w @ map Rpc txs \<and>
       prefix txs (map (askTx e userKp m (open_orders h) (baseTokenAccount user m) N) [i..N - 1]) \<and>
       (r = Inr () \<longrightarrow>
          txs = map (askTx e userKp m (open_orders h) (baseTokenAccount user m) N) [i..N - 1])"
proof (induction e user userKp m N i w arbitrary: r w' rule: askLoop.induct)
  case (1 e user userKp m N i w)
  let ?tx = "askTx e userKp m (open_orders h) (baseTokenAccount user m) N"
  show ?case
  proof (cases "i < N")
    case False
    with "1.prems"(2) have "w' = w" "r = Inr ()" by (simp_all add: askLoop_done)
    moreover from False have "[i..N - 1] = []" by simp
    ultimately show ?thesis by simp
  next
    case True
    then have up: "[i..N - 1] = i # [i + 1..N - 1]" by (simp add: upto_rec1)
    obtain r1 w1 where s: "send_rpc e (?tx i) w = (r1, w1)" by (cases "send_rpc e (?tx i) w")
    then have pb: "placeAsk e user userKp m N i w = (r1, w1)"
      using "1.prems"(1) by (simp add: placeAsk_found)
    from send_rpc_result [OF s] have ev1: "events w1 = events w @ [Rpc (?tx i)]" by simp
    show ?thesis
    proof (cases r1)
      case (Inl err)
      with pb True "1.prems"(2) have "w' = w1" "r = Inl err"
        by (simp_all add: askLoop.simps)
      with ev1 up have "events w' = events w @ map Rpc [?tx i] \<and> prefix [?tx i] (map ?tx [i..N - 1]) \<and>
        (r = Inr () \<longrightarrow> [?tx i] = map ?tx [i..N - 1])" by simp
      then show ?thesis by (rule exI [where x = "[?tx i]"])
    next
      case (Inr u)
      with pb True "1.prems"(2) have rest: "askLoop e user userKp m N (i + 1) w1 = (r, w')"
        by (simp add: askLoop.simps)
      from "1.IH" [OF True pb [symmetric] _ "1.prems"(1) rest] Inr
      obtain txs where "events w' = events w1 @ map Rpc txs"
        "prefix txs (map ?tx [i + 1..N - 1])" "r = Inr () \<longrightarrow> txs = map ?tx [i + 1..N - 1]"
        by auto
      with ev1 up have "events w' = events w @ map Rpc (?tx i # txs) \<and>
         prefix (?tx i # txs) (map ?tx [i..N - 1]) \<and>
        (r = Inr () \<longrightarrow> ?tx i # txs = map ?tx [i..N - 1])" by simp
      then show ?thesis by (rule exI [where x = "?tx i # txs"])
    qed
  qed
qed

lemma bidLoop_accepted:
  "\<forall>l tx a acc. instruction tx = PlaceOrder a acc \<longrightarrow> rpc e l tx \<noteq> None \<Longrightarrow>
   at_index (user_open_orders user) (market_index m) = Some h \<Longrightarrow>
   at_index (token_data user) 0 = Some t \<Longrightarrow>
   fst (bidLoop e user userKp m N i w) = Inr ()"
proof (induction e user userKp m N i w rule: bidLoop.induct)
  case (1 e user userKp m N i w)
  show ?case
  proof (cases "i < N")
    case False
    then show ?thesis by (simp add: bidLoop_done)
  next
    case True
    let ?tx = "bidTx e userKp m (open_orders h) (token_account t) i"
    have "rpc e (ledger w) ?tx \<noteq> None"
      using "1.prems"(1) by (simp add: bidTx_def)
    then have "fst (send_rpc e ?tx w) = Inr ()" by (rule send_rpc_accepted)
    then obtain w1 where pb: "placeBid e user userKp m i w = (Inr (), w1)"
      using "1.prems"(2,3) by (cases "send_rpc e ?tx w") (simp add: placeBid_found)
    from "1.IH" [OF True pb [symmetric] _ "1.prems"] have "fst (bidLoop e user userKp m N (i + 1) w1) = Inr ()"
      by simp
    with True pb show ?thesis by (subst bidLoop.simps) simp
  qed
qed

lemma askLoop_accepted:
  "\<forall>l tx a acc. instruction tx = PlaceOrder a acc \<longrightarrow> rpc e l tx \<noteq> None \<Longrightarrow>
   at_index (user_open_orders user) (market_index m) = Some h \<Longrightarrow>
   fst (askLoop e user userKp m N i w) = Inr ()"
proof (induction e user userKp m N i w rule: askLoop.induct)
  case (1 e user userKp m N i w)
  show ?case
  proof (cases "i < N")
    case False
    then show ?thesis by (simp add: askLoop_done)
  next
    case True
    let ?tx = "askTx e userKp m (open_orders h) (baseTokenAccount user m) N i"
    have "rpc e (ledger w) ?tx \<noteq> None"
      using "1.prems"(1) by (simp add: askTx_def)
    then have "fst (send_rpc e ?tx w) = Inr ()" by (rule send_rpc_accepted)
    then obtain w1 where pb: "placeAsk e user userKp m N i w = (Inr (), w1)"
      using "1.prems"(2) by (cases "send_rpc e ?tx w") (simp add: placeAsk_found)
    from "1.IH" [OF True pb [symmetric] _ "1.prems"] have "fst (askLoop e user userKp m N (i + 1) w1) = Inr ()"
      by simp
    with True pb show ?thesis by (subst askLoop.simps) simp
  qed
qed

lemma fillOrderBook_split:
  "fillOrderBook e user userKp m N w =
     (case bidLoop e user userKp m N 0 w of
        (Inl err, w1) \<Rightarrow> (Inl err, w1)
      | (Inr u, w1) \<Rightarrow> askLoop e user userKp m N 0 w1)"
  by (simp add: fillOrderBook_def andThen_def)

lemma fillOrderBook_accepted:
  assumes "\<forall>l tx a acc. instruction tx = PlaceOrder a acc \<longrightarrow> rpc e l tx \<noteq> None"
    and "at_index (user_open_orders user) (market_index m) = Some h"
    and "at_index (token_data user) 0 = Some t"
  shows "fst (fillOrderBook e user userKp m N w) = Inr ()"
proof -
  obtain r1 w1 where b: "bidLoop e user userKp m N 0 w = (r1, w1)"
    by (cases "bidLoop e user userKp m N 0 w")
  with bidLoop_accepted [OF assms, of userKp N 0 w] have "r1 = Inr ()" by simp
  with b askLoop_accepted [OF assms(1,2), of userKp N 0 w1] show ?thesis
    by (simp add: fillOrderBook_split)
qed

text \<open>What a run of the filler records, in every case.\<close>

lemma fillOrderBook_run:
  assumes run: "fillOrderBook e user userKp m N w = (r, w')"
  shows "(events w' = events w \<and> (r = Inr () \<longrightarrow> N \<le> 0)) \<or>
         (\<exists>h t txs. at_index (user_open_orders user) (market_index m) = Some h \<and>
            at_index (token_data user) 0 = Some t \<and>
            events w' = events w @ map Rpc txs \<and>
            prefix txs (ladderTx e userKp m (open_orders h) (token_account t)
                          (baseTokenAccount user m) N) \<and>
            (r = Inr () \<longrightarrow>
               txs = ladderTx e userKp m (open_orders h) (token_account t)
                       (baseTokenAccount user m) N))"
proof (cases "0 < N")
  case False
  then have "fillOrderBook e user userKp m N w = (Inr (), w)"
    by (simp add: fillOrderBook_split bidLoop_done askLoop_done)
  with run False show ?thesis by simp
next
  case True
  show ?thesis
  proof (cases "at_index (user_open_orders user) (market_index m) = None \<or>
                at_index (token_data user) 0 = None")
    case True
    with \<open>0 < N\<close> have "fillOrderBook e user userKp m N w = (Inl TypeError, w)"
      by (simp add: fillOrderBook_split bidLoop_missing)
    with run have "events w' = events w" "r = Inl TypeError" by simp_all
    then show ?thesis by simp
  next
    case False
    then obtain h t where h: "at_index (user_open_orders user) (market_index m) = Some h"
      and t: "at_index (token_data user) 0 = Some t" by auto
    let ?bid = "bidTx e userKp m (open_orders h) (token_account t)"
    let ?ask = "askTx e userKp m (open_orders h) (baseTokenAccount user m) N"
    let ?L = "ladderTx e userKp m (open_orders h) (token_account t) (baseTokenAccount user m) N"
    have L: "?L = map ?bid [0..N - 1] @ map ?ask [0..N - 1]" by (simp add: ladderTx_def)
    obtain r1 w1 where b: "bidLoop e user userKp m N 0 w = (r1, w1)"
      by (cases "bidLoop e user userKp m N 0 w")
    from bidLoop_found [OF h t b] obtain txs1 where
      e1: "events w1 = events w @ map Rpc txs1" and
      p1: "prefix txs1 (map ?bid [0..N - 1])" and
      f1: "r1 = Inr () \<longrightarrow> txs1 = map ?bid [0..N - 1]" by blast
    have "\<exists>txs. events w' = events w @ map Rpc txs \<and> prefix txs ?L \<and> (r = Inr () \<longrightarrow> txs = ?L)"
    proof (cases r1)
      case (Inl err)
      with b run have "r = Inl err" "w' = w1" by (simp_all add: fillOrderBook_split)
      with e1 p1 L have "events w' = events w @ map Rpc txs1 \<and> prefix txs1 ?L \<and>
          (r = Inr () \<longrightarrow> txs1 = ?L)" by (simp add: prefix_prefix)
      then show ?thesis by (rule exI [where x = txs1])
    next
      case (Inr u)
      with b run have a: "askLoop e user userKp m N 0 w1 = (r, w')"
        by (simp add: fillOrderBook_split)
      from askLoop_found [OF h a] obtain txs2 where
        e2: "events w' = events w1 @ map Rpc txs2" and
        p2: "prefix txs2 (map ?ask [0..N - 1])" and
        f2: "r = Inr () \<longrightarrow> txs2 = map ?ask [0..N - 1]" by blast
      from Inr f1 have t1: "txs1 = map ?bid [0..N - 1]" by simp
      with e1 e2 p2 f2 L have "events w' = events w @ map Rpc (txs1 @ txs2) \<and>
          prefix (txs1 @ txs2) ?L \<and> (r = Inr () \<longrightarrow> txs1 @ txs2 = ?L)" by simp
      then show ?thesis by (rule exI [where x = "txs1 @ txs2"])
    qed
    with h t show ?thesis by blast
  qed
qed

lemma placedArgs_ladderTx:
  "map placedArgs (map Rpc (ladderTx e userKp m ooa uta bta N)) = map Some (spec_ladder N)"
  by (simp add: ladderTx_def spec_ladder_def placedArgs_def bidTx_def askTx_def comp_def)

text \<open>
  Claim C4. For every order count \<open>N\<close>, the orders \<^verbatim>\<open>fillOrderBook\<close> submits are, in order,
  an initial part of the ladder of the specification: \<open>N\<close> buy orders, buy order \<open>i\<close> with price
  \<open>1000 - 1 - i\<close>, quantity 10, quote cap 1,000,000 and client id \<open>i\<close>, followed by \<open>N\<close> sell
  orders, sell order \<open>i\<close> with price \<open>1000 + 1 + i\<close>, quantity 10,000, quote cap 1,000,000 and
  client id \<open>i + N + 1\<close>. When the call returns normally the submitted orders are exactly the
  whole ladder, and it does return normally when the ledger accepts every order placement and
  the two lookups in the user's data are defined.
\<close>

theorem fillOrderBook_ladder:
  assumes run: "fillOrderBook e user userKp marketData N w = (r, w')"
  shows "\<exists>evs. events w' = events w @ evs \<and>
           prefix (map placedArgs evs) (map Some (spec_ladder N)) \<and>
           (r = Inr () \<longrightarrow> map placedArgs evs = map Some (spec_ladder N)) \<and>
           ((\<forall>l tx a acc. instruction tx = PlaceOrder a acc \<longrightarrow> rpc e l tx \<noteq> None) \<and>
            at_index (user_open_orders user) (market_index marketData) \<noteq> None \<and>
            at_index (token_data user) 0 \<noteq> None \<longrightarrow> r = Inr ())"
proof -
  have acc: "(\<forall>l tx a acc. instruction tx = PlaceOrder a acc \<longrightarrow> rpc e l tx \<noteq> None) \<and>
            at_index (user_open_orders user) (market_index marketData) \<noteq> None \<and>
            at_index (token_data user) 0 \<noteq> None \<longrightarrow> r = Inr ()"
    using fillOrderBook_accepted [of e user marketData _ _ userKp N w] run by auto
  from fillOrderBook_run [OF run] show ?thesis
  proof
    assume a: "events w' = events w \<and> (r = Inr () \<longrightarrow> N \<le> 0)"
    then have "r = Inr () \<longrightarrow> spec_ladder N = []" by (auto simp: spec_ladder_def)
    with a acc have "events w' = events w @ [] \<and>
           prefix (map placedArgs []) (map Some (spec_ladder N)) \<and>
           (r = Inr () \<longrightarrow> map placedArgs [] = map Some (spec_ladder N)) \<and>
           ((\<forall>l tx a acc. instruction tx = PlaceOrder a acc \<longrightarrow> rpc e l tx \<noteq> None) \<and>
            at_index (user_open_orders user) (market_index marketData) \<noteq> None \<and>
            at_index (token_data user) 0 \<noteq> None \<longrightarrow> r = Inr ())" by simp
    then show ?thesis by (rule exI [where x = "[]"])
  next
    assume "\<exists>h t txs. at_index (user_open_orders user) (market_index marketData) = Some h \<and>
            at_index (token_data user) 0 = Some t \<and>
            events w' = events w @ map Rpc txs \<and>
            prefix txs (ladderTx e userKp marketData (open_orders h) (token_account t)
                          (baseTokenAccount user marketData) N) \<and>
            (r = Inr () \<longrightarrow>
               txs = ladderTx e userKp marketData (open_orders h) (token_account t)
                       (baseTokenAccount user marketData) N)"
    then obtain h t txs where "at_index (user_open_orders user) (market_index marketData) = Some h"
      and "at_index (token_data user) 0 = Some t"
      and ev: "events w' = events w @ map Rpc txs"
      and p: "prefix txs (ladderTx e userKp marketData (open_orders h) (token_account t)
                          (baseTokenAccount user marketData) N)"
      and f: "r = Inr () \<longrightarrow>
               txs = ladderTx e userKp marketData (open_orders h) (token_account t)
                       (baseTokenAccount user marketData) N" by (elim exE conjE) (rule that; assumption)
    from p have "prefix (map placedArgs (map Rpc txs))
        (map placedArgs (map Rpc (ladderTx e userKp marketData (open_orders h) (token_account t)
                          (baseTokenAccount user marketData) N)))"
      by (intro map_mono_prefix)
    then have p': "prefix (map placedArgs (map Rpc txs)) (map Some (spec_ladder N))"
      by (simp only: placedArgs_ladderTx)
    from f have f': "r = Inr () \<longrightarrow> map placedArgs (map Rpc txs) = map Some (spec_ladder N)"
      using placedArgs_ladderTx by metis
    from ev p' f' acc have "events w' = events w @ map Rpc txs \<and>
           prefix (map placedArgs (map Rpc txs)) (map Some (spec_ladder N)) \<and>
           (r = Inr () \<longrightarrow> map placedArgs (map Rpc txs) = map Some (spec_ladder N)) \<and>
           ((\<forall>l tx a acc. instruction tx = PlaceOrder a acc \<longrightarrow> rpc e l tx \<noteq> None) \<and>
            at_index (user_open_orders user) (market_index marketData) \<noteq> None \<and>
            at_index (token_data user) 0 \<noteq> None \<longrightarrow> r = Inr ())" by blast
    then show ?thesis by (rule exI [where x = "map Rpc txs"])
  qed
qed

theorem fillOrderBook_ladder_witness:
  "fst (fillOrderBook mock_env mock_user mock_userKp mock_market 3 mock_world) = Inr () \<and>
   map placedArgs (events (snd (fillOrderBook mock_env mock_user mock_userKp mock_market 3 mock_world)))
     = map Some (spec_ladder 3) \<and>
   map priceLots (spec_ladder 3) = [999, 998, 997, 1001, 1002, 1003] \<and>
   map maxBaseLots (spec_ladder 3) = [10, 10, 10, 10000, 10000, 10000] \<and>
   map clientOrderId (spec_ladder 3) = [0, 1, 2, 4, 5, 6]"
proof -
  obtain r w' where run:
    "fillOrderBook mock_env mock_user mock_userKp mock_market 3 mock_world = (r, w')"
    by (cases "fillOrderBook mock_env mock_user mock_userKp mock_market 3 mock_world")
  have acc: "\<forall>l tx a acc. instruction tx = PlaceOrder a acc \<longrightarrow> rpc mock_env l tx \<noteq> None"
    by (simp add: mock_env_def mock_rpc_def)
  have lk: "at_index (user_open_orders mock_user) (market_index mock_market) \<noteq> None"
    "at_index (token_data mock_user) 0 \<noteq> None"
    by (simp_all add: at_index_def mock_user_def mock_market_def)
  from fillOrderBook_ladder [OF run] acc lk obtain evs where
    "events w' = events mock_world @ evs" "r = Inr ()"
    "map placedArgs evs = map Some (spec_ladder 3)"
    by auto
  moreover have "[0..2] = [0, 1, 2::int]" by (simp add: upto_rec1)
  ultimately show ?thesis using run
    by (simp add: mock_world_def spec_ladder_def spec_buy_order_def spec_sell_order_def)
qed

lemma first_match:
  "(case filter P xs of [] \<Rightarrow> None | x # ys \<Rightarrow> Some (f x)) = map_option f (find P xs)"
  by (induction xs) auto

lemma baseTokenAccount_find:
  "baseTokenAccount user m =
     map_option token_account (find (\<lambda>x. mint x = base_mint m) (token_data user))"
  by (simp add: baseTokenAccount_def first_match)

lemma find_present:
  "\<exists>x\<in>set xs. P x \<Longrightarrow> \<exists>x\<in>set xs. P x \<and> find P xs = Some x"
  by (induction xs) auto

lemma ladderTx_member:
  "tx \<in> set (ladderTx e userKp m ooa uta bta N) \<Longrightarrow>
     (\<exists>i. tx = bidTx e userKp m ooa uta i) \<or> (\<exists>i. tx = askTx e userKp m ooa bta N i)"
  by (auto simp: ladderTx_def)

text \<open>
  Claim C3, as amended. Every sell order \<^verbatim>\<open>fillOrderBook\<close> submits passes, as user token
  account, the account of the first entry of the user's \<open>token_data\<close> whose mint is the very
  key the market holds as base mint (the comparison is \<^verbatim>\<open>===\<close>, which is the equality of
  the key type here), whenever there is such an entry, and nothing (\<^verbatim>\<open>undefined\<close>) when
  there is none; every buy order passes the account of \<open>token_data[0]\<close>, whatever the mint
  of that entry. The quote mint of the market plays no part.
\<close>

theorem fillOrderBook_token_accounts:
  assumes run: "fillOrderBook e user userKp marketData N w = (r, w')"
  shows "\<exists>txs. events w' = events w @ map Rpc txs \<and>
     (\<forall>tx\<in>set txs. \<exists>a acc. instruction tx = PlaceOrder a acc \<and>
        (side a = Bid \<longrightarrow>
           (\<exists>t. at_index (token_data user) 0 = Some t \<and>
                po_userTokenAccount acc = Some (token_account t))) \<and>
        (side a = Ask \<longrightarrow>
           po_userTokenAccount acc =
             map_option token_account
               (find (\<lambda>x. mint x = base_mint marketData) (token_data user)) \<and>
           ((\<exists>x\<in>set (token_data user). mint x = base_mint marketData) \<longrightarrow>
            (\<exists>x\<in>set (token_data user). mint x = base_mint marketData \<and>
               po_userTokenAccount acc = Some (token_account x)))))"
proof -
  let ?P = "\<lambda>tx. \<exists>a acc. instruction tx = PlaceOrder a acc \<and>
        (side a = Bid \<longrightarrow>
           (\<exists>t. at_index (token_data user) 0 = Some t \<and>
                po_userTokenAccount acc = Some (token_account t))) \<and>
        (side a = Ask \<longrightarrow>
           po_userTokenAccount acc =
             map_option token_account
               (find (\<lambda>x. mint x = base_mint marketData) (token_data user)) \<and>
           ((\<exists>x\<in>set (token_data user). mint x = base_mint marketData) \<longrightarrow>
            (\<exists>x\<in>set (token_data user). mint x = base_mint marketData \<and>
               po_userTokenAccount acc = Some (token_account x))))"
  from fillOrderBook_run [OF run] show ?thesis
  proof
    assume "events w' = events w \<and> (r = Inr () \<longrightarrow> N \<le> 0)"
    then have "events w' = events w @ map Rpc [] \<and> (\<forall>tx\<in>set []. ?P tx)" by simp
    then show ?thesis by (rule exI [where x = "[]"])
  next
    assume "\<exists>h t txs. at_index (user_open_orders user) (market_index marketData) = Some h \<and>
            at_index (token_data user) 0 = Some t \<and>
            events w' = events w @ map Rpc txs \<and>
            prefix txs (ladderTx e userKp marketData (open_orders h) (token_account t)
                          (baseTokenAccount user marketData) N) \<and>
            (r = Inr () \<longrightarrow>
               txs = ladderTx e userKp marketData (open_orders h) (token_account t)
                       (baseTokenAccount user marketData) N)"
    then obtain h t txs where h: "at_index (user_open_orders user) (market_index marketData) = Some h"
      and t: "at_index (token_data user) 0 = Some t"
      and ev: "events w' = events w @ map Rpc txs"
      and p: "prefix txs (ladderTx e userKp marketData (open_orders h) (token_account t)
                          (baseTokenAccount user marketData) N)"
      by (elim exE conjE) (rule that; assumption)
    have "?P tx" if "tx \<in> set txs" for tx
    proof -
      from that p have "tx \<in> set (ladderTx e userKp marketData (open_orders h) (token_account t)
                          (baseTokenAccount user marketData) N)"
        using set_mono_prefix by blast
      from ladderTx_member [OF this] show ?thesis
      proof
        assume "\<exists>i. tx = bidTx e userKp marketData (open_orders h) (token_account t) i"
        then obtain i where "tx = bidTx e userKp marketData (open_orders h) (token_account t) i" ..
        with t show ?thesis by (simp add: bidTx_def spec_buy_order_def)
      next
        assume "\<exists>i. tx = askTx e userKp marketData (open_orders h) (baseTokenAccount user marketData) N i"
        then obtain i where
          tx: "tx = askTx e userKp marketData (open_orders h) (baseTokenAccount user marketData) N i" ..
        have "(\<exists>x\<in>set (token_data user). mint x = base_mint marketData) \<longrightarrow>
            (\<exists>x\<in>set (token_data user). mint x = base_mint marketData \<and>
               baseTokenAccount user marketData = Some (token_account x))"
          using find_present [of "token_data user" "\<lambda>x. mint x = base_mint marketData"]
          by (auto simp: baseTokenAccount_find)
        with tx show ?thesis
          by (simp add: askTx_def spec_sell_order_def baseTokenAccount_find)
      qed
    qed
    with ev have "events w' = events w @ map Rpc txs \<and> (\<forall>tx\<in>set txs. ?P tx)" by simp
    then show ?thesis by (rule exI [where x = txs])
  qed
qed

lemma mock_fill_1:
  "fillOrderBook mock_env mock_user mock_userKp mock_market 1 mock_world = (Inr (), mock_filled)"
  by (simp add: mock_filled_def fillOrderBook_split bidLoop.simps askLoop.simps placeBid_def placeAsk_def
      openOrdersAccount_of_def at_index_def andThen_def succeed_def throw_def send_rpc_def
      baseTokenAccount_def bidTx_def askTx_def spec_buy_order_def spec_sell_order_def
      mock_env_def mock_rpc_def mock_user_def mock_market_def mock_world_def mock_userKp_def)

theorem fillOrderBook_token_accounts_witness:
  "(\<exists>x\<in>set (token_data mock_user). mint x = base_mint mock_market) \<and>
   (\<exists>txs. events (snd (fillOrderBook mock_env mock_user mock_userKp mock_market 1 mock_world))
            = map Rpc txs \<and> length txs = 2 \<and>
      (\<forall>tx\<in>set txs. \<exists>a acc. instruction tx = PlaceOrder a acc \<and>
         (side a = Bid \<longrightarrow> po_userTokenAccount acc = Some [33]) \<and>
         (side a = Ask \<longrightarrow> po_userTokenAccount acc = Some [44])))"
proof -
  have td: "at_index (token_data mock_user) 0 = Some \<lparr> mint = [3], token_account = [33] \<rparr>"
    "find (\<lambda>x. mint x = base_mint mock_market) (token_data mock_user)
       = Some \<lparr> mint = [4], token_account = [44] \<rparr>"
    by (simp_all add: at_index_def mock_user_def mock_market_def)
  from fillOrderBook_token_accounts [OF mock_fill_1] obtain txs where
    ev0: "events mock_filled = events mock_world @ map Rpc txs"
    and P: "\<forall>tx\<in>set txs. \<exists>a acc. instruction tx = PlaceOrder a acc \<and>
        (side a = Bid \<longrightarrow>
           (\<exists>t. at_index (token_data mock_user) 0 = Some t \<and>
                po_userTokenAccount acc = Some (token_account t))) \<and>
        (side a = Ask \<longrightarrow>
           po_userTokenAccount acc =
             map_option token_account
               (find (\<lambda>x. mint x = base_mint mock_market) (token_data mock_user)) \<and>
           ((\<exists>x\<in>set (token_data mock_user). mint x = base_mint mock_market) \<longrightarrow>
            (\<exists>x\<in>set (token_data mock_user). mint x = base_mint mock_market \<and>
               po_userTokenAccount acc = Some (token_account x))))"
    by (elim conjE exE) (rule that; assumption)
  from ev0 have ev: "events mock_filled = map Rpc txs" by (simp add: mock_world_def)
  then have "length (events mock_filled) = length txs" by simp
  then have len: "length txs = 2" by (simp add: mock_filled_def)
  have "\<exists>x\<in>set (token_data mock_user). mint x = base_mint mock_market"
    by (simp add: mock_user_def mock_market_def)
  moreover have "\<exists>txs. events (snd (fillOrderBook mock_env mock_user mock_userKp mock_market 1 mock_world))
            = map Rpc txs \<and> length txs = 2 \<and>
      (\<forall>tx\<in>set txs. \<exists>a acc. instruction tx = PlaceOrder a acc \<and>
         (side a = Bid \<longrightarrow> po_userTokenAccount acc = Some [33]) \<and>
         (side a = Ask \<longrightarrow> po_userTokenAccount acc = Some [44]))"
  proof (intro exI [where x = txs] conjI ballI)
    show "events (snd (fillOrderBook mock_env mock_user mock_userKp mock_market 1 mock_world))
            = map Rpc txs" using ev by (simp add: mock_fill_1)
    show "length txs = 2" by (rule len)
    fix tx assume "tx \<in> set txs"
    with P obtain a acc where i: "instruction tx = PlaceOrder a acc"
      and b: "side a = Bid \<longrightarrow>
           (\<exists>t. at_index (token_data mock_user) 0 = Some t \<and>
                po_userTokenAccount acc = Some (token_account t))"
      and a: "side a = Ask \<longrightarrow>
           po_userTokenAccount acc =
             map_option token_account
               (find (\<lambda>x. mint x = base_mint mock_market) (token_data mock_user))"
      by blast
    from b td(1) have "side a = Bid \<longrightarrow> po_userTokenAccount acc = Some [33]" by auto
    moreover from a td(2) have "side a = Ask \<longrightarrow> po_userTokenAccount acc = Some [44]" by simp
    ultimately show "\<exists>a acc. instruction tx = PlaceOrder a acc \<and>
         (side a = Bid \<longrightarrow> po_userTokenAccount acc = Some [33]) \<and>
         (side a = Ask \<longrightarrow> po_userTokenAccount acc = Some [44])" using i by blast
  qed
  ultimately show ?thesis by blast
qed

text \<open>
  The claim as first worded does not hold. For a user whose \<open>token_data\<close> lists the base
  mint's account first, and whose mint keys are other objects than the market's with the
  same addresses, the buy order passes the account of the base mint, not of the quote mint,
  and the sell order passes no account although the user has an entry for the address of
  the base mint.
\<close>

theorem fillOrderBook_token_accounts_counterexample:
  "token_data object_user = [\<lparr> mint = (1, [4]), token_account = (2, [44]) \<rparr>,
                            \<lparr> mint = (3, [3]), token_account = (4, [33]) \<rparr>] \<and>
   toBytes object_env (base_mint object_market) = [4] \<and>
   toBytes object_env (quote_mint object_market) = [3] \<and>
   fillOrderBook object_env object_user object_userKp object_market 1 object_world =
     (Inl TransactionRejected,
      \<lparr> ledger = [],
        events = [Rpc (bidTx object_env object_userKp object_market (11, [77]) (2, [44]) 0),
                  Rpc (askTx object_env object_userKp object_market (11, [77]) None 1 0)] \<rparr>)"
  by (simp add: fillOrderBook_split bidLoop.simps askLoop.simps placeBid_def placeAsk_def
      openOrdersAccount_of_def at_index_def andThen_def succeed_def throw_def send_rpc_def
      baseTokenAccount_def bidTx_def askTx_def spec_buy_order_def spec_sell_order_def
      object_env_def object_user_def object_market_def object_world_def object_userKp_def)

lemma at_index_map: "at_index (map g xs) n = map_option g (at_index xs n)"
  by (auto simp: at_index_def nat_less_iff)

lemma openOrdersAccount_of_market_irrelevant:
  "openOrdersAccount_of
     (user\<lparr>user_open_orders := map (\<lambda>h. h\<lparr>market := f h\<rparr>) (user_open_orders user)\<rparr>) m
   = openOrdersAccount_of user m"
  by (auto simp: openOrdersAccount_of_def at_index_map fun_eq_iff split: option.splits)

lemma placeBid_market_irrelevant:
  "placeBid e (user\<lparr>user_open_orders := map (\<lambda>h. h\<lparr>market := f h\<rparr>) (user_open_orders user)\<rparr>)
     userKp m i = placeBid e user userKp m i"
  by (simp add: placeBid_def openOrdersAccount_of_market_irrelevant)

lemma placeAsk_market_irrelevant:
  "placeAsk e (user\<lparr>user_open_orders := map (\<lambda>h. h\<lparr>market := f h\<rparr>) (user_open_orders user)\<rparr>)
     userKp m N i = placeAsk e user userKp m N i"
  by (simp add: placeAsk_def openOrdersAccount_of_market_irrelevant baseTokenAccount_def)

lemma bidLoop_same_steps:
  "(\<And>j v. placeBid e user2 userKp m j v = placeBid e user userKp m j v) \<Longrightarrow>
   bidLoop e user2 userKp m N i w = bidLoop e user userKp m N i w"
proof (induction e user userKp m N i w rule: bidLoop.induct)
  case (1 e user userKp m N i w)
  show ?case
    by (subst bidLoop.simps, subst (2) bidLoop.simps)
       (auto simp: "1.prems" split: prod.splits sum.splits intro: "1.IH" [OF _ _ _ "1.prems"])
qed

lemma askLoop_same_steps:
  "(\<And>j v. placeAsk e user2 userKp m N j v = placeAsk e user userKp m N j v) \<Longrightarrow>
   askLoop e user2 userKp m N i w = askLoop e user userKp m N i w"
proof (induction e user userKp m N i w rule: askLoop.induct)
  case (1 e user userKp m N i w)
  show ?case
    by (subst askLoop.simps, subst (2) askLoop.simps)
       (auto simp: "1.prems" split: prod.splits sum.splits intro: "1.IH" [OF _ _ _ "1.prems"])
qed

lemma fillOrderBook_market_irrelevant:
  "fillOrderBook e (user\<lparr>user_open_orders := map (\<lambda>h. h\<lparr>market := f h\<rparr>) (user_open_orders user)\<rparr>)
     userKp m N w = fillOrderBook e user userKp m N w"
proof -
  let ?u = "user\<lparr>user_open_orders := map (\<lambda>h. h\<lparr>market := f h\<rparr>) (user_open_orders user)\<rparr>"
  have b: "bidLoop e ?u userKp m N 0 v = bidLoop e user userKp m N 0 v" for v
    by (rule bidLoop_same_steps) (simp add: placeBid_market_irrelevant)
  have a: "askLoop e ?u userKp m N 0 v = askLoop e user userKp m N 0 v" for v
    by (rule askLoop_same_steps) (simp add: placeAsk_market_irrelevant)
  show ?thesis by (simp only: fillOrderBook_split a b)
qed

text \<open>
  Claim C9. Every order \<^verbatim>\<open>fillOrderBook\<close> submits names, as open-orders account, the
  \<open>open_orders\<close> field of the handle at position \<open>market_index\<close> of the user's handle list.
  The \<open>market\<close> field of the handles is never read: replacing it by anything in every handle
  leaves the result and the recorded submissions unchanged.
\<close>

theorem fillOrderBook_open_orders_by_position:
  assumes run: "fillOrderBook e user userKp marketData N w = (r, w')"
  shows "(\<exists>txs. events w' = events w @ map Rpc txs \<and>
           (\<forall>tx\<in>set txs. \<exists>a acc h. instruction tx = PlaceOrder a acc \<and>
              at_index (user_open_orders user) (market_index marketData) = Some h \<and>
              po_openOrdersAccount acc = open_orders h)) \<and>
         fillOrderBook e
           (user\<lparr>user_open_orders := map (\<lambda>h. h\<lparr>market := f h\<rparr>) (user_open_orders user)\<rparr>)
           userKp marketData N w = (r, w')"
proof -
  let ?P = "\<lambda>tx. \<exists>a acc h. instruction tx = PlaceOrder a acc \<and>
              at_index (user_open_orders user) (market_index marketData) = Some h \<and>
              po_openOrdersAccount acc = open_orders h"
  have "\<exists>txs. events w' = events w @ map Rpc txs \<and> (\<forall>tx\<in>set txs. ?P tx)"
    using fillOrderBook_run [OF run]
  proof
    assume "events w' = events w \<and> (r = Inr () \<longrightarrow> N \<le> 0)"
    then have "events w' = events w @ map Rpc [] \<and> (\<forall>tx\<in>set []. ?P tx)" by simp
    then show ?thesis by (rule exI [where x = "[]"])
  next
    assume "\<exists>h t txs. at_index (user_open_orders user) (market_index marketData) = Some h \<and>
            at_index (token_data user) 0 = Some t \<and>
            events w' = events w @ map Rpc txs \<and>
            prefix txs (ladderTx e userKp marketData (open_orders h) (token_account t)
                          (baseTokenAccount user marketData) N) \<and>
            (r = Inr () \<longrightarrow>
               txs = ladderTx e userKp marketData (open_orders h) (token_account t)
                       (baseTokenAccount user marketData) N)"
    then obtain h t txs where h: "at_index (user_open_orders user) (market_index marketData) = Some h"
      and t: "at_index (token_data user) 0 = Some t"
      and ev: "events w' = events w @ map Rpc txs"
      and p: "prefix txs (ladderTx e userKp marketData (open_orders h) (token_account t)
                          (baseTokenAccount user marketData) N)"
      by (elim exE conjE) (rule that; assumption)
    have "?P tx" if "tx \<in> set txs" for tx
    proof -
      from that p have "tx \<in> set (ladderTx e userKp marketData (open_orders h) (token_account t)
                          (baseTokenAccount user marketData) N)"
        using set_mono_prefix by blast
      from ladderTx_member [OF this] h show ?thesis
        by (auto simp: bidTx_def askTx_def)
    qed
    with ev have "events w' = events w @ map Rpc txs \<and> (\<forall>tx\<in>set txs. ?P tx)" by simp
    then show ?thesis by (rule exI [where x = txs])
  qed
  with run show ?thesis by (simp add: fillOrderBook_market_irrelevant)
qed

theorem fillOrderBook_open_orders_by_position_witness:
  "market (user_open_orders mock_user ! nat (market_index mock_market)) \<noteq> market_pk mock_market \<and>
   fst (fillOrderBook mock_env mock_user mock_userKp mock_market 1 mock_world) = Inr () \<and>
   (\<exists>txs. events (snd (fillOrderBook mock_env mock_user mock_userKp mock_market 1 mock_world))
            = map Rpc txs \<and> length txs = 2 \<and>
      (\<forall>tx\<in>set txs. \<exists>a acc. instruction tx = PlaceOrder a acc \<and>
         po_openOrdersAccount acc = [77])) \<and>
   fillOrderBook mock_env
     (mock_user\<lparr>user_open_orders :=
        map (\<lambda>h. h\<lparr>market := market_pk mock_market\<rparr>) (user_open_orders mock_user)\<rparr>)
     mock_userKp mock_market 1 mock_world
   = fillOrderBook mock_env mock_user mock_userKp mock_market 1 mock_world"
proof -
  have h: "at_index (user_open_orders mock_user) (market_index mock_market)
             = Some \<lparr> market = [66], open_orders = [77] \<rparr>"
    by (simp add: at_index_def mock_user_def mock_market_def)
  from fillOrderBook_open_orders_by_position [OF mock_fill_1, of "\<lambda>h. market_pk mock_market"]
  obtain txs where
    ev0: "events mock_filled = events mock_world @ map Rpc txs"
    and P: "\<forall>tx\<in>set txs. \<exists>a acc h. instruction tx = PlaceOrder a acc \<and>
              at_index (user_open_orders mock_user) (market_index mock_market) = Some h \<and>
              po_openOrdersAccount acc = open_orders h"
    and same: "fillOrderBook mock_env
     (mock_user\<lparr>user_open_orders :=
        map (\<lambda>h. h\<lparr>market := market_pk mock_market\<rparr>) (user_open_orders mock_user)\<rparr>)
     mock_userKp mock_market 1 mock_world = (Inr (), mock_filled)"
    by (elim conjE exE) (rule that; assumption)
  from ev0 have ev: "events mock_filled = map Rpc txs" by (simp add: mock_world_def)
  then have "length (events mock_filled) = length txs" by simp
  then have len: "length txs = 2" by (simp add: mock_filled_def)
  have "market (user_open_orders mock_user ! nat (market_index mock_market)) \<noteq> market_pk mock_market"
    by (simp add: mock_user_def mock_market_def)
  moreover have "fst (fillOrderBook mock_env mock_user mock_userKp mock_market 1 mock_world) = Inr ()"
    by (simp add: mock_fill_1)
  moreover have "\<exists>txs. events (snd (fillOrderBook mock_env mock_user mock_userKp mock_market 1 mock_world))
            = map Rpc txs \<and> length txs = 2 \<and>
      (\<forall>tx\<in>set txs. \<exists>a acc. instruction tx = PlaceOrder a acc \<and>
         po_openOrdersAccount acc = [77])"
  proof (intro exI [where x = txs] conjI ballI)
    show "events (snd (fillOrderBook mock_env mock_user mock_userKp mock_market 1 mock_world))
            = map Rpc txs" using ev by (simp add: mock_fill_1)
    show "length txs = 2" by (rule len)
    fix tx assume "tx \<in> set txs"
    with P h show "\<exists>a acc. instruction tx = PlaceOrder a acc \<and> po_openOrdersAccount acc = [77]"
      by fastforce
  qed
  moreover have "fillOrderBook mock_env
     (mock_user\<lparr>user_open_orders :=
        map (\<lambda>h. h\<lparr>market := market_pk mock_market\<rparr>) (user_open_orders mock_user)\<rparr>)
     mock_userKp mock_market 1 mock_world
   = fillOrderBook mock_env mock_user mock_userKp mock_market 1 mock_world"
    using same by (simp add: mock_fill_1)
  ultimately show ?thesis by blast
qed

section \<open>Properties of the registrar\<close>

lemma andThen_Inr:
  "andThen m f w = (Inr y, w') \<Longrightarrow> \<exists>x w1. m w = (Inr x, w1) \<and> f x w1 = (Inr y, w')"
  by (auto simp: andThen_def split: prod.splits sum.splits)

lemma orThrow_Inr: "orThrow err r w = (Inr x, w') \<Longrightarrow> r = Some x \<and> w' = w"
  by (auto simp: orThrow_def throw_def succeed_def split: option.splits)

lemma le_value_BN_toBuffer_le4:
  assumes "BN_toBuffer_le4 (int n) = Some bs"
  shows "length bs = 4 \<and> le_value bs = n"
proof -
  from assms have n: "n < 256 ^ 4"
    and bs: "bs = map (\<lambda>k. of_nat (n div 256 ^ k)) [0..<4]"
    by (auto simp: BN_toBuffer_le4_def Let_def split: if_splits)
  have u: "[0..<4] = [0, 1, 2, 3::nat]" by (simp add: upt_rec)
  have "le_value bs = n mod 256 + 256 * ((n div 256) mod 256 + 256 * ((n div 65536) mod 256
          + 256 * ((n div 16777216) mod 256)))"
    by (simp add: bs u le_value_def unat_of_nat)
  also have "\<dots> = n"
  proof -
    define a where "a = n div 256"
    define b where "b = a div 256"
    define c where "c = b div 256"
    have e2: "n div 65536 = b" unfolding b_def a_def by (simp add: div_mult2_eq)
    have e3: "n div 16777216 = c" unfolding c_def b_def a_def by (simp add: div_mult2_eq)
    define r0 where "r0 = n mod 256"
    define r1 where "r1 = a mod 256"
    define r2 where "r2 = b mod 256"
    have "c < 256" using n unfolding e3 [symmetric] by simp
    then have c: "c mod 256 = c" by simp
    have "b = c * 256 + r2" unfolding c_def r2_def by simp
    moreover have "a = b * 256 + r1" unfolding b_def r1_def by simp
    moreover have "n = a * 256 + r0" unfolding a_def r0_def by simp
    ultimately have "r0 + 256 * (r1 + 256 * (r2 + 256 * c)) = n" by simp
    then show ?thesis unfolding e2 e3 a_def [symmetric] c r0_def r1_def r2_def .
  qed
  finally show ?thesis by (simp add: bs)
qed

lemma andThen_InrE:
  assumes "andThen m f w = (Inr y, w')"
  obtains x w1 where "m w = (Inr x, w1)" and "f x w1 = (Inr y, w')"
  using assms by (auto simp: andThen_def split: prod.splits sum.splits)

lemma createOpenOrders_alt:
  "createOpenOrders e this user markets ix i =
     andThen (orThrow BufferLengthError (BN_toBuffer_le4 (int i + 1))) (\<lambda>indexBytes.
     andThen (orThrow ProgramAddressError
                (findProgramAddressSync e
                   [Buffer_from ''OpenOrders'', toBytes e (publicKey user), indexBytes]
                   (openbookProgramId this))) (\<lambda>(openOrders, tmp).
     andThen (send_rpc e (openOrdersTx e this user ix (market_pk (markets ! i)) openOrders)) (\<lambda>_.
     succeed \<lparr> market = market_pk (markets ! i), open_orders = openOrders \<rparr>)))"
  by (simp add: createOpenOrders_def openOrdersTx_def Let_def)

lemma createOpenOrders_Inr:
  assumes "createOpenOrders e this user markets ix i w = (Inr oo, w')"
  shows "\<exists>bs bump. length bs = 4 \<and> le_value bs = i + 1 \<and>
           findProgramAddressSync e [Buffer_from ''OpenOrders'', toBytes e (publicKey user), bs]
             (openbookProgramId this) = Some (open_orders oo, bump) \<and>
           market oo = market_pk (markets ! i) \<and>
           events w' = events w @
             [Rpc (openOrdersTx e this user ix (market_pk (markets ! i)) (open_orders oo))] \<and>
           rpc e (ledger w) (openOrdersTx e this user ix (market_pk (markets ! i)) (open_orders oo))
             = Some (ledger w')"
proof -
  from assms [unfolded createOpenOrders_alt] obtain bs w1 where
    b: "orThrow BufferLengthError (BN_toBuffer_le4 (int i + 1)) w = (Inr bs, w1)"
    and r1: "andThen (orThrow ProgramAddressError
                    (findProgramAddressSync e
                       [Buffer_from ''OpenOrders'', toBytes e (publicKey user), bs]
                       (openbookProgramId this))) (\<lambda>(openOrders, tmp).
         andThen (send_rpc e (openOrdersTx e this user ix (market_pk (markets ! i)) openOrders)) (\<lambda>_.
         succeed \<lparr> market = market_pk (markets ! i), open_orders = openOrders \<rparr>)) w1 = (Inr oo, w')"
    by (rule andThen_InrE)
  from orThrow_Inr [OF b] have bs: "BN_toBuffer_le4 (int (i + 1)) = Some bs" and w1: "w1 = w"
    by (simp_all add: add.commute)
  from r1 obtain p w2 where
    p: "orThrow ProgramAddressError
                    (findProgramAddressSync e
                       [Buffer_from ''OpenOrders'', toBytes e (publicKey user), bs]
                       (openbookProgramId this)) w1 = (Inr p, w2)"
    and r2: "(case p of (openOrders, tmp) \<Rightarrow>
         andThen (send_rpc e (openOrdersTx e this user ix (market_pk (markets ! i)) openOrders)) (\<lambda>_.
         succeed \<lparr> market = market_pk (markets ! i), open_orders = openOrders \<rparr>)) w2 = (Inr oo, w')"
    by (rule andThen_InrE)
  obtain a bump where pa: "p = (a, bump)" by (cases p)
  from orThrow_Inr [OF p] pa w1 have pda: "findProgramAddressSync e
       [Buffer_from ''OpenOrders'', toBytes e (publicKey user), bs] (openbookProgramId this)
         = Some (a, bump)" and w2: "w2 = w" by simp_all
  from r2 pa w2 have r3: "andThen (send_rpc e (openOrdersTx e this user ix (market_pk (markets ! i)) a)) (\<lambda>_.
         succeed \<lparr> market = market_pk (markets ! i), open_orders = a \<rparr>) w = (Inr oo, w')" by simp
  from r3 obtain u w3 where
    s: "send_rpc e (openOrdersTx e this user ix (market_pk (markets ! i)) a) w = (Inr u, w3)"
    and fin: "succeed \<lparr> market = market_pk (markets ! i), open_orders = a \<rparr> w3 = (Inr oo, w')"
    by (rule andThen_InrE)
  from fin have oo: "oo = \<lparr> market = market_pk (markets ! i), open_orders = a \<rparr>" and w3: "w3 = w'"
    by (simp_all add: succeed_def)
  from send_rpc_result [OF s] w3 have
    "events w' = events w @ [Rpc (openOrdersTx e this user ix (market_pk (markets ! i)) a)]"
    "rpc e (ledger w) (openOrdersTx e this user ix (market_pk (markets ! i)) a) = Some (ledger w')"
    by auto
  with le_value_BN_toBuffer_le4 [OF bs] pda oo show ?thesis
    by (intro exI [where x = bs] exI [where x = bump]) simp
qed

text \<open>Whatever the outcome, a step of the loop records at most one submission.\<close>

lemma send_rpc_events: "events (snd (send_rpc e tx w)) = events w @ [Rpc tx]"
  by (simp add: send_rpc_def Let_def split: option.splits)

lemma createOpenOrders_events:
  assumes "createOpenOrders e this user markets ix i w = (r, w')"
  shows "events w' = events w \<or> (\<exists>tx. events w' = events w @ [Rpc tx])"
proof (cases "BN_toBuffer_le4 (int i + 1)")
  case None
  with assms show ?thesis
    by (simp add: createOpenOrders_alt andThen_def orThrow_def throw_def)
next
  case (Some bs)
  show ?thesis
  proof (cases "findProgramAddressSync e
                   [Buffer_from ''OpenOrders'', toBytes e (publicKey user), bs]
                   (openbookProgramId this)")
    case None
    with Some assms show ?thesis
      by (simp add: createOpenOrders_alt andThen_def orThrow_def throw_def succeed_def)
  next
    case (Some p)
    obtain a bump where p: "p = (a, bump)" by (cases p)
    let ?tx = "openOrdersTx e this user ix (market_pk (markets ! i)) a"
    from assms \<open>BN_toBuffer_le4 (int i + 1) = Some bs\<close> Some p
    have "w' = snd (send_rpc e ?tx w)"
      by (auto simp: createOpenOrders_alt andThen_def orThrow_def succeed_def
          split: prod.splits sum.splits)
    then have "events w' = events w @ [Rpc ?tx]" by (simp add: send_rpc_events)
    then show ?thesis by (intro disjI2 exI [where x = ?tx])
  qed
qed

lemma openOrdersLoop_done:
  "\<not> i < length markets \<Longrightarrow> openOrdersLoop e this user markets ix i acc w = (Inr acc, w)"
  by (simp add: openOrdersLoop.simps)

lemma openOrdersLoop_step:
  "i < length markets \<Longrightarrow>
   openOrdersLoop e this user markets ix i acc w =
     (case createOpenOrders e this user markets ix i w of
        (Inl err, w1) \<Rightarrow> (Inl err, w1)
      | (Inr oo, w1) \<Rightarrow> openOrdersLoop e this user markets ix (i + 1) (acc @ [oo]) w1)"
  by (subst openOrdersLoop.simps) simp

lemma openOrdersLoop_Inr:
  "openOrdersLoop e this user markets ix i acc w = (Inr hs, w') \<Longrightarrow>
     \<exists>hts. hs = acc @ map fst hts \<and> events w' = events w @ map (Rpc \<circ> snd) hts \<and>
       list_all2 (registered e this user ix markets) [i..<length markets] hts"
proof (induction e this user markets ix i acc w arbitrary: hs w' rule: openOrdersLoop.induct)
  case (1 e this user markets ix i acc w)
  show ?case
  proof (cases "i < length markets")
    case False
    with "1.prems" have "hs = acc" "w' = w" by (simp_all add: openOrdersLoop_done)
    with False have "hs = acc @ map fst [] \<and> events w' = events w @ map (Rpc \<circ> snd) [] \<and>
       list_all2 (registered e this user ix markets) [i..<length markets] []" by simp
    then show ?thesis by (rule exI [where x = "[]"])
  next
    case True
    obtain r1 w1 where st: "createOpenOrders e this user markets ix i w = (r1, w1)"
      by (cases "createOpenOrders e this user markets ix i w")
    with True "1.prems" obtain oo where r1: "r1 = Inr oo"
      and rest: "openOrdersLoop e this user markets ix (i + 1) (acc @ [oo]) w1 = (Inr hs, w')"
      by (cases r1) (simp_all add: openOrdersLoop_step)
    let ?tx = "openOrdersTx e this user ix (market_pk (markets ! i)) (open_orders oo)"
    from createOpenOrders_Inr [OF st [unfolded r1]]
    have reg: "registered e this user ix markets i (oo, ?tx)"
      and ev1: "events w1 = events w @ [Rpc ?tx]"
      by (auto simp: registered_def)
    from "1.IH" [OF True st [symmetric] r1 rest] obtain hts where
      hs: "hs = (acc @ [oo]) @ map fst hts"
      and ev: "events w' = events w1 @ map (Rpc \<circ> snd) hts"
      and all: "list_all2 (registered e this user ix markets) [i + 1..<length markets] hts"
      by (elim exE conjE)
    from True have up: "[i..<length markets] = i # [i + 1..<length markets]"
      by (simp add: upt_conv_Cons)
    from hs ev ev1 all reg up
    have "hs = acc @ map fst ((oo, ?tx) # hts) \<and>
          events w' = events w @ map (Rpc \<circ> snd) ((oo, ?tx) # hts) \<and>
          list_all2 (registered e this user ix markets) [i..<length markets] ((oo, ?tx) # hts)"
      by simp
    then show ?thesis by (rule exI [where x = "(oo, ?tx) # hts"])
  qed
qed

lemma openOrdersLoop_events:
  "openOrdersLoop e this user markets ix i acc w = (r, w') \<Longrightarrow>
     \<exists>txs. events w' = events w @ map Rpc txs"
proof (induction e this user markets ix i acc w arbitrary: r w' rule: openOrdersLoop.induct)
  case (1 e this user markets ix i acc w)
  show ?case
  proof (cases "i < length markets")
    case False
    with "1.prems" have "events w' = events w @ map Rpc []"
      by (simp add: openOrdersLoop_done)
    then show ?thesis by (rule exI [where x = "[]"])
  next
    case True
    obtain r1 w1 where st: "createOpenOrders e this user markets ix i w = (r1, w1)"
      by (cases "createOpenOrders e this user markets ix i w")
    from createOpenOrders_events [OF st] obtain txs1 where
      ev1: "events w1 = events w @ map Rpc txs1"
    proof
      assume "events w1 = events w"
      then have "events w1 = events w @ map Rpc []" by simp
      then show ?thesis by (rule that)
    next
      assume "\<exists>tx. events w1 = events w @ [Rpc tx]"
      then obtain tx where "events w1 = events w @ [Rpc tx]" ..
      then have "events w1 = events w @ map Rpc [tx]" by simp
      then show ?thesis by (rule that)
    qed
    show ?thesis
    proof (cases r1)
      case (Inl err)
      with st True "1.prems" have "w' = w1" by (simp add: openOrdersLoop_step)
      with ev1 show ?thesis by (intro exI [where x = txs1]) simp
    next
      case (Inr oo)
      with st True "1.prems"
      have rest: "openOrdersLoop e this user markets ix (i + 1) (acc @ [oo]) w1 = (r, w')"
        by (simp add: openOrdersLoop_step)
      from "1.IH" [OF True st [symmetric] Inr rest] obtain txs where
        "events w' = events w1 @ map Rpc txs" ..
      with ev1 have "events w' = events w @ map Rpc (txs1 @ txs)" by simp
      then show ?thesis by (rule exI [where x = "txs1 @ txs"])
    qed
  qed
qed

lemma openOrdersLoop_keeps_accounts:
  "\<forall>l l' tx a. rpc e l tx = Some l' \<and> getAccountInfo e l a \<noteq> None
       \<longrightarrow> getAccountInfo e l' a \<noteq> None \<Longrightarrow>
   openOrdersLoop e this user markets ix i acc w = (Inr hs, w') \<Longrightarrow>
   getAccountInfo e (ledger w) a \<noteq> None \<Longrightarrow> getAccountInfo e (ledger w') a \<noteq> None"
proof (induction e this user markets ix i acc w arbitrary: hs w' rule: openOrdersLoop.induct)
  case (1 e this user markets ix i acc w)
  show ?case
  proof (cases "i < length markets")
    case False
    with "1.prems" show ?thesis by (simp add: openOrdersLoop_done)
  next
    case True
    obtain r1 w1 where st: "createOpenOrders e this user markets ix i w = (r1, w1)"
      by (cases "createOpenOrders e this user markets ix i w")
    with True "1.prems"(2) obtain oo where r1: "r1 = Inr oo"
      and rest: "openOrdersLoop e this user markets ix (i + 1) (acc @ [oo]) w1 = (Inr hs, w')"
      by (cases r1) (simp_all add: openOrdersLoop_step)
    from createOpenOrders_Inr [OF st [unfolded r1]]
    have "\<exists>tx. rpc e (ledger w) tx = Some (ledger w1)" by blast
    with "1.prems"(1,3) have "getAccountInfo e (ledger w1) a \<noteq> None" by blast
    with "1.IH" [OF True st [symmetric] r1 "1.prems"(1) rest] show ?thesis .
  qed
qed

lemma createOpenOrders_accepted:
  assumes acc: "\<forall>l tx s a. instruction tx = CreateOpenOrdersAccount s a \<longrightarrow> rpc e l tx \<noteq> None"
    and pda: "\<forall>seeds. findProgramAddressSync e seeds (openbookProgramId this) \<noteq> None"
    and len: "length markets < 2 ^ 32" and i: "i < length markets"
  shows "\<exists>oo. fst (createOpenOrders e this user markets ix i w) = Inr oo"
proof -
  from len i have "nat \<bar>int i + 1\<bar> < 256 ^ 4" by simp
  then obtain bs where bs: "BN_toBuffer_le4 (int i + 1) = Some bs"
    by (simp add: BN_toBuffer_le4_def Let_def)
  from pda obtain a bump where p: "findProgramAddressSync e
      [Buffer_from ''OpenOrders'', toBytes e (publicKey user), bs] (openbookProgramId this)
        = Some (a, bump)" by fastforce
  let ?tx = "openOrdersTx e this user ix (market_pk (markets ! i)) a"
  from acc have "rpc e (ledger w) ?tx \<noteq> None" by (simp add: openOrdersTx_def)
  then have "fst (send_rpc e ?tx w) = Inr ()" by (rule send_rpc_accepted)
  with bs p show ?thesis
    by (cases "send_rpc e ?tx w")
       (simp add: createOpenOrders_alt andThen_def orThrow_def succeed_def)
qed

lemma openOrdersLoop_accepted:
  "\<forall>l tx s a. instruction tx = CreateOpenOrdersAccount s a \<longrightarrow> rpc e l tx \<noteq> None \<Longrightarrow>
   \<forall>seeds. findProgramAddressSync e seeds (openbookProgramId this) \<noteq> None \<Longrightarrow>
   length markets < 2 ^ 32 \<Longrightarrow>
   \<exists>hs. fst (openOrdersLoop e this user markets ix i acc w) = Inr hs"
proof (induction e this user markets ix i acc w rule: openOrdersLoop.induct)
  case (1 e this user markets ix i acc w)
  show ?case
  proof (cases "i < length markets")
    case False
    then show ?thesis by (simp add: openOrdersLoop_done)
  next
    case True
    from createOpenOrders_accepted [OF "1.prems" True, of user ix w] obtain oo w1 where
      st: "createOpenOrders e this user markets ix i w = (Inr oo, w1)"
      by (cases "createOpenOrders e this user markets ix i w") auto
    from "1.IH" [OF True st [symmetric] refl "1.prems"] st True show ?thesis
      by (simp add: openOrdersLoop_step)
  qed
qed

lemma configureMarketForUser_alt:
  "configureMarketForUser e this user markets =
     andThen (orThrow ProgramAddressError
                (findProgramAddressSync e
                   [Buffer_from ''OpenOrdersIndexer'', toBytes e (publicKey user)]
                   (openbookProgramId this))) (\<lambda>(openOrdersIndexer, tmp1).
     andThen (send_rpc e (indexerTx e this user openOrdersIndexer)) (\<lambda>_.
     openOrdersLoop e this user markets openOrdersIndexer 0 []))"
  by (simp add: configureMarketForUser_def indexerTx_def)

lemma configureMarketForUser_no_address:
  "findProgramAddressSync e [Buffer_from ''OpenOrdersIndexer'', toBytes e (publicKey user)]
     (openbookProgramId this) = None \<Longrightarrow>
   configureMarketForUser e this user markets w = (Inl ProgramAddressError, w)"
  by (simp add: configureMarketForUser_alt andThen_def orThrow_def throw_def)

lemma configureMarketForUser_address:
  "findProgramAddressSync e [Buffer_from ''OpenOrdersIndexer'', toBytes e (publicKey user)]
     (openbookProgramId this) = Some (ix, bump) \<Longrightarrow>
   configureMarketForUser e this user markets w =
     (case send_rpc e (indexerTx e this user ix) w of
        (Inl err, w1) \<Rightarrow> (Inl err, w1)
      | (Inr u, w1) \<Rightarrow> openOrdersLoop e this user markets ix 0 [] w1)"
  by (simp add: configureMarketForUser_alt andThen_def orThrow_def succeed_def)

lemma configureMarketForUser_Inr:
  assumes "configureMarketForUser e this user markets w = (Inr hs, w')"
  shows "\<exists>ix bump w1 hts.
     findProgramAddressSync e [Buffer_from ''OpenOrdersIndexer'', toBytes e (publicKey user)]
       (openbookProgramId this) = Some (ix, bump) \<and>
     rpc e (ledger w) (indexerTx e this user ix) = Some (ledger w1) \<and>
     events w1 = events w @ [Rpc (indexerTx e this user ix)] \<and>
     openOrdersLoop e this user markets ix 0 [] w1 = (Inr hs, w') \<and>
     hs = map fst hts \<and> events w' = events w1 @ map (Rpc \<circ> snd) hts \<and>
     list_all2 (registered e this user ix markets) [0..<length markets] hts"
proof (cases "findProgramAddressSync e
    [Buffer_from ''OpenOrdersIndexer'', toBytes e (publicKey user)] (openbookProgramId this)")
  case None
  from configureMarketForUser_no_address [OF None] assms show ?thesis by simp
next
  case (Some p)
  obtain ix bump where p: "p = (ix, bump)" by (cases p)
  obtain r1 w1 where s: "send_rpc e (indexerTx e this user ix) w = (r1, w1)"
    by (cases "send_rpc e (indexerTx e this user ix) w")
  from assms s configureMarketForUser_address [OF Some [unfolded p]]
  have r1: "r1 = Inr ()" and loop: "openOrdersLoop e this user markets ix 0 [] w1 = (Inr hs, w')"
    by (cases r1; simp)+
  from send_rpc_result [OF s] r1
  have a: "rpc e (ledger w) (indexerTx e this user ix) = Some (ledger w1)"
    and ev1: "events w1 = events w @ [Rpc (indexerTx e this user ix)]" by auto
  from openOrdersLoop_Inr [OF loop] obtain hts where
    "hs = [] @ map fst hts" "events w' = events w1 @ map (Rpc \<circ> snd) hts"
    "list_all2 (registered e this user ix markets) [0..<length markets] hts"
    by (elim exE conjE)
  with Some p a ev1 loop show ?thesis
    by (intro exI [where x = ix] exI [where x = bump] exI [where x = w1] exI [where x = hts]) simp
qed

lemma configureMarketForUser_accepted:
  assumes acc: "\<forall>l tx s a. instruction tx = CreateOpenOrdersAccount s a \<longrightarrow> rpc e l tx \<noteq> None"
    and ixacc: "\<forall>tx a. instruction tx = CreateOpenOrdersIndexer a \<longrightarrow> rpc e (ledger w) tx \<noteq> None"
    and pda: "\<forall>seeds. findProgramAddressSync e seeds (openbookProgramId this) \<noteq> None"
    and len: "length markets < 2 ^ 32"
  shows "\<exists>hs w'. configureMarketForUser e this user markets w = (Inr hs, w')"
proof -
  from pda obtain ix bump where p: "findProgramAddressSync e
      [Buffer_from ''OpenOrdersIndexer'', toBytes e (publicKey user)] (openbookProgramId this)
        = Some (ix, bump)" by fastforce
  from ixacc have "rpc e (ledger w) (indexerTx e this user ix) \<noteq> None"
    by (simp add: indexerTx_def)
  then have "fst (send_rpc e (indexerTx e this user ix) w) = Inr ()" by (rule send_rpc_accepted)
  then obtain w1 where s: "send_rpc e (indexerTx e this user ix) w = (Inr (), w1)"
    by (cases "send_rpc e (indexerTx e this user ix) w") simp
  from openOrdersLoop_accepted [OF acc pda len, of user ix 0 "[]" w1] obtain hs w' where
    "openOrdersLoop e this user markets ix 0 [] w1 = (Inr hs, w')"
    by (cases "openOrdersLoop e this user markets ix 0 [] w1") auto
  with s configureMarketForUser_address [OF p, of markets w] show ?thesis by simp
qed

lemma configureMarketForUser_result:
  assumes run: "configureMarketForUser e this user markets w = (Inr hs, w')"
  shows "length hs = length markets \<and>
      (\<forall>i<length markets.
         market (hs ! i) = market_pk (markets ! i) \<and>
         (\<exists>bs bump. length bs = 4 \<and> le_value bs = i + 1 \<and>
            findProgramAddressSync e
              [Buffer_from ''OpenOrders'', toBytes e (publicKey user), bs]
              (openbookProgramId this) = Some (open_orders (hs ! i), bump))) \<and>
      (\<exists>ix txs. events w' = events w @ Rpc (indexerTx e this user ix) # map Rpc txs \<and>
         length txs = length markets \<and>
         (\<forall>i<length markets. \<exists>acc.
            instruction (txs ! i) = CreateOpenOrdersAccount ''test simulator'' acc \<and>
            coa_delegateAccount acc = None \<and> coa_market acc = market_pk (markets ! i) \<and>
            coa_openOrdersAccount acc = open_orders (hs ! i) \<and>
            coa_openOrdersIndexer acc = ix))"
proof -
  from configureMarketForUser_Inr [OF run] obtain ix bump w1 hts where
    "findProgramAddressSync e [Buffer_from ''OpenOrdersIndexer'', toBytes e (publicKey user)]
       (openbookProgramId this) = Some (ix, bump)"
    and "rpc e (ledger w) (indexerTx e this user ix) = Some (ledger w1)"
    and ev1: "events w1 = events w @ [Rpc (indexerTx e this user ix)]"
    and "openOrdersLoop e this user markets ix 0 [] w1 = (Inr hs, w')"
    and hs: "hs = map fst hts"
    and ev: "events w' = events w1 @ map (Rpc \<circ> snd) hts"
    and all: "list_all2 (registered e this user ix markets) [0..<length markets] hts"
    by (elim exE conjE)
  from all have len: "length hts = length markets"
    and reg: "\<And>i. i < length markets \<Longrightarrow> registered e this user ix markets i (hts ! i)"
    by (auto simp: list_all2_conv_all_nth)
  have h: "hs ! i = fst (hts ! i)" if "i < length markets" for i
    using that len hs by simp
  have 1: "length hs = length markets" using hs len by simp
  have 2: "\<forall>i<length markets.
         market (hs ! i) = market_pk (markets ! i) \<and>
         (\<exists>bs bump. length bs = 4 \<and> le_value bs = i + 1 \<and>
            findProgramAddressSync e
              [Buffer_from ''OpenOrders'', toBytes e (publicKey user), bs]
              (openbookProgramId this) = Some (open_orders (hs ! i), bump))"
    using reg h by (simp add: registered_def)
  have 3: "events w' = events w @ Rpc (indexerTx e this user ix) # map Rpc (map snd hts) \<and>
         length (map snd hts) = length markets \<and>
         (\<forall>i<length markets. \<exists>acc.
            instruction (map snd hts ! i) = CreateOpenOrdersAccount ''test simulator'' acc \<and>
            coa_delegateAccount acc = None \<and> coa_market acc = market_pk (markets ! i) \<and>
            coa_openOrdersAccount acc = open_orders (hs ! i) \<and>
            coa_openOrdersIndexer acc = ix)"
  proof (intro conjI allI impI)
    show "events w' = events w @ Rpc (indexerTx e this user ix) # map Rpc (map snd hts)"
      using ev ev1 by simp
    show "length (map snd hts) = length markets" using len by simp
    fix i assume i: "i < length markets"
    from reg [OF i] h [OF i] i len
    have "instruction (map snd hts ! i) = CreateOpenOrdersAccount ''test simulator''
            \<lparr> coa_openOrdersIndexer = ix,
              coa_openOrdersAccount = open_orders (hs ! i),
              coa_market = market_pk (markets ! i),
              coa_owner = publicKey user,
              coa_delegateAccount = None,
              coa_payer = publicKey (keypair (anchorProvider this)),
              coa_systemProgram = SystemProgram_programId e \<rparr>"
      by (simp add: registered_def openOrdersTx_def)
    then show "\<exists>acc.
            instruction (map snd hts ! i) = CreateOpenOrdersAccount ''test simulator'' acc \<and>
            coa_delegateAccount acc = None \<and> coa_market acc = market_pk (markets ! i) \<and>
            coa_openOrdersAccount acc = open_orders (hs ! i) \<and>
            coa_openOrdersIndexer acc = ix"
      by simp
  qed
  from 3 have "\<exists>ix txs. events w' = events w @ Rpc (indexerTx e this user ix) # map Rpc txs \<and>
         length txs = length markets \<and>
         (\<forall>i<length markets. \<exists>acc.
            instruction (txs ! i) = CreateOpenOrdersAccount ''test simulator'' acc \<and>
            coa_delegateAccount acc = None \<and> coa_market acc = market_pk (markets ! i) \<and>
            coa_openOrdersAccount acc = open_orders (hs ! i) \<and>
            coa_openOrdersIndexer acc = ix)"
    by (intro exI [where x = ix] exI [where x = "map snd hts"])
  with 1 2 show ?thesis by (intro conjI)
qed

text \<open>
  Claim C6. For every user and every list of \<open>M\<close> markets, a call of
  \<^verbatim>\<open>configureMarketForUser\<close> that returns yields \<open>M\<close> handles; the \<open>i\<close>-th handle carries the
  address of the \<open>i\<close>-th market, and its order-tracking address is the one derived from the
  seeds \<open>"OpenOrders"\<close>, the user's public key and \<open>i + 1\<close> in four little-endian bytes. The
  call submits, after the indexer creation, one creation instruction per market, in order,
  each with the label \<open>"test simulator"\<close> and no delegate. The call does return when the
  addresses can be derived, the ledger accepts the submissions and \<open>M < 2^32\<close>.
\<close>

theorem configureMarketForUser_handles:
  "(\<forall>hs w'. configureMarketForUser e this user markets w = (Inr hs, w') \<longrightarrow>
      length hs = length markets \<and>
      (\<forall>i<length markets.
         market (hs ! i) = market_pk (markets ! i) \<and>
         (\<exists>bs bump. length bs = 4 \<and> le_value bs = i + 1 \<and>
            findProgramAddressSync e
              [Buffer_from ''OpenOrders'', toBytes e (publicKey user), bs]
              (openbookProgramId this) = Some (open_orders (hs ! i), bump))) \<and>
      (\<exists>ix txs. events w' = events w @ Rpc (indexerTx e this user ix) # map Rpc txs \<and>
         length txs = length markets \<and>
         (\<forall>i<length markets. \<exists>acc.
            instruction (txs ! i) = CreateOpenOrdersAccount ''test simulator'' acc \<and>
            coa_delegateAccount acc = None \<and> coa_market acc = market_pk (markets ! i) \<and>
            coa_openOrdersAccount acc = open_orders (hs ! i) \<and>
            coa_openOrdersIndexer acc = ix))) \<and>
   ((\<forall>l tx s a. instruction tx = CreateOpenOrdersAccount s a \<longrightarrow> rpc e l tx \<noteq> None) \<and>
    (\<forall>tx a. instruction tx = CreateOpenOrdersIndexer a \<longrightarrow> rpc e (ledger w) tx \<noteq> None) \<and>
    (\<forall>seeds. findProgramAddressSync e seeds (openbookProgramId this) \<noteq> None) \<and>
    length markets < 2 ^ 32 \<longrightarrow>
    (\<exists>hs w'. configureMarketForUser e this user markets w = (Inr hs, w')))"
proof (rule conjI)
  show "\<forall>hs w'. configureMarketForUser e this user markets w = (Inr hs, w') \<longrightarrow>
      length hs = length markets \<and>
      (\<forall>i<length markets.
         market (hs ! i) = market_pk (markets ! i) \<and>
         (\<exists>bs bump. length bs = 4 \<and> le_value bs = i + 1 \<and>
            findProgramAddressSync e
              [Buffer_from ''OpenOrders'', toBytes e (publicKey user), bs]
              (openbookProgramId this) = Some (open_orders (hs ! i), bump))) \<and>
      (\<exists>ix txs. events w' = events w @ Rpc (indexerTx e this user ix) # map Rpc txs \<and>
         length txs = length markets \<and>
         (\<forall>i<length markets. \<exists>acc.
            instruction (txs ! i) = CreateOpenOrdersAccount ''test simulator'' acc \<and>
            coa_delegateAccount acc = None \<and> coa_market acc = market_pk (markets ! i) \<and>
            coa_openOrdersAccount acc = open_orders (hs ! i) \<and>
            coa_openOrdersIndexer acc = ix))"
    by (intro allI impI) (rule configureMarketForUser_result)
  show "(\<forall>l tx s a. instruction tx = CreateOpenOrdersAccount s a \<longrightarrow> rpc e l tx \<noteq> None) \<and>
    (\<forall>tx a. instruction tx = CreateOpenOrdersIndexer a \<longrightarrow> rpc e (ledger w) tx \<noteq> None) \<and>
    (\<forall>seeds. findProgramAddressSync e seeds (openbookProgramId this) \<noteq> None) \<and>
    length markets < 2 ^ 32 \<longrightarrow>
    (\<exists>hs w'. configureMarketForUser e this user markets w = (Inr hs, w'))"
    by (intro impI, elim conjE) (rule configureMarketForUser_accepted)
qed

theorem configureMarketForUser_handles_witness:
  "\<exists>hs w'. configureMarketForUser mock_env mock_this mock_userKp [mock_market, mock_market2]
              mock_world = (Inr hs, w') \<and>
     length hs = 2 \<and> map market hs = [[5], [8]] \<and>
     (\<exists>bs. length bs = 4 \<and> le_value bs = 1 \<and>
        open_orders (hs ! 0) = Buffer_from ''OpenOrders'' @ [2] @ bs @ [9]) \<and>
     (\<exists>bs. length bs = 4 \<and> le_value bs = 2 \<and>
        open_orders (hs ! 1) = Buffer_from ''OpenOrders'' @ [2] @ bs @ [9])"
proof -
  let ?ms = "[mock_market, mock_market2]"
  note inst = configureMarketForUser_handles [of mock_env mock_this mock_userKp ?ms mock_world]
  have hyp: "(\<forall>l tx s a. instruction tx = CreateOpenOrdersAccount s a \<longrightarrow> rpc mock_env l tx \<noteq> None) \<and>
    (\<forall>tx a. instruction tx = CreateOpenOrdersIndexer a \<longrightarrow> rpc mock_env (ledger mock_world) tx \<noteq> None) \<and>
    (\<forall>seeds. findProgramAddressSync mock_env seeds (openbookProgramId mock_this) \<noteq> None) \<and>
    length ?ms < 2 ^ 32"
    by (simp add: mock_env_def mock_rpc_def mock_world_def)
  with inst obtain hs w' where
    run: "configureMarketForUser mock_env mock_this mock_userKp ?ms mock_world = (Inr hs, w')"
    by blast
  with inst have len: "length hs = length ?ms"
    and each: "\<forall>i<length ?ms.
         market (hs ! i) = market_pk (?ms ! i) \<and>
         (\<exists>bs bump. length bs = 4 \<and> le_value bs = i + 1 \<and>
            findProgramAddressSync mock_env
              [Buffer_from ''OpenOrders'', toBytes mock_env (publicKey mock_userKp), bs]
              (openbookProgramId mock_this) = Some (open_orders (hs ! i), bump))"
    by blast+
  from len have l2: "length hs = 2" by simp
  from each have m0: "market (hs ! 0) = [5]" and m1: "market (hs ! 1) = [8]"
    by (simp_all add: mock_market_def mock_market2_def)
  from l2 have "hs = [hs ! 0, hs ! 1]"
    by (cases hs; cases "tl hs") auto
  then have "map market hs = [market (hs ! 0), market (hs ! 1)]"
    by (metis list.simps(8,9))
  with m0 m1 have ms: "map market hs = [[5], [8]]" by simp
  from each have "\<exists>bs bump. length bs = 4 \<and> le_value bs = 0 + 1 \<and>
            findProgramAddressSync mock_env
              [Buffer_from ''OpenOrders'', toBytes mock_env (publicKey mock_userKp), bs]
              (openbookProgramId mock_this) = Some (open_orders (hs ! 0), bump)"
    by simp
  then have a0: "\<exists>bs. length bs = 4 \<and> le_value bs = 1 \<and>
        open_orders (hs ! 0) = Buffer_from ''OpenOrders'' @ [2] @ bs @ [9]"
    by (auto simp: mock_env_def mock_userKp_def mock_this_def)
  from each have "\<exists>bs bump. length bs = 4 \<and> le_value bs = 1 + 1 \<and>
            findProgramAddressSync mock_env
              [Buffer_from ''OpenOrders'', toBytes mock_env (publicKey mock_userKp), bs]
              (openbookProgramId mock_this) = Some (open_orders (hs ! 1), bump)"
    by simp
  then have a1: "\<exists>bs. length bs = 4 \<and> le_value bs = 2 \<and>
        open_orders (hs ! 1) = Buffer_from ''OpenOrders'' @ [2] @ bs @ [9]"
    by (auto simp: mock_env_def mock_userKp_def mock_this_def)
  show ?thesis by (intro exI [where x = hs] exI [where x = w'] conjI run l2 ms a0 a1)
qed

text \<open>
  Claim C7. \<^verbatim>\<open>configureMarketForUser\<close> submits the create-indexer instruction first and
  unconditionally: once the indexer address is derived, the first thing the call records is
  that submission, and the call never queries the ledger. On a ledger that keeps its accounts
  and rejects the re-initialisation of an indexer, a call for a user made after a successful
  call for the same user fails with the rejection of that instruction.
\<close>

theorem configureMarketForUser_twice_fails:
  "(\<forall>r w'. configureMarketForUser e this user markets w = (r, w') \<longrightarrow>
      (findProgramAddressSync e [Buffer_from ''OpenOrdersIndexer'', toBytes e (publicKey user)]
         (openbookProgramId this) = None \<and> events w' = events w \<and> r = Inl ProgramAddressError) \<or>
      (\<exists>ix bump txs.
         findProgramAddressSync e [Buffer_from ''OpenOrdersIndexer'', toBytes e (publicKey user)]
           (openbookProgramId this) = Some (ix, bump) \<and>
         events w' = events w @ Rpc (indexerTx e this user ix) # map Rpc txs)) \<and>
   ((\<forall>l l' tx a. rpc e l tx = Some l' \<and> instruction tx = CreateOpenOrdersIndexer a
        \<longrightarrow> getAccountInfo e l' (coi_openOrdersIndexer a) \<noteq> None) \<and>
    (\<forall>l l' tx a. rpc e l tx = Some l' \<and> getAccountInfo e l a \<noteq> None
        \<longrightarrow> getAccountInfo e l' a \<noteq> None) \<and>
    (\<forall>l tx a. instruction tx = CreateOpenOrdersIndexer a \<and>
        getAccountInfo e l (coi_openOrdersIndexer a) \<noteq> None \<longrightarrow> rpc e l tx = None) \<longrightarrow>
    (\<forall>hs w1. configureMarketForUser e this user markets w = (Inr hs, w1) \<longrightarrow>
       (\<forall>markets2. \<exists>ix w2.
          configureMarketForUser e this user markets2 w1 = (Inl TransactionRejected, w2) \<and>
          events w2 = events w1 @ [Rpc (indexerTx e this user ix)])))"
proof (intro conjI allI impI)
  fix r w'
  assume run: "configureMarketForUser e this user markets w = (r, w')"
  show "(findProgramAddressSync e [Buffer_from ''OpenOrdersIndexer'', toBytes e (publicKey user)]
         (openbookProgramId this) = None \<and> events w' = events w \<and> r = Inl ProgramAddressError) \<or>
      (\<exists>ix bump txs.
         findProgramAddressSync e [Buffer_from ''OpenOrdersIndexer'', toBytes e (publicKey user)]
           (openbookProgramId this) = Some (ix, bump) \<and>
         events w' = events w @ Rpc (indexerTx e this user ix) # map Rpc txs)"
  proof (cases "findProgramAddressSync e
      [Buffer_from ''OpenOrdersIndexer'', toBytes e (publicKey user)] (openbookProgramId this)")
    case None
    from configureMarketForUser_no_address [OF None] run None show ?thesis by simp
  next
    case (Some p)
    obtain ix bump where p: "p = (ix, bump)" by (cases p)
    obtain r1 w1 where s: "send_rpc e (indexerTx e this user ix) w = (r1, w1)"
      by (cases "send_rpc e (indexerTx e this user ix) w")
    from send_rpc_result [OF s] have ev1: "events w1 = events w @ [Rpc (indexerTx e this user ix)]"
      by simp
    have "\<exists>txs. events w' = events w1 @ map Rpc txs"
    proof (cases r1)
      case (Inl err)
      with run s configureMarketForUser_address [OF Some [unfolded p], of markets w]
      have "events w' = events w1 @ map Rpc []" by simp
      then show ?thesis by (rule exI [where x = "[]"])
    next
      case (Inr u)
      with run s configureMarketForUser_address [OF Some [unfolded p], of markets w]
      have "openOrdersLoop e this user markets ix 0 [] w1 = (r, w')" by simp
      then show ?thesis by (rule openOrdersLoop_events)
    qed
    then obtain txs where "events w' = events w1 @ map Rpc txs" ..
    with ev1 have "events w' = events w @ Rpc (indexerTx e this user ix) # map Rpc txs" by simp
    with Some p show ?thesis
      by (intro disjI2 exI [where x = ix] exI [where x = bump] exI [where x = txs]) simp
  qed
next
  fix hs w1 markets2
  assume led: "(\<forall>l l' tx a. rpc e l tx = Some l' \<and> instruction tx = CreateOpenOrdersIndexer a
        \<longrightarrow> getAccountInfo e l' (coi_openOrdersIndexer a) \<noteq> None) \<and>
    (\<forall>l l' tx a. rpc e l tx = Some l' \<and> getAccountInfo e l a \<noteq> None
        \<longrightarrow> getAccountInfo e l' a \<noteq> None) \<and>
    (\<forall>l tx a. instruction tx = CreateOpenOrdersIndexer a \<and>
        getAccountInfo e l (coi_openOrdersIndexer a) \<noteq> None \<longrightarrow> rpc e l tx = None)"
    and run: "configureMarketForUser e this user markets w = (Inr hs, w1)"
  from led have created: "\<And>l l' tx a. rpc e l tx = Some l' \<Longrightarrow>
        instruction tx = CreateOpenOrdersIndexer a \<Longrightarrow>
        getAccountInfo e l' (coi_openOrdersIndexer a) \<noteq> None"
    and keeps: "\<forall>l l' tx a. rpc e l tx = Some l' \<and> getAccountInfo e l a \<noteq> None
        \<longrightarrow> getAccountInfo e l' a \<noteq> None"
    and rejects: "\<And>l tx a. instruction tx = CreateOpenOrdersIndexer a \<Longrightarrow>
        getAccountInfo e l (coi_openOrdersIndexer a) \<noteq> None \<Longrightarrow> rpc e l tx = None"
    by blast+
  from configureMarketForUser_Inr [OF run] obtain ix bump w0 hts where
    p: "findProgramAddressSync e [Buffer_from ''OpenOrdersIndexer'', toBytes e (publicKey user)]
       (openbookProgramId this) = Some (ix, bump)"
    and a: "rpc e (ledger w) (indexerTx e this user ix) = Some (ledger w0)"
    and "events w0 = events w @ [Rpc (indexerTx e this user ix)]"
    and loop: "openOrdersLoop e this user markets ix 0 [] w0 = (Inr hs, w1)"
    and "hs = map fst hts"
    and "events w1 = events w0 @ map (Rpc \<circ> snd) hts"
    and "list_all2 (registered e this user ix markets) [0..<length markets] hts"
    by (elim exE conjE)
  have i: "instruction (indexerTx e this user ix) = CreateOpenOrdersIndexer
      \<lparr> coi_openOrdersIndexer = ix, coi_owner = publicKey user,
        coi_payer = publicKey (keypair (anchorProvider this)),
        coi_systemProgram = SystemProgram_programId e \<rparr>"
    by (simp add: indexerTx_def)
  from created [OF a i] have "getAccountInfo e (ledger w0) ix \<noteq> None" by simp
  from openOrdersLoop_keeps_accounts [OF keeps loop this]
  have "getAccountInfo e (ledger w1) ix \<noteq> None" .
  with rejects [OF i, of "ledger w1"] have rej: "rpc e (ledger w1) (indexerTx e this user ix) = None"
    by simp
  obtain r2 w2 where s: "send_rpc e (indexerTx e this user ix) w1 = (r2, w2)"
    by (cases "send_rpc e (indexerTx e this user ix) w1")
  from send_rpc_result [OF s] rej have "r2 = Inl TransactionRejected"
    "events w2 = events w1 @ [Rpc (indexerTx e this user ix)]" by auto
  with s configureMarketForUser_address [OF p, of markets2 w1]
  have "configureMarketForUser e this user markets2 w1 = (Inl TransactionRejected, w2) \<and>
          events w2 = events w1 @ [Rpc (indexerTx e this user ix)]" by simp
  then show "\<exists>ix w2.
          configureMarketForUser e this user markets2 w1 = (Inl TransactionRejected, w2) \<and>
          events w2 = events w1 @ [Rpc (indexerTx e this user ix)]"
    by (intro exI [where x = ix] exI [where x = w2])
qed

lemma mock_ledger_rejects_reinitialisation:
  "(\<forall>l l' tx a. rpc mock_env l tx = Some l' \<and> instruction tx = CreateOpenOrdersIndexer a
        \<longrightarrow> getAccountInfo mock_env l' (coi_openOrdersIndexer a) \<noteq> None) \<and>
    (\<forall>l l' tx a. rpc mock_env l tx = Some l' \<and> getAccountInfo mock_env l a \<noteq> None
        \<longrightarrow> getAccountInfo mock_env l' a \<noteq> None) \<and>
    (\<forall>l tx a. instruction tx = CreateOpenOrdersIndexer a \<and>
        getAccountInfo mock_env l (coi_openOrdersIndexer a) \<noteq> None \<longrightarrow> rpc mock_env l tx = None)"
  by (auto simp: mock_env_def mock_rpc_def split: instruction.splits if_splits)

theorem configureMarketForUser_twice_fails_witness:
  "\<exists>hs w1 w2.
     configureMarketForUser mock_env mock_this mock_userKp [mock_market] mock_world = (Inr hs, w1) \<and>
     configureMarketForUser mock_env mock_this mock_userKp [mock_market] w1
       = (Inl TransactionRejected, w2) \<and>
     (\<exists>tx. events w2 = events w1 @ [Rpc tx])"
proof -
  have "\<exists>hs w'. configureMarketForUser mock_env mock_this mock_userKp [mock_market] mock_world
          = (Inr hs, w')"
    by (rule configureMarketForUser_accepted)
       (simp_all add: mock_env_def mock_rpc_def mock_world_def)
  then obtain hs w1 where run:
    "configureMarketForUser mock_env mock_this mock_userKp [mock_market] mock_world = (Inr hs, w1)"
    by (elim exE)
  note T = configureMarketForUser_twice_fails
         [of mock_env mock_this mock_userKp "[mock_market]" mock_world]
  note A = mp [OF conjunct2 [OF T] mock_ledger_rejects_reinitialisation]
  note B = A [THEN spec, THEN spec, THEN mp, OF run]
  from B [THEN spec, of "[mock_market]"] obtain ix w2 where
    "configureMarketForUser mock_env mock_this mock_userKp [mock_market] w1
       = (Inl TransactionRejected, w2)"
    "events w2 = events w1 @ [Rpc (indexerTx mock_env mock_this mock_userKp ix)]"
    by (elim exE conjE)
  with run show ?thesis
    by (intro exI [where x = hs] exI [where x = w1] exI [where x = w2] conjI
          exI [where x = "indexerTx mock_env mock_this mock_userKp ix"])
qed

section \<open>Properties of the numbers\<close>

lemma expo_bounds:
  assumes "0 < x"
  shows "2 powi expo x \<le> x \<and> x < 2 powi (expo x + 1)"
proof (cases "1 \<le> x")
  case True
  define n where "n = nat \<lfloor>x\<rfloor>"
  define k where "k = floorlog 2 n"
  from True have n1: "1 \<le> n" and nx: "real n \<le> x" "x < real n + 1"
    unfolding n_def by (simp_all add: le_nat_floor)
  from floorlog_bounds [of n 2] n1 have b: "2 ^ (k - 1) \<le> n" "n < 2 ^ k"
    unfolding k_def by simp_all
  from b(2) n1 have k1: "1 \<le> k" by (cases k) simp_all
  from True have e: "expo x = int k - 1" by (simp add: expo_def k_def n_def)
  from k1 have e': "expo x = int (k - 1)" "expo x + 1 = int k" unfolding e by simp_all
  have "real (2 ^ (k - 1)) \<le> real n" using b(1) by (rule of_nat_mono)
  then have "(2::real) ^ (k - 1) \<le> real n" by simp
  with nx(1) have lo: "(2::real) ^ (k - 1) \<le> x" by linarith
  from b(2) have "Suc n \<le> 2 ^ k" by simp
  then have "real (Suc n) \<le> real (2 ^ k)" by (rule of_nat_mono)
  then have "real n + 1 \<le> 2 ^ k" by simp
  with nx(2) have hi: "x < 2 ^ k" by (rule less_le_trans)
  have p1: "(2::real) powi expo x = 2 ^ (k - 1)" by (simp only: e'(1) power_int_of_nat)
  have p2: "(2::real) powi (expo x + 1) = 2 ^ k" by (simp only: e'(2) power_int_of_nat)
  from lo hi show ?thesis by (simp only: p1 p2 simp_thms)
next
  case False
  define y where "y = 1 / x"
  define n where "n = nat (\<lceil>y\<rceil> - 1)"
  define k where "k = floorlog 2 n"
  from False assms have y1: "1 < y" unfolding y_def by simp
  then have c2: "2 \<le> \<lceil>y\<rceil>" by linarith
  then have c1: "0 \<le> \<lceil>y\<rceil> - 1" "1 \<le> \<lceil>y\<rceil> - 1" by linarith+
  have nc: "int n = \<lceil>y\<rceil> - 1" using c1(1) by (simp only: n_def int_nat_eq if_True)
  with c1(2) have "1 \<le> int n" by linarith
  then have n1: "1 \<le> n" by linarith
  have ny: "real n < y" "y \<le> real n + 1"
  proof -
    have "real n = of_int (\<lceil>y\<rceil> - 1)" using nc by (metis of_int_of_nat_eq)
    then show "real n < y" "y \<le> real n + 1" by (simp_all; linarith)+
  qed
  from floorlog_bounds [of n 2] n1 have b: "2 ^ (k - 1) \<le> n" "n < 2 ^ k"
    unfolding k_def by simp_all
  from b(2) n1 have k1: "1 \<le> k" by (cases k) simp_all
  from False have e: "expo x = - int k" by (simp add: expo_def k_def n_def y_def)
  have x: "x = inverse y" unfolding y_def by (simp add: inverse_eq_divide)
  have ypos: "0 < y" using y1 by simp
  from b(2) have "Suc n \<le> 2 ^ k" by simp
  then have "real (Suc n) \<le> real (2 ^ k)" by (rule of_nat_mono)
  then have "real n + 1 \<le> 2 ^ k" by simp
  with ny(2) have "y \<le> 2 ^ k" by (rule order_trans)
  then have "inverse ((2::real) ^ k) \<le> inverse y" using ypos by (rule le_imp_inverse_le)
  moreover have "(2::real) powi (- int k) = inverse (2 ^ k)"
    by (simp only: power_int_minus power_int_of_nat)
  ultimately have lo: "2 powi (- int k) \<le> x" unfolding x by (simp only:)
  have "real (2 ^ (k - 1)) \<le> real n" using b(1) by (rule of_nat_mono)
  then have "(2::real) ^ (k - 1) \<le> real n" by simp
  then have "2 ^ (k - 1) < y" using ny(1) by (rule le_less_trans)
  then have "inverse y < inverse ((2::real) ^ (k - 1))"
    by (rule less_imp_inverse_less) simp
  moreover have "- int k + 1 = - int (k - 1)" using k1 by simp
  then have "(2::real) powi (- int k + 1) = inverse (2 ^ (k - 1))"
    by (simp only: power_int_minus power_int_of_nat)
  ultimately have hi: "x < 2 powi (- int k + 1)" unfolding x by (simp only:)
  from lo hi show ?thesis unfolding e by (rule conjI)
qed

lemma expo_less: "0 < x \<Longrightarrow> x < 2 powi b \<Longrightarrow> expo x < b"
proof (rule ccontr)
  assume x: "0 < x" "x < 2 powi b" and "\<not> expo x < b"
  then have "(2::real) powi b \<le> 2 powi expo x" by (intro power_int_increasing) simp_all
  with expo_bounds [OF x(1)] x(2) show False by simp
qed

lemma expo_ge: "0 < x \<Longrightarrow> 2 powi a \<le> x \<Longrightarrow> a \<le> expo x"
proof (rule ccontr)
  assume x: "0 < x" "2 powi a \<le> x" and "\<not> a \<le> expo x"
  then have "(2::real) powi (expo x + 1) \<le> 2 powi a" by (intro power_int_increasing) simp_all
  with expo_bounds [OF x(1)] x(2) show False by simp
qed


lemma round_half_even_of_int: "round_half_even (of_int k) = k"
  by (simp add: round_half_even_def)



lemma round_to_double_pos:
  "0 < x \<Longrightarrow> round_to_double x = of_int (round_half_even (x / ulp x)) * ulp x"
  by (simp add: round_to_double_def)

lemma fl_small: "\<bar>round_to_double x\<bar> < 2 ^ 1024 \<Longrightarrow> fl x = Some (round_to_double x)"
  by (simp add: fl_def Let_def)

lemma fl_zero: "fl 0 = Some 0"
  by (simp add: fl_def round_to_double_def)


text \<open>Integers below \<open>2^53\<close> are binary64 values.\<close>

lemma fl_of_int:
  assumes k: "0 < k" "k < 2 ^ 53"
  shows "fl (of_int k) = Some (of_int k)"
proof -
  let ?x = "of_int k :: real"
  have x: "0 < ?x" using k by simp
  have "(2::real) powi 0 \<le> ?x" using k by simp
  with x have e0: "0 \<le> expo ?x" by (rule expo_ge)
  have "?x < of_int (2 ^ 53)" using k(2) by (simp only: of_int_less_iff)
  then have "?x < 2 powi 53" by simp
  with x have e53: "expo ?x < 53" by (rule expo_less)
  define d where "d = nat (52 - expo ?x)"
  have "max (expo ?x) (- 1022) - 52 = - int d" using e0 e53 by (simp add: d_def)
  then have u: "ulp ?x = inverse (2 ^ d)"
    by (simp only: ulp_def power_int_minus power_int_of_nat)
  have "?x / ulp ?x = of_int (k * 2 ^ d)" by (simp add: u divide_inverse)
  then have n: "round_half_even (?x / ulp ?x) = k * 2 ^ d"
    by (simp only: round_half_even_of_int)
  have "round_to_double ?x = of_int (round_half_even (?x / ulp ?x)) * ulp ?x"
    using x by (rule round_to_double_pos)
  also have "\<dots> = of_int (k * 2 ^ d) * ulp ?x" by (simp only: n)
  also have "\<dots> = of_int (k * 2 ^ d) * inverse (2 ^ d)" by (simp only: u)
  also have "\<dots> = ?x" by simp
  finally have r: "round_to_double ?x = ?x" .
  have "\<bar>?x\<bar> < of_int (2 ^ 53)" using k by simp
  also have "\<dots> < 2 ^ 1024" by simp
  finally have "\<bar>round_to_double ?x\<bar> < 2 ^ 1024" by (simp only: r)
  from fl_small [OF this] show ?thesis by (simp only: r)
qed


lemma is_double_zero: "is_double 0"
  by (simp add: is_double_def fl_zero)


lemma below_ten: "d < 10 \<Longrightarrow> d \<in> {0, 1, 2, 3, 4, 5, 6, 7, 8, 9::nat}"
  by auto

lemma digit_of_digit_char: "d < 10 \<Longrightarrow> digit_of (digit_char d) = Some d"
  by (drule below_ten) (auto simp: digit_char_def digit_of_def)

lemma isDigit_digit_char: "d < 10 \<Longrightarrow> isDigit (digit_char d)"
  by (simp add: isDigit_def digit_of_digit_char)

lemma not_isDigit_point: "\<not> isDigit CHR ''.''"
  by (simp add: isDigit_def digit_of_def)

lemma not_isDigit_minus: "\<not> isDigit CHR ''-''"
  by (simp add: isDigit_def digit_of_def)

lemma isDigit_zero: "isDigit CHR ''0''" "digit_of CHR ''0'' = Some 0"
  by (simp_all add: isDigit_def digit_of_def)

lemma digits_isDigit: "c \<in> set (digits n) \<Longrightarrow> isDigit c"
proof (induction n arbitrary: c rule: digits.induct)
  case (1 n)
  show ?case
  proof (cases "n < 10")
    case True
    with "1.prems" show ?thesis by (simp add: digits.simps [of n] isDigit_digit_char)
  next
    case False
    with "1.prems" have "c \<in> set (digits (n div 10)) \<or> c = digit_char (n mod 10)"
      by (auto simp: digits.simps [of n])
    then show ?thesis
    proof
      assume a: "c \<in> set (digits (n div 10))"
      from False a show ?thesis by (rule "1.IH")
    next
      assume "c = digit_char (n mod 10)"
      then show ?thesis by (simp add: isDigit_digit_char)
    qed
  qed
qed

lemma digits_nonempty: "digits n \<noteq> []"
  by (subst digits.simps) simp

lemma digits_value_snoc:
  "digits_value (xs @ [c]) =
     10 * digits_value xs + (case digit_of c of Some d \<Rightarrow> d | None \<Rightarrow> 0)"
  by (simp add: digits_value_def)

lemma digits_value_digits: "digits_value (digits n) = n"
proof (induction n rule: digits.induct)
  case (1 n)
  show ?case
  proof (cases "n < 10")
    case True
    then show ?thesis
      by (simp add: digits.simps [of n] digits_value_def digit_of_digit_char)
  next
    case False
    then have "digits n = digits (n div 10) @ [digit_char (n mod 10)]"
      by (simp add: digits.simps [of n])
    then have "digits_value (digits n) = 10 * digits_value (digits (n div 10)) + n mod 10"
      by (simp add: digits_value_snoc digit_of_digit_char)
    also have "\<dots> = 10 * (n div 10) + n mod 10" using "1.IH" [OF False] by simp
    also have "\<dots> = n" by simp
    finally show ?thesis .
  qed
qed

lemma digits_times_10: "0 < n \<Longrightarrow> digits (10 * n) = digits n @ ''0''"
  by (subst digits.simps) (simp add: digit_char_def)

lemma digits_times_100: "0 < n \<Longrightarrow> digits (100 * n) = digits n @ ''00''"
proof -
  assume n: "0 < n"
  have "digits (100 * n) = digits (10 * (10 * n))" by (simp add: mult.assoc [symmetric])
  also have "\<dots> = digits (10 * n) @ ''0''" using n by (intro digits_times_10) simp
  also have "\<dots> = digits n @ ''00''" using n by (simp add: digits_times_10)
  finally show ?thesis .
qed

text \<open>\<^verbatim>\<open>toFixed(2)\<close> of a positive integer appends \<open>".00"\<close> to its decimal digits.\<close>

lemma toFixed2_of_int:
  assumes k: "0 < k" "k < 10 ^ 21"
  shows "toFixed2 (of_int k) = Some (digits (nat k) @ ''.00'')"
proof -
  have "\<lfloor>\<bar>of_int k :: real\<bar> * 100 + 1 / 2\<rfloor> = k * 100"
    using k(1) by (simp add: floor_unique)
  then have n: "nat \<lfloor>\<bar>of_int k :: real\<bar> * 100 + 1 / 2\<rfloor> = 100 * nat k"
    using k(1) by (simp add: nat_mult_distrib)
  have d: "digits (100 * nat k) = digits (nat k) @ ''00''"
    using k(1) by (intro digits_times_100) simp
  have len: "3 \<le> length (digits (nat k) @ ''00'')"
    using digits_nonempty [of "nat k"] by (cases "digits (nat k)") simp_all
  have small: "\<bar>of_int k :: real\<bar> < 10 ^ 21"
  proof -
    have "(of_int k :: real) < of_int (10 ^ 21)" using k(2) by (simp only: of_int_less_iff)
    with k(1) show ?thesis by simp
  qed
  have pos: "\<not> (of_int k :: real) < 0" using k(1) by simp
  show ?thesis
    unfolding toFixed2_def Let_def n d using small pos len by simp
qed

text \<open>\<^verbatim>\<open>parseFloat\<close> reads such a string back as the same integer.\<close>

lemma parseFloat_fixed:
  assumes k: "0 < k" "k < 2 ^ 53"
  shows "parseFloat (digits (nat k) @ ''.00'') = Some (of_int k)"
proof -
  let ?ds = "digits (nat k)"
  let ?s = "?ds @ ''.00''"
  obtain c cs where ds: "?ds = c # cs" using digits_nonempty [of "nat k"] by (cases ?ds) auto
  then have "isDigit c" using digits_isDigit [of c "nat k"] by simp
  with not_isDigit_minus have c: "c \<noteq> CHR ''-''" by auto
  have neg: "(case ?s of c # x \<Rightarrow> c = CHR ''-'' | [] \<Rightarrow> False) = False"
    using c by (simp add: ds)
  have ip: "takeWhile isDigit ?s = ?ds"
    using digits_isDigit [of _ "nat k"] by (simp add: takeWhile_append2 not_isDigit_point)
  have r1: "dropWhile isDigit ?s = ''.00''"
    using digits_isDigit [of _ "nat k"] by (simp add: dropWhile_append2 not_isDigit_point)
  have fp: "takeWhile isDigit ''00'' = ''00''" "dropWhile isDigit ''00'' = []"
    by (simp_all add: isDigit_zero)
  have v: "digits_value ''00'' = 0" by (simp add: digits_value_def isDigit_zero)
  have "real (digits_value ?ds) = of_int k" using k(1) by (simp add: digits_value_digits)
  then have val: "real (digits_value ?ds) + real (digits_value ''00'') / 10 ^ length ''00''
           = of_int k" by (simp add: v)
  have "parseFloat ?s = fl (real (digits_value ?ds) + real (digits_value ''00'') / 10 ^ length ''00'')"
    by (simp add: parseFloat_def Let_def neg ip r1 fp isDigit_zero option.map_ident
        digits_nonempty)
  also have "\<dots> = Some (of_int k)" unfolding val using k by (rule fl_of_int)
  finally show ?thesis .
qed

section \<open>Properties of the market factory\<close>

lemma orThrow_InrE:
  assumes "orThrow err r w = (Inr x, w')"
  obtains "r = Some x" and "w' = w"
  using assms by (auto simp: orThrow_def throw_def succeed_def split: option.splits)

lemma case_prod_actionE:
  assumes "(case x of (a, b) \<Rightarrow> f a b) w = z"
  obtains a b where "x = (a, b)" and "f a b w = z"
  using assms by (cases x) simp

lemma if_actionE:
  assumes "(if c then a else b) w = z"
  obtains "c" and "a w = z" | "\<not> c" and "b w = z"
  using assms by (cases c) simp_all

lemma succeed_InrE:
  assumes "succeed x w = (Inr y, w')"
  obtains "y = x" and "w' = w"
  using assms by (simp add: succeed_def)

lemma send_rpc_InrE:
  assumes "send_rpc e tx w = (Inr u, w')"
  obtains "rpc e (ledger w) tx = Some (ledger w')" and "events w' = events w @ [Rpc tx]"
  using send_rpc_result [OF assms] by auto

lemma connection_getAccountInfo_InrE:
  assumes "connection_getAccountInfo e a w = (Inr r, w')"
  obtains "getAccountInfo e (ledger w) a = r" and "ledger w' = ledger w"
    and "events w' = events w @ [GetAccountInfo a r]"
  using assms by (auto simp: connection_getAccountInfo_def Let_def)

lemma getAccountSize_InrE:
  assumes "perform e (getAccountSize e nm) w = (Inr sz, w')"
  obtains "w' = w"
  using assms by (auto simp: getAccountSize_def throw_def succeed_def split: list.splits)

lemma await_createAccount_InrE:
  assumes "await_createAccount e payer sz owner w = (Inr a, w')"
  obtains "createAccount e (ledger w) payer sz owner = Some (a, ledger w')"
    and "events w' = events w @ [CreateAccount payer sz owner]"
  using assms by (auto simp: await_createAccount_def Let_def split: option.splits)

lemma andThen_assoc:
  "andThen (andThen m f) g = andThen m (\<lambda>x. andThen (f x) g)"
  by (rule ext) (simp add: andThen_def split: prod.splits sum.splits)

lemma andThen_succeed: "andThen m succeed = m"
  by (rule ext) (simp add: andThen_def succeed_def split: prod.splits sum.splits)

lemma succeed_andThen: "andThen (succeed x) f = f x"
  by (rule ext) (simp add: andThen_def succeed_def)

lemma throw_andThen: "andThen (throw err) f = throw err"
  by (rule ext) (simp add: andThen_def throw_def)

text \<open>A call awaited on its own performs its statements one after the other.\<close>

lemma perform_thenDo:
  "perform e (thenDo p f) = andThen (perform e p) (\<lambda>x. perform e (f x))"
  by (induction p) (simp_all add: succeed_andThen throw_andThen andThen_assoc)

lemma perform_case_prod:
  "perform e (case p of (a, b) \<Rightarrow> f a b) = (case p of (a, b) \<Rightarrow> perform e (f a b))"
  by (cases p) simp

lemma perform_if:
  "perform e (if c then p else q) = (if c then perform e p else perform e q)"
  by simp

lemma perform_orRaise: "perform e (orRaise err r) = orThrow err r"
  by (cases r) (simp_all add: orRaise_def orThrow_def)

lemma perform_getAccountInfo:
  "perform e (Await_getAccountInfo a Return) = connection_getAccountInfo e a"
  by (simp add: andThen_succeed)

lemma perform_rpc: "perform e (Await_rpc tx (Return ())) = send_rpc e tx"
proof -
  have "(\<lambda>u::unit. succeed () :: (unit, 'a, 'b) action) = succeed" by (rule ext) simp
  then show ?thesis by (simp add: andThen_succeed)
qed

lemma perform_createAccount:
  "perform e (Await_createAccount payer sz owner Return) = await_createAccount e payer sz owner"
  by (simp add: andThen_succeed)

text \<open>One request of a process is the first request of the call awaited on its own.\<close>

lemma perform_step:
  "perform e p w = (case step e p w of (p', w') \<Rightarrow> perform e p' w')"
  by (cases p)
     (auto simp: andThen_def throw_def succeed_def split: prod.splits sum.splits)

text \<open>Every step of a call of the market factory that returns.\<close>

lemma createMarket_steps:
  fixes w w' :: "('pk, 'l) world"
  assumes "perform e (createMarket e provider adminKp0 programId baseMint quoteMint index random
                marketPk) w = (Inr m, w')"
  shows "\<exists>oa b1 ob b2 p ra wA uA wA' rb wB uB wB' (w3 :: ('pk, 'l) world)
            (w4 :: ('pk, 'l) world) s1 a1 (w5 :: ('pk, 'l) world) s2 a2 (w6 :: ('pk, 'l) world)
            s3 a3 (w7 :: ('pk, 'l) world) auth b3 bv qv nm ea b4.
     findProgramAddressSync e
       [Buffer_from ''StubOracle'', toBytes e (publicKey (keypair provider)), toBytes e baseMint]
       programId = Some (oa, b1) \<and>
     findProgramAddressSync e
       [Buffer_from ''StubOracle'', toBytes e (publicKey (keypair provider)), toBytes e quoteMint]
       programId = Some (ob, b2) \<and>
     Option.bind (getRandomInt random 1000) (\<lambda>g. Option.bind (toFixed2 g) parseFloat) = Some p \<and>
     getAccountInfo e (ledger w) oa = ra \<and>
     events wA = events w @ [GetAccountInfo oa ra] \<and>
     ledger wA = ledger w \<and>
     (if ra = None then send_rpc e (oracleCreateTx e (keypair provider) oa baseMint)
      else succeed ()) wA = (Inr uA, wA') \<and>
     getAccountInfo e (ledger wA') ob = rb \<and>
     events wB = events wA' @ [GetAccountInfo ob rb] \<and>
     ledger wB = ledger wA' \<and>
     (if rb = None then send_rpc e (oracleCreateTx e (keypair provider) ob quoteMint)
      else succeed ()) wB = (Inr uB, wB') \<and>
     events w3 = events wB' @ [Rpc (oracleSetTx e (keypair provider) oa p)] \<and>
     rpc e (ledger wB') (oracleSetTx e (keypair provider) oa p) = Some (ledger w3) \<and>
     events w4 = events w3 @ [Rpc (oracleSetTx e (keypair provider) ob p)] \<and>
     rpc e (ledger w3) (oracleSetTx e (keypair provider) ob p) = Some (ledger w4) \<and>
     events w5 = events w4 @ [CreateAccount (keypair provider) s1 programId] \<and>
     createAccount e (ledger w4) (keypair provider) s1 programId = Some (a1, ledger w5) \<and>
     events w6 = events w5 @ [CreateAccount (keypair provider) s2 programId] \<and>
     createAccount e (ledger w5) (keypair provider) s2 programId = Some (a2, ledger w6) \<and>
     events w7 = events w6 @ [CreateAccount (keypair provider) s3 programId] \<and>
     createAccount e (ledger w6) (keypair provider) s3 programId = Some (a3, ledger w7) \<and>
     findProgramAddressSync e [Buffer_from ''Market'', toBytes e (publicKey marketPk)] programId
       = Some (auth, b3) \<and>
     getAssociatedTokenAddressSync e baseMint auth True = Some bv \<and>
     getAssociatedTokenAddressSync e quoteMint auth True = Some qv \<and>
     number_toString index = Some nm \<and>
     findProgramAddressSync e [Buffer_from ''__event_authority''] programId = Some (ea, b4) \<and>
     events w' = events w7 @
       [Rpc (marketTx e (keypair provider) programId marketPk (''index '' @ nm @ '' wrt 0'') auth a2 a1 a3 bv qv
               baseMint quoteMint oa ob ea)] \<and>
     rpc e (ledger w7)
       (marketTx e (keypair provider) programId marketPk (''index '' @ nm @ '' wrt 0'') auth a2 a1 a3 bv qv
          baseMint quoteMint oa ob ea) = Some (ledger w') \<and>
     m = \<lparr> name = ''index '' @ nm @ '' wrt 0'',
           admin = secretKey (keypair provider),
           market_pk = publicKey marketPk,
           oracle_a = oa, oracle_b = ob, asks = a1, bids = a2, event_heap = a3,
           base_vault = bv, quote_vault = qv, base_mint = baseMint, quote_mint = quoteMint,
           market_index = index, price = p \<rparr>"
  using assms
  unfolding createMarket_def Let_def perform_thenDo perform_case_prod perform_if perform_orRaise
    perform_getAccountInfo perform_rpc perform_createAccount perform.simps(1)
    oracleCreateTx_def oracleSetTx_def marketTx_def
  apply (elim andThen_InrE orThrow_InrE case_prod_actionE succeed_InrE send_rpc_InrE
      connection_getAccountInfo_InrE getAccountSize_InrE await_createAccount_InrE)
  apply hypsubst
  apply (intro exI conjI; (assumption | rule refl))
  done

lemma maybe_create:
  assumes "(if r = None then send_rpc e tx else succeed ()) w = (Inr u, w')"
  shows "events w' = events w @ (if r = None then [Rpc tx] else []) \<and>
         (if r = None then rpc e (ledger w) tx = Some (ledger w') else ledger w' = ledger w)"
proof (cases "r = None")
  case True
  with assms have "send_rpc e tx w = (Inr u, w')" by simp
  from send_rpc_result [OF this] True show ?thesis by auto
next
  case False
  with assms show ?thesis by (auto simp: succeed_def)
qed

text \<open>
  A call of the market factory that returns, in terms of the ledger: the two oracle
  addresses, the price, the answers of the ledger, the ledger after each step, and
  everything the call recorded.
\<close>

lemma createMarket_Inr:
  fixes w w' :: "('pk, 'l) world"
  assumes run: "perform e (createMarket e provider adminKp0 programId baseMint quoteMint index random
                  marketPk) w = (Inr m, w')"
  shows "\<exists>oa b1 ob b2 p l1 l2 l3 l4 s1 a1 l5 s2 a2 l6 s3 a3 l7 auth bv qv nm ea.
     findProgramAddressSync e
       [Buffer_from ''StubOracle'', toBytes e (publicKey (keypair provider)), toBytes e baseMint]
       programId = Some (oa, b1) \<and>
     findProgramAddressSync e
       [Buffer_from ''StubOracle'', toBytes e (publicKey (keypair provider)), toBytes e quoteMint]
       programId = Some (ob, b2) \<and>
     Option.bind (getRandomInt random 1000) (\<lambda>g. Option.bind (toFixed2 g) parseFloat) = Some p \<and>
     number_toString index = Some nm \<and>
     (if getAccountInfo e (ledger w) oa = None
      then rpc e (ledger w) (oracleCreateTx e (keypair provider) oa baseMint) = Some l1
      else l1 = ledger w) \<and>
     (if getAccountInfo e l1 ob = None
      then rpc e l1 (oracleCreateTx e (keypair provider) ob quoteMint) = Some l2
      else l2 = l1) \<and>
     rpc e l2 (oracleSetTx e (keypair provider) oa p) = Some l3 \<and>
     rpc e l3 (oracleSetTx e (keypair provider) ob p) = Some l4 \<and>
     createAccount e l4 (keypair provider) s1 programId = Some (a1, l5) \<and>
     createAccount e l5 (keypair provider) s2 programId = Some (a2, l6) \<and>
     createAccount e l6 (keypair provider) s3 programId = Some (a3, l7) \<and>
     rpc e l7 (marketTx e (keypair provider) programId marketPk (''index '' @ nm @ '' wrt 0'') auth a2 a1 a3 bv qv
                 baseMint quoteMint oa ob ea) = Some (ledger w') \<and>
     events w' = events w @
       oracleEvents e (keypair provider) oa ob baseMint quoteMint
         (getAccountInfo e (ledger w) oa) (getAccountInfo e l1 ob) p @
       [CreateAccount (keypair provider) s1 programId,
        CreateAccount (keypair provider) s2 programId,
        CreateAccount (keypair provider) s3 programId,
        Rpc (marketTx e (keypair provider) programId marketPk (''index '' @ nm @ '' wrt 0'') auth a2 a1 a3 bv qv
               baseMint quoteMint oa ob ea)] \<and>
     m = \<lparr> name = ''index '' @ nm @ '' wrt 0'',
           admin = secretKey (keypair provider),
           market_pk = publicKey marketPk,
           oracle_a = oa, oracle_b = ob, asks = a1, bids = a2, event_heap = a3,
           base_vault = bv, quote_vault = qv, base_mint = baseMint, quote_mint = quoteMint,
           market_index = index, price = p \<rparr>"
proof -
  let ?kp = "keypair provider"
  from createMarket_steps [OF run]
  obtain oa b1 ob b2 p ra wA uA wA' rb wB uB wB' and w3 w4 :: "('pk, 'l) world"
    and s1 a1 and w5 :: "('pk, 'l) world" and s2 a2 and w6 :: "('pk, 'l) world"
    and s3 a3 and w7 :: "('pk, 'l) world" and auth b3 bv qv nm ea b4
    where pa: "findProgramAddressSync e
       [Buffer_from ''StubOracle'', toBytes e (publicKey ?kp), toBytes e baseMint]
       programId = Some (oa, b1)"
    and pb: "findProgramAddressSync e
       [Buffer_from ''StubOracle'', toBytes e (publicKey ?kp), toBytes e quoteMint]
       programId = Some (ob, b2)"
    and pr: "Option.bind (getRandomInt random 1000) (\<lambda>g. Option.bind (toFixed2 g) parseFloat)
       = Some p"
    and ra: "getAccountInfo e (ledger w) oa = ra"
    and eA: "events wA = events w @ [GetAccountInfo oa ra]"
    and lA: "ledger wA = ledger w"
    and cA: "(if ra = None then send_rpc e (oracleCreateTx e ?kp oa baseMint)
      else succeed ()) wA = (Inr uA, wA')"
    and rb: "getAccountInfo e (ledger wA') ob = rb"
    and eB: "events wB = events wA' @ [GetAccountInfo ob rb]"
    and lB: "ledger wB = ledger wA'"
    and cB: "(if rb = None then send_rpc e (oracleCreateTx e ?kp ob quoteMint)
      else succeed ()) wB = (Inr uB, wB')"
    and e3: "events w3 = events wB' @ [Rpc (oracleSetTx e ?kp oa p)]"
    and r3: "rpc e (ledger wB') (oracleSetTx e ?kp oa p) = Some (ledger w3)"
    and e4: "events w4 = events w3 @ [Rpc (oracleSetTx e ?kp ob p)]"
    and r4: "rpc e (ledger w3) (oracleSetTx e ?kp ob p) = Some (ledger w4)"
    and e5: "events w5 = events w4 @ [CreateAccount ?kp s1 programId]"
    and c5: "createAccount e (ledger w4) ?kp s1 programId = Some (a1, ledger w5)"
    and e6: "events w6 = events w5 @ [CreateAccount ?kp s2 programId]"
    and c6: "createAccount e (ledger w5) ?kp s2 programId = Some (a2, ledger w6)"
    and e7: "events w7 = events w6 @ [CreateAccount ?kp s3 programId]"
    and c7: "createAccount e (ledger w6) ?kp s3 programId = Some (a3, ledger w7)"
    and "findProgramAddressSync e [Buffer_from ''Market'', toBytes e (publicKey marketPk)]
       programId = Some (auth, b3)"
    and "getAssociatedTokenAddressSync e baseMint auth True = Some bv"
    and "getAssociatedTokenAddressSync e quoteMint auth True = Some qv"
    and nm: "number_toString index = Some nm"
    and "findProgramAddressSync e [Buffer_from ''__event_authority''] programId = Some (ea, b4)"
    and e8: "events w' = events w7 @
       [Rpc (marketTx e ?kp programId marketPk (''index '' @ nm @ '' wrt 0'') auth a2 a1 a3 bv qv
               baseMint quoteMint oa ob ea)]"
    and r8: "rpc e (ledger w7)
       (marketTx e ?kp programId marketPk (''index '' @ nm @ '' wrt 0'') auth a2 a1 a3 bv qv
          baseMint quoteMint oa ob ea) = Some (ledger w')"
    and m: "m = \<lparr> name = ''index '' @ nm @ '' wrt 0'',
           admin = secretKey ?kp,
           market_pk = publicKey marketPk,
           oracle_a = oa, oracle_b = ob, asks = a1, bids = a2, event_heap = a3,
           base_vault = bv, quote_vault = qv, base_mint = baseMint, quote_mint = quoteMint,
           market_index = index, price = p \<rparr>"
    by (elim exE conjE)
  from maybe_create [OF cA] lA ra
  have sA: "if getAccountInfo e (ledger w) oa = None
      then rpc e (ledger w) (oracleCreateTx e ?kp oa baseMint) = Some (ledger wA')
      else ledger wA' = ledger w"
    and evA: "events wA' = events wA @
      (if ra = None then [Rpc (oracleCreateTx e ?kp oa baseMint)] else [])"
    by (auto split: if_splits)
  from maybe_create [OF cB] lB rb
  have sB: "if getAccountInfo e (ledger wA') ob = None
      then rpc e (ledger wA') (oracleCreateTx e ?kp ob quoteMint) = Some (ledger wB')
      else ledger wB' = ledger wA'"
    and evB: "events wB' = events wB @
      (if rb = None then [Rpc (oracleCreateTx e ?kp ob quoteMint)] else [])"
    by (auto split: if_splits)
  have ev: "events w' = events w @
       oracleEvents e ?kp oa ob baseMint quoteMint
         (getAccountInfo e (ledger w) oa) (getAccountInfo e (ledger wA') ob) p @
       [CreateAccount ?kp s1 programId, CreateAccount ?kp s2 programId,
        CreateAccount ?kp s3 programId,
        Rpc (marketTx e ?kp programId marketPk (''index '' @ nm @ '' wrt 0'') auth a2 a1 a3 bv qv
               baseMint quoteMint oa ob ea)]"
    unfolding e8 e7 e6 e5 e4 e3 evB eB evA eA ra rb oracleEvents_def by simp
  have "findProgramAddressSync e
       [Buffer_from ''StubOracle'', toBytes e (publicKey ?kp), toBytes e baseMint]
       programId = Some (oa, b1) \<and>
     findProgramAddressSync e
       [Buffer_from ''StubOracle'', toBytes e (publicKey ?kp), toBytes e quoteMint]
       programId = Some (ob, b2) \<and>
     Option.bind (getRandomInt random 1000) (\<lambda>g. Option.bind (toFixed2 g) parseFloat) = Some p \<and>
     number_toString index = Some nm \<and>
     (if getAccountInfo e (ledger w) oa = None
      then rpc e (ledger w) (oracleCreateTx e ?kp oa baseMint) = Some (ledger wA')
      else ledger wA' = ledger w) \<and>
     (if getAccountInfo e (ledger wA') ob = None
      then rpc e (ledger wA') (oracleCreateTx e ?kp ob quoteMint) = Some (ledger wB')
      else ledger wB' = ledger wA') \<and>
     rpc e (ledger wB') (oracleSetTx e ?kp oa p) = Some (ledger w3) \<and>
     rpc e (ledger w3) (oracleSetTx e ?kp ob p) = Some (ledger w4) \<and>
     createAccount e (ledger w4) ?kp s1 programId = Some (a1, ledger w5) \<and>
     createAccount e (ledger w5) ?kp s2 programId = Some (a2, ledger w6) \<and>
     createAccount e (ledger w6) ?kp s3 programId = Some (a3, ledger w7) \<and>
     rpc e (ledger w7) (marketTx e ?kp programId marketPk (''index '' @ nm @ '' wrt 0'') auth a2 a1 a3 bv qv
                 baseMint quoteMint oa ob ea) = Some (ledger w') \<and>
     events w' = events w @
       oracleEvents e ?kp oa ob baseMint quoteMint
         (getAccountInfo e (ledger w) oa) (getAccountInfo e (ledger wA') ob) p @
       [CreateAccount ?kp s1 programId, CreateAccount ?kp s2 programId,
        CreateAccount ?kp s3 programId,
        Rpc (marketTx e ?kp programId marketPk (''index '' @ nm @ '' wrt 0'') auth a2 a1 a3 bv qv
               baseMint quoteMint oa ob ea)] \<and>
     m = \<lparr> name = ''index '' @ nm @ '' wrt 0'',
           admin = secretKey ?kp,
           market_pk = publicKey marketPk,
           oracle_a = oa, oracle_b = ob, asks = a1, bids = a2, event_heap = a3,
           base_vault = bv, quote_vault = qv, base_mint = baseMint, quote_mint = quoteMint,
           market_index = index, price = p \<rparr>"
    by (intro conjI) (fact pa pb pr nm sA sB r3 r4 c5 c6 c7 r8 ev m)+
  then show ?thesis
    by (rule_tac x = oa in exI, rule_tac x = b1 in exI, rule_tac x = ob in exI,
        rule_tac x = b2 in exI, rule_tac x = p in exI, rule_tac x = "ledger wA'" in exI,
        rule_tac x = "ledger wB'" in exI, rule_tac x = "ledger w3" in exI,
        rule_tac x = "ledger w4" in exI, rule_tac x = s1 in exI, rule_tac x = a1 in exI,
        rule_tac x = "ledger w5" in exI, rule_tac x = s2 in exI, rule_tac x = a2 in exI,
        rule_tac x = "ledger w6" in exI, rule_tac x = s3 in exI, rule_tac x = a3 in exI,
        rule_tac x = "ledger w7" in exI, rule_tac x = auth in exI, rule_tac x = bv in exI,
        rule_tac x = qv in exI, rule_tac x = nm in exI, rule_tac x = ea in exI)
qed

text \<open>The first statement of the body makes the admin argument irrelevant.\<close>

lemma createMarket_ignores_argument:
  "createMarket e provider adminKp0 programId baseMint quoteMint index random marketPk =
   createMarket e provider adminKp1 programId baseMint quoteMint index random marketPk"
  by (simp add: createMarket_def)




lemma price_half:
  "getRandomInt (1 / 2) 1000 = Some 600"
  "Option.bind (getRandomInt (1 / 2) 1000) (\<lambda>g. Option.bind (toFixed2 g) parseFloat) = Some 600"
proof -
  have a: "fl 500 = Some 500" using fl_of_int [of 500] by simp
  have b: "fl 600 = Some 600" using fl_of_int [of 600] by simp
  show g: "getRandomInt (1 / 2) 1000 = Some 600" by (simp add: getRandomInt_def a b)
  have t: "toFixed2 600 = Some (digits 600 @ ''.00'')" using toFixed2_of_int [of 600] by simp
  have q: "parseFloat (digits 600 @ ''.00'') = Some 600" using parseFloat_fixed [of 600] by simp
  show "Option.bind (getRandomInt (1 / 2) 1000) (\<lambda>g. Option.bind (toFixed2 g) parseFloat)
          = Some 600"
    by (simp add: g t q)
qed

lemma returns_thenDo: "returns (thenDo p f) = (\<Union>x\<in>returns p. returns (f x))"
  by (induction p) auto

lemma submits_thenDo: "submits (thenDo p f) = submits p \<union> (\<Union>x\<in>returns p. submits (f x))"
  by (induction p) auto

lemma returns_orRaise: "returns (orRaise err r) = set_option r"
  by (cases r) (simp_all add: orRaise_def)

lemma submits_orRaise: "submits (orRaise err r) = {}"
  by (cases r) (simp_all add: orRaise_def)

lemma submits_getAccountSize: "submits (getAccountSize e nm) = {}"
  by (simp add: getAccountSize_def split: list.splits)


lemma step_submits:
  assumes "step e p w = (p', w1)"
  shows "submits p' \<subseteq> submits p \<and>
     (\<exists>new. events w1 = events w @ new \<and> (\<forall>tx. Rpc tx \<in> set new \<longrightarrow> tx \<in> submits p))"
proof (cases p)
  case (Return x)
  with assms show ?thesis by auto
next
  case (Throw err)
  with assms show ?thesis by auto
next
  case (Await_getAccountInfo a k)
  with assms show ?thesis
    by (auto simp: connection_getAccountInfo_def Let_def)
next
  case (Await_rpc tx k)
  with assms show ?thesis
    by (auto simp: send_rpc_def Let_def split: option.splits)
next
  case (Await_createAccount payer sz owner k)
  with assms show ?thesis
    by (auto simp: await_createAccount_def Let_def split: option.splits)
qed


lemma perform_submits:
  "perform e p w = (r, w') \<Longrightarrow>
     \<exists>new. events w' = events w @ new \<and> (\<forall>tx. Rpc tx \<in> set new \<longrightarrow> tx \<in> submits p)"
proof (induction p arbitrary: w)
  case (Return y)
  then show ?case by (simp add: succeed_def)
next
  case (Throw err)
  then show ?case by (simp add: throw_def)
next
  case (Await_getAccountInfo a k)
  let ?r = "getAccountInfo e (ledger w) a"
  let ?w1 = "w\<lparr>events := events w @ [GetAccountInfo a ?r]\<rparr>"
  from Await_getAccountInfo.prems have "perform e (k ?r) ?w1 = (r, w')"
    by (simp add: andThen_def connection_getAccountInfo_def Let_def)
  from Await_getAccountInfo.IH [OF rangeI this] obtain new where
    "events w' = events ?w1 @ new" "\<forall>tx. Rpc tx \<in> set new \<longrightarrow> tx \<in> submits (k ?r)"
    by (elim exE conjE)
  then have "events w' = events w @ (GetAccountInfo a ?r # new) \<and>
      (\<forall>tx. Rpc tx \<in> set (GetAccountInfo a ?r # new)
         \<longrightarrow> tx \<in> submits (Await_getAccountInfo a k))"
    by auto
  then show ?case by (rule exI)
next
  case (Await_rpc tx k)
  show ?case
  proof (cases "rpc e (ledger w) tx")
    case None
    with Await_rpc.prems have "events w' = events w @ [Rpc tx]"
      by (auto simp: andThen_def send_rpc_def Let_def)
    then have "events w' = events w @ [Rpc tx] \<and>
        (\<forall>t. Rpc t \<in> set [Rpc tx] \<longrightarrow> t \<in> submits (Await_rpc tx k))" by simp
    then show ?thesis by (rule exI)
  next
    case (Some l')
    let ?w1 = "w\<lparr>events := events w @ [Rpc tx], ledger := l'\<rparr>"
    from Some Await_rpc.prems have "perform e k ?w1 = (r, w')"
      by (simp add: andThen_def send_rpc_def Let_def)
    from Await_rpc.IH [OF this] obtain new where
      "events w' = events ?w1 @ new" "\<forall>t. Rpc t \<in> set new \<longrightarrow> t \<in> submits k"
      by (elim exE conjE)
    then have "events w' = events w @ (Rpc tx # new) \<and>
        (\<forall>t. Rpc t \<in> set (Rpc tx # new) \<longrightarrow> t \<in> submits (Await_rpc tx k))"
      by auto
    then show ?thesis by (rule exI)
  qed
next
  case (Await_createAccount payer sz owner k)
  show ?case
  proof (cases "createAccount e (ledger w) payer sz owner")
    case None
    with Await_createAccount.prems have "events w' = events w @ [CreateAccount payer sz owner]"
      by (auto simp: andThen_def await_createAccount_def Let_def)
    then have "events w' = events w @ [CreateAccount payer sz owner] \<and>
        (\<forall>t. Rpc t \<in> set [CreateAccount payer sz owner]
           \<longrightarrow> t \<in> submits (Await_createAccount payer sz owner k))" by simp
    then show ?thesis by (rule exI)
  next
    case (Some al)
    obtain a l' where al: "al = (a, l')" by (cases al)
    let ?w1 = "w\<lparr>events := events w @ [CreateAccount payer sz owner], ledger := l'\<rparr>"
    from Some al Await_createAccount.prems have "perform e (k a) ?w1 = (r, w')"
      by (simp add: andThen_def await_createAccount_def Let_def)
    from Await_createAccount.IH [OF rangeI this] obtain new where
      "events w' = events ?w1 @ new" "\<forall>t. Rpc t \<in> set new \<longrightarrow> t \<in> submits (k a)"
      by (elim exE conjE)
    then have "events w' = events w @ (CreateAccount payer sz owner # new) \<and>
        (\<forall>t. Rpc t \<in> set (CreateAccount payer sz owner # new)
           \<longrightarrow> t \<in> submits (Await_createAccount payer sz owner k))"
      by auto
    then show ?thesis by (rule exI)
  qed
qed

text \<open>
  What every descriptor a call of the market factory can return carries, and how every
  transaction it can submit is signed.
\<close>

lemma returns_thenDo_subset:
  "(\<And>x. x \<in> returns p \<Longrightarrow> returns (f x) \<subseteq> S) \<Longrightarrow> returns (thenDo p f) \<subseteq> S"
  by (auto simp: returns_thenDo)

lemma returns_case_prod_subset:
  "(\<And>a b. x = (a, b) \<Longrightarrow> returns (f a b) \<subseteq> S) \<Longrightarrow> returns (case x of (a, b) \<Rightarrow> f a b) \<subseteq> S"
  by (cases x) simp

lemma submits_thenDo_subset:
  "submits p \<subseteq> S \<Longrightarrow> (\<And>x. submits (f x) \<subseteq> S) \<Longrightarrow> submits (thenDo p f) \<subseteq> S"
  by (auto simp: submits_thenDo)

lemma submits_case_prod_subset:
  "(\<And>a b. submits (f a b) \<subseteq> S) \<Longrightarrow> submits (case x of (a, b) \<Rightarrow> f a b) \<subseteq> S"
  by (cases x) simp

lemma createMarket_returns_subset:
  "returns (createMarket e provider adminKp0 programId baseMint quoteMint index random marketPk)
     \<subseteq> {m. market_index m = index \<and> base_mint m = baseMint \<and> quote_mint m = quoteMint \<and>
            admin m = secretKey (keypair provider) \<and> market_pk m = publicKey marketPk \<and>
            (\<exists>b1. findProgramAddressSync e
               [Buffer_from ''StubOracle'', toBytes e (publicKey (keypair provider)),
                toBytes e baseMint] programId = Some (oracle_a m, b1)) \<and>
            (\<exists>b2. findProgramAddressSync e
               [Buffer_from ''StubOracle'', toBytes e (publicKey (keypair provider)),
                toBytes e quoteMint] programId = Some (oracle_b m, b2)) \<and>
            Option.bind (getRandomInt random 1000) (\<lambda>g. Option.bind (toFixed2 g) parseFloat)
              = Some (price m)}"
  unfolding createMarket_def Let_def
  by (intro returns_thenDo_subset returns_case_prod_subset)
     (auto simp: returns_orRaise bind_eq_Some_conv)

lemma createMarket_returns:
  assumes "m \<in> returns (createMarket e provider adminKp0 programId baseMint quoteMint index
                        random marketPk)"
  shows "market_index m = index \<and> base_mint m = baseMint \<and> quote_mint m = quoteMint \<and>
     admin m = secretKey (keypair provider) \<and> market_pk m = publicKey marketPk \<and>
     (\<exists>b1. findProgramAddressSync e
        [Buffer_from ''StubOracle'', toBytes e (publicKey (keypair provider)),
         toBytes e baseMint] programId = Some (oracle_a m, b1)) \<and>
     (\<exists>b2. findProgramAddressSync e
        [Buffer_from ''StubOracle'', toBytes e (publicKey (keypair provider)),
         toBytes e quoteMint] programId = Some (oracle_b m, b2)) \<and>
     Option.bind (getRandomInt random 1000) (\<lambda>g. Option.bind (toFixed2 g) parseFloat)
       = Some (price m)"
  using assms createMarket_returns_subset [of e provider adminKp0 programId baseMint quoteMint
      index random marketPk] by blast

lemma createMarket_submits_subset:
  "submits (createMarket e provider adminKp0 programId baseMint quoteMint index random marketPk)
     \<subseteq> {tx. (oracle_instruction (instruction tx) \<longrightarrow> signers tx = [keypair provider]) \<and>
             (\<forall>nm cfg q b mf tf tq acc. instruction tx = CreateMarket nm cfg q b mf tf tq acc
                \<longrightarrow> cm_market acc = publicKey marketPk \<and>
                    signers tx = [keypair provider, marketPk])}"
  unfolding createMarket_def Let_def
  by (intro submits_thenDo_subset submits_case_prod_subset)
     (simp_all add: submits_orRaise submits_getAccountSize)

lemma createMarket_submits:
  assumes "tx \<in> submits (createMarket e provider adminKp0 programId baseMint quoteMint index
                         random marketPk)"
  shows "(oracle_instruction (instruction tx) \<longrightarrow> signers tx = [keypair provider]) \<and>
     (\<forall>nm cfg q b mf tf tq acc. instruction tx = CreateMarket nm cfg q b mf tf tq acc
        \<longrightarrow> cm_market acc = publicKey marketPk \<and> signers tx = [keypair provider, marketPk])"
  using assms createMarket_submits_subset [of e provider adminKp0 programId baseMint quoteMint
      index random marketPk] by blast












lemma number_toString_0: "number_toString 0 = Some ''0''"
  by (simp add: number_toString_def digits.simps digit_char_def)

lemma mock_createMarket:
  "perform mock_env
     (createMarket mock_env mock_provider mock_userKp [9] [4] [3] 0 (1 / 2) mock_marketKp)
     mock_world = (Inr mock_created, mock_after)"
  by (simp add: createMarket_def orRaise_def getAccountSize_def Let_def price_half(2)
      number_toString_0 andThen_def succeed_def throw_def send_rpc_def
      connection_getAccountInfo_def await_createAccount_def
      mock_env_def mock_rpc_def mock_provider_def mock_world_def mock_marketKp_def
      mock_created_def mock_after_def mock_oracle_def oracleEvents_def oracleCreateTx_def
      oracleSetTx_def marketTx_def)

lemma createMarket_admin_run:
  fixes w w' :: "('pk, 'l) world"
  assumes run: "perform e (createMarket e provider adminKp0 programId baseMint quoteMint index
                  random marketPk) w = (Inr m, w')"
  shows "admin m = secretKey (keypair provider) \<and> market_pk m = publicKey marketPk \<and>
     (\<exists>tx nm cfg q b mf tf tq acc. events w' \<noteq> [] \<and> last (events w') = Rpc tx \<and>
        instruction tx = CreateMarket nm cfg q b mf tf tq acc \<and>
        cm_market acc = publicKey marketPk \<and>
        signers tx = [keypair provider, marketPk])"
proof -
  from createMarket_Inr [OF run]
  obtain oa ob p a1 a2 a3 bv qv nm where
    m: "m = \<lparr> name = ''index '' @ nm @ '' wrt 0'',
           admin = secretKey (keypair provider),
           market_pk = publicKey marketPk,
           oracle_a = oa, oracle_b = ob, asks = a1, bids = a2, event_heap = a3,
           base_vault = bv, quote_vault = qv, base_mint = baseMint, quote_mint = quoteMint,
           market_index = index, price = p \<rparr>"
    by (elim exE conjE)
  from createMarket_Inr [OF run]
  have "\<exists>evs tx nm cfg q b mf tf tq acc. events w' = evs @ [Rpc tx] \<and>
        instruction tx = CreateMarket nm cfg q b mf tf tq acc \<and>
        cm_market acc = publicKey marketPk \<and>
        signers tx = [keypair provider, marketPk]"
    by (elim exE conjE) (simp add: marketTx_def)
  then obtain evs tx nm' cfg q b mf tf tq acc where
    "events w' = evs @ [Rpc tx]" "instruction tx = CreateMarket nm' cfg q b mf tf tq acc"
    "cm_market acc = publicKey marketPk" "signers tx = [keypair provider, marketPk]"
    by (elim exE conjE)
  then have "\<exists>tx nm cfg q b mf tf tq acc. events w' \<noteq> [] \<and> last (events w') = Rpc tx \<and>
        instruction tx = CreateMarket nm cfg q b mf tf tq acc \<and>
        cm_market acc = publicKey marketPk \<and>
        signers tx = [keypair provider, marketPk]"
    by (intro exI [where x = tx] exI [where x = nm'] exI [where x = cfg] exI [where x = q]
        exI [where x = b] exI [where x = mf] exI [where x = tf] exI [where x = tq]
        exI [where x = acc]) simp
  with m show ?thesis by simp
qed

text \<open>
  Claim C1, as amended. For every call of \<^verbatim>\<open>createMarket\<close>, the \<open>admin\<close> field of the
  descriptor it returns holds the secret key of the provider's keypair
  (\<^verbatim>\<open>anchorProvider.keypair\<close>, the payer), and of the market identity generated in the call
  the descriptor holds only the public key, in \<open>market_pk\<close>; the create-market transaction
  of the call names that market identity and is signed by the provider's keypair and by the
  market identity, in this order. This holds whatever the ledger answers (first two
  parts), so also for calls that run interleaved; and when the call is awaited on its own
  and returns, the create-market transaction is the last thing it has submitted.
\<close>

theorem createMarket_admin:
  "(\<forall>m\<in>returns (createMarket e provider adminKp0 programId baseMint quoteMint index random
                   marketPk).
      admin m = secretKey (keypair provider) \<and> market_pk m = publicKey marketPk) \<and>
   (\<forall>tx\<in>submits (createMarket e provider adminKp0 programId baseMint quoteMint index random
                    marketPk).
      \<forall>nm cfg q b mf tf tq acc. instruction tx = CreateMarket nm cfg q b mf tf tq acc
        \<longrightarrow> cm_market acc = publicKey marketPk \<and> signers tx = [keypair provider, marketPk]) \<and>
   (\<forall>(w :: ('pk, 'l) world) m w'.
      perform e (createMarket e provider adminKp0 programId baseMint quoteMint index random
        marketPk) w = (Inr m, w') \<longrightarrow>
      admin m = secretKey (keypair provider) \<and> market_pk m = publicKey marketPk \<and>
      (\<exists>tx nm cfg q b mf tf tq acc. events w' \<noteq> [] \<and> last (events w') = Rpc tx \<and>
         instruction tx = CreateMarket nm cfg q b mf tf tq acc \<and>
         cm_market acc = publicKey marketPk \<and>
         signers tx = [keypair provider, marketPk]))"
proof (intro conjI ballI allI impI)
  fix m
  assume "m \<in> returns (createMarket e provider adminKp0 programId baseMint quoteMint index random
                   marketPk)"
  from createMarket_returns [OF this]
  show "admin m = secretKey (keypair provider)" and "market_pk m = publicKey marketPk"
    by simp_all
next
  fix tx nm cfg q b mf tf tq acc
  assume "tx \<in> submits (createMarket e provider adminKp0 programId baseMint quoteMint index random
                    marketPk)"
    and "instruction tx = CreateMarket nm cfg q b mf tf tq acc"
  with createMarket_submits [of tx e provider adminKp0 programId baseMint quoteMint index random
      marketPk]
  show "cm_market acc = publicKey marketPk" and "signers tx = [keypair provider, marketPk]"
    by blast+
next
  fix w w' :: "('pk, 'l) world" and m
  assume run: "perform e (createMarket e provider adminKp0 programId baseMint quoteMint index
                 random marketPk) w = (Inr m, w')"
  from createMarket_admin_run [OF run]
  show "admin m = secretKey (keypair provider)" and "market_pk m = publicKey marketPk"
    and "\<exists>tx nm cfg q b mf tf tq acc. events w' \<noteq> [] \<and> last (events w') = Rpc tx \<and>
         instruction tx = CreateMarket nm cfg q b mf tf tq acc \<and>
         cm_market acc = publicKey marketPk \<and>
         signers tx = [keypair provider, marketPk]"
    by blast+
qed

theorem createMarket_admin_witness:
  "admin mock_created = secretKey (keypair mock_provider) \<and>
   market_pk mock_created = publicKey mock_marketKp \<and>
   (\<exists>tx. last (events mock_after) = Rpc tx \<and>
      signers tx = [keypair mock_provider, mock_marketKp])"
proof -
  note T = createMarket_admin [of mock_env mock_provider mock_userKp "[9]" "[4]" "[3]" 0 "1 / 2"
      mock_marketKp]
  note R = conjunct2 [OF conjunct2 [OF T], THEN spec, THEN spec, THEN spec, THEN mp,
      OF mock_createMarket]
  then show ?thesis by blast
qed

text \<open>
  The claim as first worded does not hold: in the call on the mock ledger the market
  identity is \<open>mock_marketKp\<close>, with the secret key \<open>[15, 5]\<close>, and the descriptor's \<open>admin\<close>
  field is \<open>[11, 1]\<close>, the secret key of the provider's keypair.
\<close>

theorem createMarket_admin_counterexample:
  "perform mock_env
     (createMarket mock_env mock_provider mock_userKp [9] [4] [3] 0 (1 / 2) mock_marketKp)
     mock_world = (Inr mock_created, mock_after) \<and>
   admin mock_created = [11, 1] \<and>
   secretKey mock_marketKp = [15, 5] \<and>
   admin mock_created \<noteq> secretKey mock_marketKp"
  by (simp add: mock_createMarket) (simp add: mock_created_def mock_marketKp_def)

lemma createMarket_oracle_admin_run:
  fixes w w' :: "('pk, 'l) world"
  assumes run: "perform e (createMarket e provider adminKp0 programId baseMint quoteMint index
                  random marketPk) w = (Inr m, w')"
  shows "(\<exists>b1 b2.
       findProgramAddressSync e
         [Buffer_from ''StubOracle'', toBytes e (publicKey (keypair provider)), toBytes e baseMint]
         programId = Some (oracle_a m, b1) \<and>
       findProgramAddressSync e
         [Buffer_from ''StubOracle'', toBytes e (publicKey (keypair provider)), toBytes e quoteMint]
         programId = Some (oracle_b m, b2)) \<and>
     (\<exists>new. events w' = events w @ new \<and>
        (\<forall>tx. Rpc tx \<in> set new \<and> oracle_instruction (instruction tx)
           \<longrightarrow> signers tx = [keypair provider])) \<and>
     (\<forall>adminKp1.
        createMarket e provider adminKp1 programId baseMint quoteMint index random marketPk =
        createMarket e provider adminKp0 programId baseMint quoteMint index random marketPk)"
proof -
  let ?kp = "keypair provider"
  from createMarket_Inr [OF run]
  obtain oa b1 ob b2 p l1 s1 a1 s2 a2 s3 a3 auth bv qv nm ea where
    pa: "findProgramAddressSync e
       [Buffer_from ''StubOracle'', toBytes e (publicKey ?kp), toBytes e baseMint]
       programId = Some (oa, b1)"
    and pb: "findProgramAddressSync e
       [Buffer_from ''StubOracle'', toBytes e (publicKey ?kp), toBytes e quoteMint]
       programId = Some (ob, b2)"
    and ev: "events w' = events w @
       oracleEvents e ?kp oa ob baseMint quoteMint
         (getAccountInfo e (ledger w) oa) (getAccountInfo e l1 ob) p @
       [CreateAccount ?kp s1 programId, CreateAccount ?kp s2 programId,
        CreateAccount ?kp s3 programId,
        Rpc (marketTx e ?kp programId marketPk (''index '' @ nm @ '' wrt 0'')
               auth a2 a1 a3 bv qv baseMint quoteMint oa ob ea)]"
    and m: "m = \<lparr> name = ''index '' @ nm @ '' wrt 0'',
           admin = secretKey ?kp,
           market_pk = publicKey marketPk,
           oracle_a = oa, oracle_b = ob, asks = a1, bids = a2, event_heap = a3,
           base_vault = bv, quote_vault = qv, base_mint = baseMint, quote_mint = quoteMint,
           market_index = index, price = p \<rparr>"
    by (elim exE conjE)
  from pa pb m have 1: "\<exists>b1 b2.
       findProgramAddressSync e
         [Buffer_from ''StubOracle'', toBytes e (publicKey ?kp), toBytes e baseMint]
         programId = Some (oracle_a m, b1) \<and>
       findProgramAddressSync e
         [Buffer_from ''StubOracle'', toBytes e (publicKey ?kp), toBytes e quoteMint]
         programId = Some (oracle_b m, b2)"
    by simp
  let ?new = "oracleEvents e ?kp oa ob baseMint quoteMint
         (getAccountInfo e (ledger w) oa) (getAccountInfo e l1 ob) p @
       [CreateAccount ?kp s1 programId, CreateAccount ?kp s2 programId,
        CreateAccount ?kp s3 programId,
        Rpc (marketTx e ?kp programId marketPk (''index '' @ nm @ '' wrt 0'')
               auth a2 a1 a3 bv qv baseMint quoteMint oa ob ea)]"
  have "\<forall>tx. Rpc tx \<in> set ?new \<and> oracle_instruction (instruction tx) \<longrightarrow> signers tx = [?kp]"
    by (auto simp: oracleEvents_def oracleCreateTx_def oracleSetTx_def marketTx_def
        split: if_splits)
  with ev have 2: "\<exists>new. events w' = events w @ new \<and>
        (\<forall>tx. Rpc tx \<in> set new \<and> oracle_instruction (instruction tx)
           \<longrightarrow> signers tx = [?kp])"
    by (intro exI [where x = ?new] conjI)
  have 3: "\<forall>adminKp1.
        createMarket e provider adminKp1 programId baseMint quoteMint index random marketPk =
        createMarket e provider adminKp0 programId baseMint quoteMint index random marketPk"
    by (intro allI) (rule createMarket_ignores_argument)
  from 1 2 3 show ?thesis by (intro conjI)
qed

text \<open>
  Claim C2, as amended. For every call of \<^verbatim>\<open>createMarket\<close>, the two oracle addresses in
  the descriptor it returns are derived from the seeds \<open>"StubOracle"\<close>, the public key of
  the provider's keypair (\<^verbatim>\<open>anchorProvider.keypair\<close>) and the mint, and every oracle
  instruction the call submits (creation or price setting) is signed by the provider's
  keypair alone; this holds whatever the ledger answers, so also for calls that run
  interleaved, and in particular for a call awaited on its own. The admin key the caller
  supplies is overwritten by the first statement of the body and plays no part: the call is
  the same for every admin key argument.
\<close>

theorem createMarket_oracle_admin:
  "(\<forall>m\<in>returns (createMarket e provider adminKp0 programId baseMint quoteMint index random
                   marketPk).
      (\<exists>b1. findProgramAddressSync e
         [Buffer_from ''StubOracle'', toBytes e (publicKey (keypair provider)), toBytes e baseMint]
         programId = Some (oracle_a m, b1)) \<and>
      (\<exists>b2. findProgramAddressSync e
         [Buffer_from ''StubOracle'', toBytes e (publicKey (keypair provider)), toBytes e quoteMint]
         programId = Some (oracle_b m, b2))) \<and>
   (\<forall>tx\<in>submits (createMarket e provider adminKp0 programId baseMint quoteMint index random
                    marketPk).
      oracle_instruction (instruction tx) \<longrightarrow> signers tx = [keypair provider]) \<and>
   (\<forall>(w :: ('pk, 'l) world) m w'.
      perform e (createMarket e provider adminKp0 programId baseMint quoteMint index random
        marketPk) w = (Inr m, w') \<longrightarrow>
      (\<exists>b1 b2.
         findProgramAddressSync e
           [Buffer_from ''StubOracle'', toBytes e (publicKey (keypair provider)),
            toBytes e baseMint] programId = Some (oracle_a m, b1) \<and>
         findProgramAddressSync e
           [Buffer_from ''StubOracle'', toBytes e (publicKey (keypair provider)),
            toBytes e quoteMint] programId = Some (oracle_b m, b2)) \<and>
      (\<exists>new. events w' = events w @ new \<and>
         (\<forall>tx. Rpc tx \<in> set new \<and> oracle_instruction (instruction tx)
            \<longrightarrow> signers tx = [keypair provider]))) \<and>
   (\<forall>adminKp1.
      createMarket e provider adminKp1 programId baseMint quoteMint index random marketPk =
      createMarket e provider adminKp0 programId baseMint quoteMint index random marketPk)"
proof (intro conjI ballI allI impI)
  fix m
  assume "m \<in> returns (createMarket e provider adminKp0 programId baseMint quoteMint index random
                   marketPk)"
  from createMarket_returns [OF this]
  show "\<exists>b1. findProgramAddressSync e
         [Buffer_from ''StubOracle'', toBytes e (publicKey (keypair provider)), toBytes e baseMint]
         programId = Some (oracle_a m, b1)"
    and "\<exists>b2. findProgramAddressSync e
         [Buffer_from ''StubOracle'', toBytes e (publicKey (keypair provider)), toBytes e quoteMint]
         programId = Some (oracle_b m, b2)"
    by blast+
next
  fix tx
  assume "tx \<in> submits (createMarket e provider adminKp0 programId baseMint quoteMint index random
                    marketPk)"
    and "oracle_instruction (instruction tx)"
  with createMarket_submits [of tx e provider adminKp0 programId baseMint quoteMint index random
      marketPk]
  show "signers tx = [keypair provider]" by blast
next
  fix w w' :: "('pk, 'l) world" and m
  assume run: "perform e (createMarket e provider adminKp0 programId baseMint quoteMint index
                 random marketPk) w = (Inr m, w')"
  from createMarket_oracle_admin_run [OF run]
  show "\<exists>b1 b2.
         findProgramAddressSync e
           [Buffer_from ''StubOracle'', toBytes e (publicKey (keypair provider)),
            toBytes e baseMint] programId = Some (oracle_a m, b1) \<and>
         findProgramAddressSync e
           [Buffer_from ''StubOracle'', toBytes e (publicKey (keypair provider)),
            toBytes e quoteMint] programId = Some (oracle_b m, b2)"
    and "\<exists>new. events w' = events w @ new \<and>
         (\<forall>tx. Rpc tx \<in> set new \<and> oracle_instruction (instruction tx)
            \<longrightarrow> signers tx = [keypair provider])"
    by blast+
next
  fix adminKp1
  show "createMarket e provider adminKp1 programId baseMint quoteMint index random marketPk =
      createMarket e provider adminKp0 programId baseMint quoteMint index random marketPk"
    by (rule createMarket_ignores_argument)
qed

theorem createMarket_oracle_admin_witness:
  "oracle_a mock_created = Buffer_from ''StubOracle'' @ [1, 4, 9] \<and>
   oracle_b mock_created = Buffer_from ''StubOracle'' @ [1, 3, 9] \<and>
   (\<exists>tx. events mock_after ! 1 = Rpc tx \<and> oracle_instruction (instruction tx) \<and>
      signers tx = [keypair mock_provider])"
proof -
  let ?tx = "oracleCreateTx mock_env (keypair mock_provider) (mock_oracle [4]) [4]"
  note T = createMarket_oracle_admin [of mock_env mock_provider mock_userKp "[9]" "[4]" "[3]" 0
      "1 / 2" mock_marketKp]
  note R = conjunct1 [OF conjunct2 [OF conjunct2 [OF T]], THEN spec, THEN spec, THEN spec,
      THEN mp, OF mock_createMarket]
  from R
  have a: "oracle_a mock_created = Buffer_from ''StubOracle'' @ [1, 4, 9]"
    and b: "oracle_b mock_created = Buffer_from ''StubOracle'' @ [1, 3, 9]"
    and s: "\<forall>tx. Rpc tx \<in> set (events mock_after) \<and> oracle_instruction (instruction tx)
      \<longrightarrow> signers tx = [keypair mock_provider]"
    by (auto simp: mock_env_def mock_provider_def mock_world_def)
  have n: "events mock_after ! 1 = Rpc ?tx" by (simp add: mock_after_def oracleEvents_def)
  have "Rpc ?tx \<in> set (events mock_after)" by (simp add: mock_after_def oracleEvents_def)
  moreover have o: "oracle_instruction (instruction ?tx)" by (simp add: oracleCreateTx_def)
  ultimately have "signers ?tx = [keypair mock_provider]" using s by blast
  with n o have "\<exists>tx. events mock_after ! 1 = Rpc tx \<and> oracle_instruction (instruction tx) \<and>
      signers tx = [keypair mock_provider]"
    by (intro exI [where x = ?tx] conjI)
  with a b show ?thesis by (intro conjI)
qed

text \<open>
  The claim as first worded does not hold: the call on the mock ledger is given the admin
  key \<open>mock_userKp\<close> (public key \<open>[2]\<close>); the oracle address in the descriptor is the one
  derived from the public key \<open>[1]\<close> of the provider's keypair, not from \<open>[2]\<close>, and the
  first oracle instruction is signed by the provider's keypair, not by \<open>mock_userKp\<close>.
\<close>

theorem createMarket_oracle_admin_counterexample:
  "perform mock_env
     (createMarket mock_env mock_provider mock_userKp [9] [4] [3] 0 (1 / 2) mock_marketKp)
     mock_world = (Inr mock_created, mock_after) \<and>
   findProgramAddressSync mock_env
     [Buffer_from ''StubOracle'', toBytes mock_env (publicKey mock_userKp), toBytes mock_env [4]]
     [9] \<noteq> Some (oracle_a mock_created, 255) \<and>
   findProgramAddressSync mock_env
     [Buffer_from ''StubOracle'', toBytes mock_env (publicKey (keypair mock_provider)),
      toBytes mock_env [4]] [9] = Some (oracle_a mock_created, 255) \<and>
   events mock_after ! 1 =
     Rpc (oracleCreateTx mock_env (keypair mock_provider) (oracle_a mock_created) [4]) \<and>
   signers (oracleCreateTx mock_env (keypair mock_provider) (oracle_a mock_created) [4])
     \<noteq> [mock_userKp]"
  by (simp add: mock_createMarket)
     (simp add: mock_created_def mock_after_def mock_oracle_def mock_env_def mock_provider_def
        mock_userKp_def oracleEvents_def oracleCreateTx_def)











section \<open>Properties of the configurator\<close>




text \<open>
  Every transaction recorded while \<^verbatim>\<open>Promise.all\<close> awaits the calls is one that one of the
  calls can submit, whatever the schedule and however the await ends.
\<close>

lemma Promise_all_submits:
  "Promise_all e calls sched w = (r, w')
     \<Longrightarrow> \<exists>new. events w' = events w @ new \<and>
           (\<forall>tx. Rpc tx \<in> set new \<longrightarrow> (\<exists>p\<in>set calls. tx \<in> submits p))"
proof (induction sched arbitrary: calls w)
  case Nil
  then have "events w' = events w @ []"
    by (auto simp: Promise_all.simps [of e calls "[]" w] split: list.splits option.splits)
  then show ?case by (intro exI [where x = "[]"]) simp
next
  case (Cons i rest)
  show ?case
  proof (cases "List.map_filter rejection calls = [] \<and> those (map fulfilled calls) = None")
    case False
    with Cons.prems have "events w' = events w @ []"
      by (auto simp: Promise_all.simps [of e calls "i # rest" w] split: list.splits option.splits)
    then show ?thesis by (intro exI [where x = "[]"]) simp
  next
    case pending: True
    show ?thesis
    proof (cases "i < length calls")
      case True
      obtain p' w1 where s: "step e (calls ! i) w = (p', w1)" by (cases "step e (calls ! i) w")
      with Cons.prems pending True
      have "Promise_all e (calls[i := p']) rest w1 = (r, w')"
        by (simp add: Promise_all.simps [of e calls "i # rest" w])
      from Cons.IH [OF this] obtain new2 where
        e2: "events w' = events w1 @ new2"
        and s2: "\<forall>tx. Rpc tx \<in> set new2 \<longrightarrow> (\<exists>p\<in>set (calls[i := p']). tx \<in> submits p)"
        by (elim exE conjE)
      from step_submits [OF s] obtain new1 where
        sub: "submits p' \<subseteq> submits (calls ! i)"
        and e1: "events w1 = events w @ new1"
        and s1: "\<forall>tx. Rpc tx \<in> set new1 \<longrightarrow> tx \<in> submits (calls ! i)"
        by (elim exE conjE)
      have mem: "calls ! i \<in> set calls" using True by simp
      have "\<exists>p\<in>set calls. tx \<in> submits p" if "Rpc tx \<in> set (new1 @ new2)" for tx
      proof (cases "Rpc tx \<in> set new1")
        case True
        with s1 mem show ?thesis by blast
      next
        case False
        with that have "Rpc tx \<in> set new2" by simp
        with s2 obtain p where p: "p \<in> set (calls[i := p'])" "tx \<in> submits p" by blast
        from p(1) have "p = p' \<or> p \<in> set calls"
          using set_update_subset_insert [of calls i p'] by auto
        with p(2) sub mem show ?thesis by blast
      qed
      with e1 e2 have "events w' = events w @ (new1 @ new2) \<and>
          (\<forall>tx. Rpc tx \<in> set (new1 @ new2) \<longrightarrow> (\<exists>p\<in>set calls. tx \<in> submits p))"
        by simp
      then show ?thesis by (rule exI)
    next
      case False
      with Cons.prems pending have "Promise_all e calls rest w = (r, w')"
        by (simp add: Promise_all.simps [of e calls "i # rest" w])
      then show ?thesis by (rule Cons.IH)
    qed
  qed
qed







end
